theory Spec2Isabelle
  imports Main
begin

section \<open>Status codes\<close>

text \<open>
  The code of a \<^verbatim>\<open>kudu::Status\<close>. The message strings of the source are for
  logs only and are left out.
\<close>

datatype Status =
    OK
  | IllegalState
  | InvalidArgument
  | ServiceUnavailable
  | NotFound
  | Aborted
  | NotSupported
  | AlreadyPresent
  | Corruption

section \<open>Machine integers\<close>

text \<open>
  Terms, indexes and the failed-election counters are \<^verbatim>\<open>int64_t\<close> in the source, the
  sizes of the quorum rules are \<^verbatim>\<open>int\<close> (32 bits). They are integers here; where the
  source adds or subtracts, the result is wrapped to the width of the type, as the
  compiled code does.
\<close>

definition int64 :: "int \<Rightarrow> int" where
  "int64 x = (x + 2 ^ 63) mod 2 ^ 64 - 2 ^ 63"

definition int32 :: "int \<Rightarrow> int" where
  "int32 x = (x + 2 ^ 31) mod 2 ^ 32 - 2 ^ 31"

definition INT64_MAX :: int where
  "INT64_MAX = 2 ^ 63 - 1"

definition INT64_MIN :: int where
  "INT64_MIN = - (2 ^ 63)"

section \<open>VoteCounter (leader\_election.cc)\<close>

datatype ElectionVote = VOTE_DENIED | VOTE_GRANTED

text \<open>
  \<^verbatim>\<open>VoteInfo\<close>: the vote of one peer with the diagnostic fields the counters read.
\<close>

record VoteInfo =
  vote :: ElectionVote
  is_candidate_removed :: bool
  last_pruned_term :: int

text \<open>
  The fields of \<^verbatim>\<open>VoteCounter\<close>, without the trailing underscore of the source
  (\<open>counter_candidate_removed\<close> is \<^verbatim>\<open>is_candidate_removed_\<close>). \<open>votes\<close> is a
  \<^verbatim>\<open>std::map\<close> from voter UUID to the vote recorded for it.
\<close>

record VoteCounter =
  num_voters :: int
  counter_candidate_removed :: bool
  majority_size :: int
  votes :: "string \<rightharpoonup> VoteInfo"
  yes_votes :: int
  no_votes :: int

text \<open>
  The constructor. Its three \<^verbatim>\<open>CHECK\<close>s abort the process; that is \<open>None\<close>.
\<close>

definition VoteCounter_new :: "int \<Rightarrow> int \<Rightarrow> VoteCounter option" where
  "VoteCounter_new n m =
     (if m \<le> n \<and> 0 < n \<and> 0 < m
      then Some \<lparr> num_voters = n, counter_candidate_removed = False,
                  majority_size = m, votes = Map.empty,
                  yes_votes = 0, no_votes = 0 \<rparr>
      else None)"

text \<open>
  \<^verbatim>\<open>VoteCounter::RegisterVote(voter_uuid, vote_info, &is_duplicate)\<close>. The result is
  the returned status, the value of the out-parameter \<^verbatim>\<open>*is_duplicate\<close> after the call
  (\<open>dup\<close> is its value before the call: the error paths do not write it) and the
  counter after the call.
\<close>

definition RegisterVote ::
  "string \<Rightarrow> VoteInfo \<Rightarrow> bool \<Rightarrow> VoteCounter \<Rightarrow> Status \<times> bool \<times> VoteCounter" where
  "RegisterVote voter_uuid vote_info dup c =
     (case votes c voter_uuid of
        Some prior_vote_info \<Rightarrow>
          if vote prior_vote_info \<noteq> vote vote_info then (InvalidArgument, dup, c)
          else (OK, True, c)
      | None \<Rightarrow>
          if yes_votes c + no_votes c = num_voters c then (InvalidArgument, dup, c)
          else
            (let c1 = c \<lparr> votes := (votes c)(voter_uuid \<mapsto> vote_info) \<rparr>;
                 c2 = (case vote vote_info of
                         VOTE_GRANTED \<Rightarrow> c1 \<lparr> yes_votes := yes_votes c1 + 1 \<rparr>
                       | VOTE_DENIED \<Rightarrow>
                           c1 \<lparr> counter_candidate_removed :=
                                   counter_candidate_removed c1 \<or> is_candidate_removed vote_info,
                                 no_votes := no_votes c1 + 1 \<rparr>)
             in (OK, False, c2)))"

definition IsDecided :: "VoteCounter \<Rightarrow> bool" where
  "IsDecided c \<longleftrightarrow>
     yes_votes c \<ge> majority_size c \<or> no_votes c > num_voters c - majority_size c"

text \<open>
  \<^verbatim>\<open>VoteCounter::GetDecision\<close>: \<open>Inr\<close> the decision written to the out-parameter
  with status OK, \<open>Inl\<close> the error status.
\<close>

definition GetDecision :: "VoteCounter \<Rightarrow> Status + ElectionVote" where
  "GetDecision c =
     (if yes_votes c \<ge> majority_size c then Inr VOTE_GRANTED
      else if no_votes c > num_voters c - majority_size c then Inr VOTE_DENIED
      else Inl IllegalState)"


text \<open>
  A sequence of votes registered one after the other, as \<^verbatim>\<open>LeaderElection\<close> does:
  the status of each call is logged and dropped, the counter is kept.
\<close>

fun RegisterVotes :: "(string \<times> VoteInfo) list \<Rightarrow> VoteCounter \<Rightarrow> VoteCounter" where
  "RegisterVotes [] c = c"
| "RegisterVotes ((u, v) # vs) c = RegisterVotes vs (snd (snd (RegisterVote u v False c)))"

section \<open>FlexibleVoteCounter, static quorum modes (leader\_election.cc)\<close>

datatype QuorumMode = STATIC_DISJUNCTION | STATIC_CONJUNCTION | SINGLE_REGION_DYNAMIC

text \<open>
  \<^verbatim>\<open>CommitRulePredicatePB\<close> and \<^verbatim>\<open>CommitRulePB\<close>, the part of the configuration
  the static quorum check reads.
\<close>

record CommitRulePredicatePB =
  regions :: "string list"
  regions_subset_size :: int

record CommitRulePB =
  mode :: QuorumMode
  rule_predicates :: "CommitRulePredicatePB list"

text \<open>
  \<^verbatim>\<open>FlexibleVoteCounter\<close> is a \<^verbatim>\<open>VoteCounter\<close> (\<open>base\<close>) with the fields that
  vote registration and the static check use: \<open>commit_rule\<close> is
  \<^verbatim>\<open>config_.commit_rule()\<close>; \<^verbatim>\<open>voter_distribution_\<close>, \<^verbatim>\<open>yes_vote_count_\<close> and
  \<^verbatim>\<open>no_vote_count_\<close> are maps from a region (a quorum id) to an \<^verbatim>\<open>int\<close>;
  \<^verbatim>\<open>uuid_to_quorum_id_\<close> is the map from the UUID of a voter of the configuration to
  its quorum id, held as the list of its entries (no UUID twice);
  \<^verbatim>\<open>uuid_to_last_term_pruned_\<close> is the map from a UUID to the last pruned term of its
  vote.
\<close>

record FlexibleVoteCounter =
  base :: VoteCounter
  commit_rule :: CommitRulePB
  voter_distribution :: "string \<rightharpoonup> int"
  yes_vote_count :: "string \<rightharpoonup> int"
  no_vote_count :: "string \<rightharpoonup> int"
  uuid_to_quorum_id :: "(string \<times> string) list"
  uuid_to_last_term_pruned :: "string \<rightharpoonup> int"

text \<open>
  The constructor. \<open>rule\<close> is the commit rule of the configuration, \<open>None\<close> when
  the configuration has none: \<^verbatim>\<open>FetchTopologyInfo\<close> starts with
  \<^verbatim>\<open>CHECK(config_.has_commit_rule())\<close>. It then fills \<^verbatim>\<open>voter_distribution_\<close> and
  \<^verbatim>\<open>uuid_to_quorum_id_\<close> from the configuration with functions of quorum\_util that are
  defined outside the files at hand: what it leaves in the two maps are the parameters
  \<open>distribution\<close> and \<open>quorum_ids\<close>. The constructor then enters a zero yes count and
  a zero no count for every region of the distribution (with
  \<^verbatim>\<open>adjust_voter_distribution_\<close>, for those with a positive count only) and sets the
  number of voters to the size of \<^verbatim>\<open>uuid_to_quorum_id_\<close>; the base counter was built
  with majority size 1. A failed \<^verbatim>\<open>CHECK\<close> is \<open>None\<close>.
\<close>

definition FlexibleVoteCounter_new ::
  "CommitRulePB option \<Rightarrow> bool \<Rightarrow> (string \<rightharpoonup> int) \<Rightarrow> (string \<times> string) list
     \<Rightarrow> FlexibleVoteCounter option" where
  "FlexibleVoteCounter_new rule adjust distribution quorum_ids =
     (case rule of
        None \<Rightarrow> None
      | Some config_commit_rule \<Rightarrow>
          (let zero = (\<lambda>region. case distribution region of
                                    None \<Rightarrow> None
                                  | Some n \<Rightarrow> if adjust \<and> n \<le> 0 then None else Some 0)
           in if \<not> 0 < int32 (int (length quorum_ids)) then None
              else Some \<lparr> base = \<lparr> num_voters = int32 (int (length quorum_ids)),
                                   counter_candidate_removed = False, majority_size = 1,
                                   votes = Map.empty, yes_votes = 0, no_votes = 0 \<rparr>,
                          commit_rule = config_commit_rule,
                          voter_distribution = distribution,
                          yes_vote_count = zero, no_vote_count = zero,
                          uuid_to_quorum_id = quorum_ids,
                          uuid_to_last_term_pruned = Map.empty \<rparr>))"

text \<open>
  \<^verbatim>\<open>FlexibleVoteCounter::RegisterVote\<close>: the vote is registered with the base counter;
  an error of the base counter and a duplicate end the call. A voter without a quorum id
  is an InvalidArgument (the base counter has registered the vote by then). Otherwise the
  yes or the no count of the quorum id of the voter is entered as zero if it is missing
  and incremented (an \<^verbatim>\<open>int\<close> increment), and the last pruned term of the vote is
  recorded.
\<close>

definition increment_count :: "(string \<rightharpoonup> int) \<Rightarrow> string \<Rightarrow> (string \<rightharpoonup> int)" where
  "increment_count counts quorum_id =
     counts (quorum_id \<mapsto> int32 ((case counts quorum_id of Some n \<Rightarrow> n | None \<Rightarrow> 0) + 1))"

definition Flexible_RegisterVote ::
  "string \<Rightarrow> VoteInfo \<Rightarrow> bool \<Rightarrow> FlexibleVoteCounter \<Rightarrow> Status \<times> bool \<times> FlexibleVoteCounter" where
  "Flexible_RegisterVote voter_uuid vote_info dup fc =
     (let (s, is_duplicate, b) = RegisterVote voter_uuid vote_info dup (base fc);
          fc1 = fc \<lparr> base := b \<rparr>
      in if s \<noteq> OK then (s, is_duplicate, fc1)
         else if is_duplicate then (s, is_duplicate, fc1)
         else
           (case map_of (uuid_to_quorum_id fc1) voter_uuid of
              None \<Rightarrow> (InvalidArgument, is_duplicate, fc1)
            | Some quorum_id \<Rightarrow>
                (let fc2 = (case vote vote_info of
                              VOTE_GRANTED \<Rightarrow>
                                fc1 \<lparr> yes_vote_count :=
                                        increment_count (yes_vote_count fc1) quorum_id \<rparr>
                            | VOTE_DENIED \<Rightarrow>
                                fc1 \<lparr> no_vote_count :=
                                        increment_count (no_vote_count fc1) quorum_id \<rparr>)
                 in (s, is_duplicate,
                     fc2 \<lparr> uuid_to_last_term_pruned :=
                             (uuid_to_last_term_pruned fc2)
                               (voter_uuid \<mapsto> last_pruned_term vote_info) \<rparr>))))"

text \<open>
  A sequence of votes registered one after the other, as \<^verbatim>\<open>LeaderElection\<close> does
  through the virtual \<^verbatim>\<open>RegisterVote\<close>: the status of each call is logged and dropped,
  the counter is kept.
\<close>

fun Flexible_RegisterVotes ::
  "(string \<times> VoteInfo) list \<Rightarrow> FlexibleVoteCounter \<Rightarrow> FlexibleVoteCounter" where
  "Flexible_RegisterVotes [] fc = fc"
| "Flexible_RegisterVotes ((u, v) # vs) fc =
     Flexible_RegisterVotes vs (snd (snd (Flexible_RegisterVote u v False fc)))"











subsection \<open>What the static check is meant to decide\<close>

text \<open>
  The vote counts and the voter count of a region, and the two facts the check
  establishes for a region: a majority of its voters has voted yes; or so many have voted
  no that the yes votes cannot reach a majority any more. A region with an empty name
  never has a majority.
\<close>

definition yes_of :: "FlexibleVoteCounter \<Rightarrow> string \<Rightarrow> int" where
  "yes_of fc r = (case yes_vote_count fc r of Some y \<Rightarrow> y | None \<Rightarrow> 0)"

definition no_of :: "FlexibleVoteCounter \<Rightarrow> string \<Rightarrow> int" where
  "no_of fc r = (case no_vote_count fc r of Some n \<Rightarrow> n | None \<Rightarrow> 0)"

definition total_of :: "FlexibleVoteCounter \<Rightarrow> string \<Rightarrow> int" where
  "total_of fc r = (case voter_distribution fc r of Some t \<Rightarrow> t | None \<Rightarrow> 0)"





text \<open>
  The voters of a region by \<^verbatim>\<open>uuid_to_quorum_id_\<close>, and whether a voter has a vote of
  a kind on record. The regions the rule predicates list.
\<close>

definition region_voters :: "FlexibleVoteCounter \<Rightarrow> string \<Rightarrow> string list" where
  "region_voters fc r = map fst (filter (\<lambda>entry. snd entry = r) (uuid_to_quorum_id fc))"

definition voted :: "FlexibleVoteCounter \<Rightarrow> ElectionVote \<Rightarrow> string \<Rightarrow> bool" where
  "voted fc d u \<longleftrightarrow> (case votes (base fc) u of Some v \<Rightarrow> vote v = d | None \<Rightarrow> False)"

definition listed_regions :: "FlexibleVoteCounter \<Rightarrow> string list" where
  "listed_regions fc = concat (map regions (rule_predicates (commit_rule fc)))"

text \<open>
  The counter agrees with its configuration: no UUID has two quorum ids and there are
  fewer than \<open>2 ^ 30\<close> voters; for every listed region, the voter distribution counts
  exactly the voters of the region, the yes and the no count are the numbers of its voters
  with a yes and with a no on record, and its majority size is between 0 and \<open>2 ^ 30\<close>.
  And the counter has no votes of others: the number of voters is the number of UUIDs
  with a quorum id, only they have votes on record, and the tally of the base counter is
  the number of them with a vote on record.
\<close>

definition regional_ok :: "(int \<Rightarrow> int) \<Rightarrow> FlexibleVoteCounter \<Rightarrow> bool" where
  "regional_ok MajoritySize fc \<longleftrightarrow>
     distinct (map fst (uuid_to_quorum_id fc))
     \<and> int (length (uuid_to_quorum_id fc)) < 2 ^ 30
     \<and> (\<forall>r \<in> set (listed_regions fc).
           total_of fc r = int (length (region_voters fc r))
           \<and> yes_of fc r = int (length (filter (voted fc VOTE_GRANTED) (region_voters fc r)))
           \<and> no_of fc r = int (length (filter (voted fc VOTE_DENIED) (region_voters fc r)))
           \<and> 0 \<le> MajoritySize (total_of fc r) \<and> MajoritySize (total_of fc r) \<le> 2 ^ 30)"

definition global_ok :: "FlexibleVoteCounter \<Rightarrow> bool" where
  "global_ok fc \<longleftrightarrow>
     num_voters (base fc) = int (length (uuid_to_quorum_id fc))
     \<and> dom (votes (base fc)) \<subseteq> set (map fst (uuid_to_quorum_id fc))
     \<and> yes_votes (base fc) + no_votes (base fc)
         = int (length (filter (\<lambda>u. votes (base fc) u \<noteq> None)
                          (map fst (uuid_to_quorum_id fc))))"

definition counter_ok :: "(int \<Rightarrow> int) \<Rightarrow> FlexibleVoteCounter \<Rightarrow> bool" where
  "counter_ok MajoritySize fc \<longleftrightarrow> regional_ok MajoritySize fc \<and> global_ok fc"







section \<open>RaftConsensus: replica state (raft\_consensus.cc)\<close>

text \<open>
  \<^verbatim>\<open>OpId\<close> is the pair (term, index); \<^verbatim>\<open>MinimumOpId()\<close> is (0, 0).
  \<^verbatim>\<open>OpIdLessThan\<close> is the lexicographic order.
\<close>

record OpId =
  op_term :: int
  op_index :: int

definition MinimumOpId :: OpId where
  "MinimumOpId = \<lparr> op_term = 0, op_index = 0 \<rparr>"

definition OpIdLessThan :: "OpId \<Rightarrow> OpId \<Rightarrow> bool" where
  "OpIdLessThan a b \<longleftrightarrow>
     op_term a < op_term b \<or> (op_term a = op_term b \<and> op_index a < op_index b)"

definition OpIdEquals :: "OpId \<Rightarrow> OpId \<Rightarrow> bool" where
  "OpIdEquals a b \<longleftrightarrow> op_term a = op_term b \<and> op_index a = op_index b"

datatype MemberType = VOTER | NON_VOTER

record RaftPeerPB =
  permanent_uuid :: string
  member_type :: MemberType

record RaftConfigPB =
  peers :: "RaftPeerPB list"
  opid_index :: "int option"
  unsafe_config_change :: bool

datatype Role = LEADER | FOLLOWER | LEARNER | NON_PARTICIPANT

datatype State = kNew | kInitialized | kRunning | kStopping | kStopped | kShutdown

datatype FlushToDisk = SKIP_FLUSH_TO_DISK | FLUSH_TO_DISK

text \<open>
  \<^verbatim>\<open>MonoTime\<close> with its two extreme values \<^verbatim>\<open>MonoTime::Min()\<close> and
  \<^verbatim>\<open>MonoTime::Max()\<close>.
\<close>

datatype MonoTime = MonoTime_Min | MonoTime_At int | MonoTime_Max

fun MonoTime_less :: "MonoTime \<Rightarrow> MonoTime \<Rightarrow> bool" where
  "MonoTime_less MonoTime_Max _ = False"
| "MonoTime_less _ MonoTime_Min = False"
| "MonoTime_less MonoTime_Min _ = True"
| "MonoTime_less _ MonoTime_Max = True"
| "MonoTime_less (MonoTime_At a) (MonoTime_At b) = (a < b)"

text \<open>
  \<^verbatim>\<open>PendingRounds\<close> (\<^verbatim>\<open>pending_\<close>): the id of the last committed operation and
  the rounds that are appended and not yet committed, in index order (the source keeps
  them in a \<^verbatim>\<open>std::map\<close> keyed by index; a round is represented by its OpId).
\<close>

record PendingRounds =
  last_committed_op_id :: OpId
  pending_txns :: "OpId list"

text \<open>
  The state of a replica. The first group is the consensus metadata \<^verbatim>\<open>cmeta_\<close>
  (term, vote, leader, configurations); \<open>flushed\<close> lists what each
  \<^verbatim>\<open>cmeta_->Flush()\<close> wrote to disk, newest first, as pairs (current term, voted for).
  The second group are members of \<^verbatim>\<open>RaftConsensus\<close>; the third is what the model
  keeps of the message queue \<^verbatim>\<open>queue_\<close> and the peer manager. Logging, metrics,
  tracing, the failure-detector timer and the observer callbacks have no state here.

  The last group stands for three calls into objects that are defined outside the files
  at hand and whose status the source returns to its caller: what
  \<^verbatim>\<open>cmeta_->set_leader_uuid(uuid)\<close>, \<^verbatim>\<open>routing_table_container_->UpdateRaftConfig(config)\<close>
  and \<^verbatim>\<open>peer_manager_->UpdateRaftConfig(config)\<close> answer.
\<close>

record RaftConsensus =
  peer_uuid :: string
  state :: State
  current_term :: int
  voted_for :: "string option"
  leader_uuid :: string
  committed_config :: RaftConfigPB
  pending_config :: "RaftConfigPB option"
  removed_peers :: "string list"
  flushed :: "(int \<times> string option) list"
  start_election_allowed :: bool
  withhold_votes :: bool
  withhold_votes_until :: MonoTime
  last_received_cur_leader :: OpId
  failed_elections_since_stable_leader :: int
  failed_elections_candidate_not_in_config :: int
  leader_transfer_in_progress :: bool
  adjust_voter_distribution :: bool
  disable_noop :: bool
  pending :: PendingRounds
  queue_leader_mode :: bool
  queue_observer_registered :: bool
  queue_last_appended :: OpId
  queue_committed_index :: int
  queue_first_index_in_current_term :: "int option"
  peer_manager_closed :: bool
  cmeta_set_leader_uuid_status :: "string \<Rightarrow> Status"
  routing_table_update_status :: "RaftConfigPB \<Rightarrow> Status"
  peer_manager_update_status :: "RaftConfigPB \<Rightarrow> Status"

subsection \<open>Consensus metadata\<close>

text \<open>
  \<^verbatim>\<open>cmeta_->ActiveConfig()\<close>: the pending configuration when there is one, the
  committed one otherwise.
\<close>

definition ActiveConfig :: "RaftConsensus \<Rightarrow> RaftConfigPB" where
  "ActiveConfig s = (case pending_config s of Some c \<Rightarrow> c | None \<Rightarrow> committed_config s)"

definition IsRaftConfigMember :: "string \<Rightarrow> RaftConfigPB \<Rightarrow> bool" where
  "IsRaftConfigMember uuid config \<longleftrightarrow> uuid \<in> set (map permanent_uuid (peers config))"

definition IsRaftConfigVoter :: "string \<Rightarrow> RaftConfigPB \<Rightarrow> bool" where
  "IsRaftConfigVoter uuid config \<longleftrightarrow>
     (\<exists>p \<in> set (peers config). permanent_uuid p = uuid \<and> member_type p = VOTER)"

definition CountVoters :: "RaftConfigPB \<Rightarrow> int" where
  "CountVoters config = int (length (filter (\<lambda>p. member_type p = VOTER) (peers config)))"

text \<open>
  \<^verbatim>\<open>GetConsensusRole(peer_uuid, leader_uuid, config)\<close>, as quorum\_util.h documents it:
  NON\_PARTICIPANT when \<open>peer_uuid\<close> is empty or not a member of the configuration,
  LEARNER when it is a NON\_VOTER, whatever \<open>leader_uuid\<close> is; otherwise LEADER when
  it is the leader and FOLLOWER when not. The first peer with the UUID decides.
\<close>

fun GetConsensusRole_peers :: "string \<Rightarrow> string \<Rightarrow> RaftPeerPB list \<Rightarrow> Role" where
  "GetConsensusRole_peers uuid leader [] = NON_PARTICIPANT"
| "GetConsensusRole_peers uuid leader (p # ps) =
     (if permanent_uuid p = uuid then
        (case member_type p of
           VOTER \<Rightarrow> if uuid = leader then LEADER else FOLLOWER
         | NON_VOTER \<Rightarrow> LEARNER)
      else GetConsensusRole_peers uuid leader ps)"

definition GetConsensusRole :: "string \<Rightarrow> string \<Rightarrow> RaftConfigPB \<Rightarrow> Role" where
  "GetConsensusRole uuid leader config =
     (if uuid = [] then NON_PARTICIPANT else GetConsensusRole_peers uuid leader (peers config))"

text \<open>
  \<^verbatim>\<open>cmeta_->active_role()\<close>: the role of the local peer in the active configuration
  under the current leader UUID.
\<close>

definition active_role :: "RaftConsensus \<Rightarrow> Role" where
  "active_role s = GetConsensusRole (peer_uuid s) (leader_uuid s) (ActiveConfig s)"

definition IsVoterRole :: "Role \<Rightarrow> bool" where
  "IsVoterRole role \<longleftrightarrow> role = LEADER \<or> role = FOLLOWER"

text \<open>\<^verbatim>\<open>cmeta_->Flush()\<close>: the term and the vote reach the disk.\<close>

definition Flush :: "RaftConsensus \<Rightarrow> RaftConsensus" where
  "Flush s = s \<lparr> flushed := (current_term s, voted_for s) # flushed s \<rparr>"

subsection \<open>Term, vote and leader\<close>

definition CheckRunningUnlocked :: "RaftConsensus \<Rightarrow> Status" where
  "CheckRunningUnlocked s = (if state s \<noteq> kRunning then IllegalState else OK)"

definition ClearLeaderUnlocked :: "RaftConsensus \<Rightarrow> RaftConsensus" where
  "ClearLeaderUnlocked s = s \<lparr> leader_uuid := [] \<rparr>"

definition HasVotedCurrentTermUnlocked :: "RaftConsensus \<Rightarrow> bool" where
  "HasVotedCurrentTermUnlocked s \<longleftrightarrow> voted_for s \<noteq> None"

text \<open>
  \<^verbatim>\<open>SetVotedForCurrentTermUnlocked\<close>: \<^verbatim>\<open>set_voted_for\<close>, then \<^verbatim>\<open>Flush\<close>;
  always OK.
\<close>

definition SetVotedForCurrentTermUnlocked :: "string \<Rightarrow> RaftConsensus \<Rightarrow> Status \<times> RaftConsensus" where
  "SetVotedForCurrentTermUnlocked uuid s = (OK, Flush (s \<lparr> voted_for := Some uuid \<rparr>))"

text \<open>
  \<^verbatim>\<open>SetLeaderUuidUnlocked\<close>: resets the failed-election counters, calls
  \<^verbatim>\<open>cmeta_->set_leader_uuid\<close> and returns its status. \<^verbatim>\<open>ConsensusMetadata\<close> is
  defined outside the files at hand: the status is what the field
  \<open>cmeta_set_leader_uuid_status\<close> answers, and the leader is recorded.
\<close>

definition SetLeaderUuidUnlocked :: "string \<Rightarrow> RaftConsensus \<Rightarrow> Status \<times> RaftConsensus" where
  "SetLeaderUuidUnlocked uuid s =
     (cmeta_set_leader_uuid_status s uuid,
      s \<lparr> failed_elections_since_stable_leader := 0,
          failed_elections_candidate_not_in_config := 0,
          leader_uuid := uuid \<rparr>)"

text \<open>
  \<^verbatim>\<open>BecomeReplicaUnlocked\<close>: clears the leader, allows voting again, deregisters from
  the queue, puts the queue in non-leader mode and closes the peer manager; always OK.
\<close>

definition BecomeReplicaUnlocked :: "RaftConsensus \<Rightarrow> Status \<times> RaftConsensus" where
  "BecomeReplicaUnlocked s =
     (OK, (ClearLeaderUnlocked s)
            \<lparr> withhold_votes_until := MonoTime_Min,
              queue_observer_registered := False,
              queue_leader_mode := False,
              peer_manager_closed := True \<rparr>)"

text \<open>
  \<^verbatim>\<open>SetCurrentTermUnlocked(new_term, flush)\<close>: refuses a term that is not greater than
  the current one; otherwise sets the term, clears the vote, flushes when asked to, and
  clears the leader.
\<close>

definition SetCurrentTermUnlocked ::
  "int \<Rightarrow> FlushToDisk \<Rightarrow> RaftConsensus \<Rightarrow> Status \<times> RaftConsensus" where
  "SetCurrentTermUnlocked new_term flush s =
     (if new_term \<le> current_term s then (IllegalState, s)
      else
        (let s1 = s \<lparr> current_term := new_term \<rparr>;
             s2 = s1 \<lparr> voted_for := None \<rparr>;
             s3 = (if flush = FLUSH_TO_DISK then Flush s2 else s2)
         in (OK, ClearLeaderUnlocked s3)))"

text \<open>
  \<^verbatim>\<open>HandleTermAdvanceUnlocked(new_term, flush)\<close>. \<^verbatim>\<open>RETURN_NOT_OK\<close> returns the
  status of a failed step with the state as that step left it.
\<close>

definition HandleTermAdvanceUnlocked ::
  "int \<Rightarrow> FlushToDisk \<Rightarrow> RaftConsensus \<Rightarrow> Status \<times> RaftConsensus" where
  "HandleTermAdvanceUnlocked new_term flush s =
     (if new_term \<le> current_term s then (IllegalState, s)
      else
        (let (st1, s1) = (if active_role s = LEADER then BecomeReplicaUnlocked s else (OK, s))
         in if st1 \<noteq> OK then (st1, s1)
            else
              (let (st2, s2) = SetCurrentTermUnlocked new_term flush s1
               in if st2 \<noteq> OK then (st2, s2)
                  else (OK, s2 \<lparr> last_received_cur_leader := MinimumOpId \<rparr>))))"

text \<open>
  \<^verbatim>\<open>SetCurrentTermBootstrap\<close>: sets a greater term and flushes; the vote is not
  touched.
\<close>

definition SetCurrentTermBootstrap :: "int \<Rightarrow> RaftConsensus \<Rightarrow> Status \<times> RaftConsensus" where
  "SetCurrentTermBootstrap new_term s =
     (if new_term \<le> current_term s then (IllegalState, s)
      else (OK, Flush (s \<lparr> current_term := new_term \<rparr>)))"

subsection \<open>Example states\<close>

text \<open>
  A running replica \<open>a\<close> in a configuration of three voters \<open>a\<close>, \<open>b\<close>, \<open>c\<close>, in
  term 5, that has voted for itself and leads the term; and the same replica as a
  follower of \<open>b\<close> that has not voted.
\<close>

text \<open>
  In the examples the metadata, the routing table and the peer manager accept what they
  are given.
\<close>

definition set_leader_uuid_ok :: "string \<Rightarrow> Status" where
  "set_leader_uuid_ok uuid = OK"

definition update_raft_config_ok :: "RaftConfigPB \<Rightarrow> Status" where
  "update_raft_config_ok config = OK"

definition example_config :: RaftConfigPB where
  "example_config =
     \<lparr> peers = [\<lparr> permanent_uuid = ''a'', member_type = VOTER \<rparr>,
                \<lparr> permanent_uuid = ''b'', member_type = VOTER \<rparr>,
                \<lparr> permanent_uuid = ''c'', member_type = VOTER \<rparr>],
       opid_index = Some 1, unsafe_config_change = False \<rparr>"

definition example_leader :: RaftConsensus where
  "example_leader =
     \<lparr> peer_uuid = ''a'', state = kRunning, current_term = 5, voted_for = Some ''a'',
       leader_uuid = ''a'', committed_config = example_config, pending_config = None,
       removed_peers = [], flushed = [(5, Some ''a'')], start_election_allowed = True,
       withhold_votes = False, withhold_votes_until = MonoTime_Max,
       last_received_cur_leader = MinimumOpId,
       failed_elections_since_stable_leader = 0,
       failed_elections_candidate_not_in_config = 0,
       leader_transfer_in_progress = False,
       adjust_voter_distribution = True, disable_noop = False,
       pending = \<lparr> last_committed_op_id = \<lparr> op_term = 4, op_index = 10 \<rparr>,
                   pending_txns = [\<lparr> op_term = 5, op_index = 11 \<rparr>] \<rparr>,
       queue_leader_mode = True, queue_observer_registered = True,
       queue_last_appended = \<lparr> op_term = 5, op_index = 11 \<rparr>,
       queue_committed_index = 10, queue_first_index_in_current_term = Some 11,
       peer_manager_closed = False,
       cmeta_set_leader_uuid_status = set_leader_uuid_ok,
       routing_table_update_status = update_raft_config_ok,
       peer_manager_update_status = update_raft_config_ok \<rparr>"

definition example_follower :: RaftConsensus where
  "example_follower =
     example_leader \<lparr> voted_for := None, leader_uuid := ''b'', flushed := [(5, None)],
                      withhold_votes_until := MonoTime_Min,
                      pending := \<lparr> last_committed_op_id = \<lparr> op_term = 4, op_index = 10 \<rparr>,
                                   pending_txns = [] \<rparr>,
                      queue_leader_mode := False, queue_observer_registered := False,
                      queue_last_appended := \<lparr> op_term = 4, op_index = 10 \<rparr>,
                      queue_first_index_in_current_term := None,
                      peer_manager_closed := True \<rparr>"

subsection \<open>RequestVote\<close>

datatype ConsensusErrorCode =
    UNKNOWN
  | INVALID_TERM
  | LAST_OPID_TOO_OLD
  | ALREADY_VOTED
  | LEADER_IS_ALIVE
  | CONSENSUS_BUSY
  | PRECEDING_ENTRY_DIDNT_MATCH
  | CANNOT_PREPARE

text \<open>
  \<^verbatim>\<open>VoteRequestPB\<close> and \<^verbatim>\<open>VoteResponsePB\<close>, with the fields the voting path reads and
  writes. \<open>candidate_last_received\<close> is \<^verbatim>\<open>candidate_status().last_received()\<close>;
  \<open>consensus_error_code\<close> and \<open>consensus_error_status\<close> are the two parts of
  \<^verbatim>\<open>consensus_error\<close>; \<open>voter_context_is_candidate_removed\<close> is \<open>None\<close> while the
  response has no voter context, \<open>response_last_known_leader\<close> is \<open>None\<close> while that
  field is not set. \<^verbatim>\<open>PreviousVotePB\<close> and \<^verbatim>\<open>LastKnownLeaderPB\<close> have the two fields
  the code reads: a UUID and an election term.
\<close>

record VoteRequestPB =
  candidate_uuid :: string
  candidate_term :: int
  is_pre_election :: bool
  ignore_live_leader :: bool
  candidate_last_received :: OpId

record PreviousVotePB =
  pv_candidate_uuid :: string
  pv_election_term :: int

record LastKnownLeaderPB =
  lkl_uuid :: string
  lkl_election_term :: int

record VoteResponsePB =
  responder_uuid :: string
  responder_term :: int
  vote_granted :: bool
  consensus_error_code :: "ConsensusErrorCode option"
  consensus_error_status :: "Status option"
  voter_context_is_candidate_removed :: "bool option"
  response_last_pruned_term :: int
  response_previous_vote_history :: "PreviousVotePB list"
  response_last_known_leader :: "LastKnownLeaderPB option"

text \<open>
  What \<^verbatim>\<open>RequestVote\<close> reads from outside the replica state: two flags of the
  process, whether another vote or update holds \<^verbatim>\<open>update_lock_\<close> at this moment, the
  clock, the \<^verbatim>\<open>tombstone_last_logged_opid_\<close> of the \<^verbatim>\<open>TabletVotingState\<close> passed
  in, and the inputs of the lag heuristic: the two flags it depends on and
  \<open>srd_same_region\<close>, which says that the committed configuration is in
  SINGLE\_REGION\_DYNAMIC mode and the candidate's region is known and is the region of
  this peer. \<^verbatim>\<open>ConsensusMetadata\<close> is defined outside the files at hand; what its
  accessors \<^verbatim>\<open>previous_vote_history()\<close> (the values of the map, in the order of their
  terms), \<^verbatim>\<open>last_pruned_term()\<close> and \<^verbatim>\<open>last_known_leader()\<close> return for a replica at
  the moment of the call are the last three fields.
\<close>

record VoteEnv =
  FLAGS_enable_leader_failure_detection :: bool
  update_lock_held :: bool
  now :: MonoTime
  tombstone_last_logged_opid :: "OpId option"
  FLAGS_raft_enable_tombstoned_voting :: bool
  FLAGS_lag_threshold_for_request_vote :: int
  FLAGS_enable_flexi_raft :: bool
  srd_same_region :: bool
  cmeta_previous_vote_history :: "RaftConsensus \<Rightarrow> PreviousVotePB list"
  cmeta_last_pruned_term :: "RaftConsensus \<Rightarrow> int"
  cmeta_last_known_leader :: "RaftConsensus \<Rightarrow> LastKnownLeaderPB"

text \<open>
  \<^verbatim>\<open>FillVoteResponsePreviousVoteHistory\<close> appends the vote history of the metadata to
  the one of the response and sets the last pruned term;
  \<^verbatim>\<open>FillVoteResponseLastKnownLeader\<close> copies the last known leader.
\<close>

definition FillVoteResponsePreviousVoteHistory ::
  "VoteEnv \<Rightarrow> VoteResponsePB \<Rightarrow> RaftConsensus \<Rightarrow> VoteResponsePB" where
  "FillVoteResponsePreviousVoteHistory env response s =
     response \<lparr> response_previous_vote_history :=
                  response_previous_vote_history response @ cmeta_previous_vote_history env s,
                response_last_pruned_term := cmeta_last_pruned_term env s \<rparr>"

definition FillVoteResponseLastKnownLeader ::
  "VoteEnv \<Rightarrow> VoteResponsePB \<Rightarrow> RaftConsensus \<Rightarrow> VoteResponsePB" where
  "FillVoteResponseLastKnownLeader env response s =
     response \<lparr> response_last_known_leader := Some (cmeta_last_known_leader env s) \<rparr>"

definition FillVoteResponseVoteGranted ::
  "VoteEnv \<Rightarrow> VoteResponsePB \<Rightarrow> RaftConsensus \<Rightarrow> VoteResponsePB" where
  "FillVoteResponseVoteGranted env response s =
     FillVoteResponseLastKnownLeader env
       (FillVoteResponsePreviousVoteHistory env
          (response \<lparr> responder_term := current_term s, vote_granted := True \<rparr>) s) s"

definition FillVoteResponseVoteDenied ::
  "VoteEnv \<Rightarrow> ConsensusErrorCode \<Rightarrow> VoteResponsePB \<Rightarrow> RaftConsensus \<Rightarrow> VoteResponsePB" where
  "FillVoteResponseVoteDenied env error_code response s =
     FillVoteResponseLastKnownLeader env
       (FillVoteResponsePreviousVoteHistory env
          (response \<lparr> responder_term := current_term s, vote_granted := False,
                       consensus_error_code := Some error_code \<rparr>) s) s"

text \<open>
  The seven denials and the two grants. Each returns OK as the status of the call;
  the denial is in the response.
\<close>

definition RequestVoteRespondInvalidTerm ::
  "VoteEnv \<Rightarrow> VoteRequestPB \<Rightarrow> VoteResponsePB \<Rightarrow> RaftConsensus
     \<Rightarrow> Status \<times> VoteResponsePB \<times> RaftConsensus" where
  "RequestVoteRespondInvalidTerm env request response s =
     (OK, (FillVoteResponseVoteDenied env INVALID_TERM response s)
            \<lparr> consensus_error_status := Some InvalidArgument \<rparr>, s)"

definition RequestVoteRespondVoteAlreadyGranted ::
  "VoteEnv \<Rightarrow> VoteRequestPB \<Rightarrow> VoteResponsePB \<Rightarrow> RaftConsensus
     \<Rightarrow> Status \<times> VoteResponsePB \<times> RaftConsensus" where
  "RequestVoteRespondVoteAlreadyGranted env request response s =
     (OK, FillVoteResponseVoteGranted env response s, s)"

definition RequestVoteRespondAlreadyVotedForOther ::
  "VoteEnv \<Rightarrow> VoteRequestPB \<Rightarrow> VoteResponsePB \<Rightarrow> RaftConsensus
     \<Rightarrow> Status \<times> VoteResponsePB \<times> RaftConsensus" where
  "RequestVoteRespondAlreadyVotedForOther env request response s =
     (OK, (FillVoteResponseVoteDenied env ALREADY_VOTED response s)
            \<lparr> consensus_error_status := Some InvalidArgument \<rparr>, s)"

definition RequestVoteRespondLastOpIdTooOld ::
  "VoteEnv \<Rightarrow> OpId \<Rightarrow> VoteRequestPB \<Rightarrow> VoteResponsePB \<Rightarrow> RaftConsensus
     \<Rightarrow> Status \<times> VoteResponsePB \<times> RaftConsensus" where
  "RequestVoteRespondLastOpIdTooOld env local_last_logged_opid request response s =
     (OK, (FillVoteResponseVoteDenied env LAST_OPID_TOO_OLD response s)
            \<lparr> consensus_error_status := Some InvalidArgument \<rparr>, s)"

definition RequestVoteRespondVoteWitheld ::
  "VoteEnv \<Rightarrow> VoteRequestPB \<Rightarrow> VoteResponsePB \<Rightarrow> RaftConsensus
     \<Rightarrow> Status \<times> VoteResponsePB \<times> RaftConsensus" where
  "RequestVoteRespondVoteWitheld env request response s =
     (OK, (FillVoteResponseVoteDenied env UNKNOWN response s)
            \<lparr> consensus_error_status := Some InvalidArgument \<rparr>, s)"

definition RequestVoteRespondLeaderIsAlive ::
  "VoteEnv \<Rightarrow> VoteRequestPB \<Rightarrow> VoteResponsePB \<Rightarrow> RaftConsensus
     \<Rightarrow> Status \<times> VoteResponsePB \<times> RaftConsensus" where
  "RequestVoteRespondLeaderIsAlive env request response s =
     (OK, (FillVoteResponseVoteDenied env LEADER_IS_ALIVE response s)
            \<lparr> consensus_error_status := Some InvalidArgument \<rparr>, s)"

definition RequestVoteRespondIsBusy ::
  "VoteEnv \<Rightarrow> VoteRequestPB \<Rightarrow> VoteResponsePB \<Rightarrow> RaftConsensus
     \<Rightarrow> Status \<times> VoteResponsePB \<times> RaftConsensus" where
  "RequestVoteRespondIsBusy env request response s =
     (OK, (FillVoteResponseVoteDenied env CONSENSUS_BUSY response s)
            \<lparr> consensus_error_status := Some ServiceUnavailable \<rparr>, s)"

text \<open>
  \<^verbatim>\<open>RequestVoteRespondVoteGranted\<close>: the vote is persisted unless the request is a
  pre-election; then the response is filled.
\<close>

definition RequestVoteRespondVoteGranted ::
  "VoteEnv \<Rightarrow> VoteRequestPB \<Rightarrow> VoteResponsePB \<Rightarrow> RaftConsensus
     \<Rightarrow> Status \<times> VoteResponsePB \<times> RaftConsensus" where
  "RequestVoteRespondVoteGranted env request response s =
     (let (st, s1) = (if \<not> is_pre_election request
                      then SetVotedForCurrentTermUnlocked (candidate_uuid request) s
                      else (OK, s))
      in if st \<noteq> OK then (st, response, s1)
         else (OK, FillVoteResponseVoteGranted env response s1, s1))"

text \<open>
  The \<^verbatim>\<open>switch (state_)\<close> of \<^verbatim>\<open>RequestVote\<close>: the last-logged OpId to vote with, or
  the error the call returns.
\<close>

definition RequestVote_local_last_logged_opid :: "VoteEnv \<Rightarrow> RaftConsensus \<Rightarrow> Status + OpId" where
  "RequestVote_local_last_logged_opid env s =
     (case state s of
        kShutdown \<Rightarrow> Inl IllegalState
      | kRunning \<Rightarrow> Inr (queue_last_appended s)
      | _ \<Rightarrow>
          (case tombstone_last_logged_opid env of
             None \<Rightarrow> Inl IllegalState
           | Some opid \<Rightarrow>
               if \<not> FLAGS_raft_enable_tombstoned_voting env then Inl IllegalState
               else Inr opid))"

text \<open>
  \<^verbatim>\<open>RaftConsensus::RequestVote\<close>. The result is the status of the call, the response
  and the state after the call.
\<close>

definition RequestVote ::
  "VoteEnv \<Rightarrow> VoteRequestPB \<Rightarrow> VoteResponsePB \<Rightarrow> RaftConsensus
     \<Rightarrow> Status \<times> VoteResponsePB \<times> RaftConsensus" where
  "RequestVote env request response0 s =
     (let response1 = response0 \<lparr> responder_uuid := peer_uuid s \<rparr>;
          owns_lock = (if FLAGS_enable_leader_failure_detection env \<and> \<not> ignore_live_leader request
                       then \<not> update_lock_held env else True)
      in if \<not> owns_lock then RequestVoteRespondIsBusy env request response1 s
         else
           (case RequestVote_local_last_logged_opid env s of
              Inl st \<Rightarrow> (st, response1, s)
            | Inr local_last_logged_opid \<Rightarrow>
                (let response2 = response1 \<lparr> voter_context_is_candidate_removed := Some False \<rparr>;
                     response =
                       (if \<not> IsRaftConfigMember (candidate_uuid request) (ActiveConfig s)
                           \<and> candidate_uuid request \<in> set (removed_peers s)
                        then response2 \<lparr> voter_context_is_candidate_removed := Some True \<rparr>
                        else response2)
                 in if withhold_votes s then RequestVoteRespondVoteWitheld env request response s
                    else if \<not> ignore_live_leader request
                            \<and> MonoTime_less (now env) (withhold_votes_until s)
                    then RequestVoteRespondLeaderIsAlive env request response s
                    else if candidate_term request < current_term s
                    then RequestVoteRespondInvalidTerm env request response s
                    else if candidate_term request = current_term s
                            \<and> HasVotedCurrentTermUnlocked s
                    then
                      (if voted_for s = Some (candidate_uuid request)
                       then RequestVoteRespondVoteAlreadyGranted env request response s
                       else RequestVoteRespondAlreadyVotedForOther env request response s)
                    else
                      (let check_srd_lag =
                             (FLAGS_lag_threshold_for_request_vote env \<noteq> - 1
                              \<and> FLAGS_enable_flexi_raft env \<and> srd_same_region env);
                           vote_yes = \<not> OpIdLessThan (candidate_last_received request)
                                                       local_last_logged_opid;
                           lag = int64 (op_index (candidate_last_received request)
                                          - op_index local_last_logged_opid)
                       in if vote_yes \<and> check_srd_lag
                             \<and> lag > FLAGS_lag_threshold_for_request_vote env
                          then RequestVoteRespondVoteWitheld env request response s
                          else
                            (let (st, s1) =
                                   (if \<not> is_pre_election request
                                       \<and> candidate_term request > current_term s
                                    then HandleTermAdvanceUnlocked (candidate_term request)
                                           (if vote_yes then SKIP_FLUSH_TO_DISK else FLUSH_TO_DISK) s
                                    else (OK, s))
                             in if st \<noteq> OK then (st, response, s1)
                                else if \<not> vote_yes
                                then RequestVoteRespondLastOpIdTooOld env local_last_logged_opid
                                       request response s1
                                else RequestVoteRespondVoteGranted env request response s1)))))"

subsection \<open>Appending rounds and configuration changes\<close>

datatype OperationType = NO_OP | CHANGE_CONFIG_OP | WRITE_OP | PROXY_OP

text \<open>
  \<^verbatim>\<open>ReplicateMsg\<close>: the OpId (index 0 while none is assigned), the operation type and,
  for a configuration change, the \<^verbatim>\<open>change_config_record\<close> with the old and the new
  configuration.
\<close>

record ReplicateMsg =
  msg_id :: OpId
  msg_op_type :: OperationType
  msg_old_config :: "RaftConfigPB option"
  msg_new_config :: "RaftConfigPB option"

definition CheckActiveLeaderUnlocked :: "RaftConsensus \<Rightarrow> Status" where
  "CheckActiveLeaderUnlocked s =
     (case active_role s of
        LEADER \<Rightarrow> if leader_transfer_in_progress s then ServiceUnavailable else OK
      | _ \<Rightarrow> IllegalState)"

definition CheckNoConfigChangePendingUnlocked :: "RaftConsensus \<Rightarrow> Status" where
  "CheckNoConfigChangePendingUnlocked s =
     (if pending_config s \<noteq> None then IllegalState else OK)"

text \<open>
  Modelled from the spec: \<^verbatim>\<open>PeerMessageQueue\<close> is declared in consensus\_queue.h and
  defined outside the files at hand. \<^verbatim>\<open>IsCommittedIndexInCurrentTerm\<close>, by its
  declaration, returns true if the committed index falls within the current term; the
  queue state of the spec has an optional \<open>first_index_in_current_term\<close>, and the
  committed index is in the current term when that index is defined and not above it.
  \<^verbatim>\<open>GetNextOpId\<close> is the current term with the index after the last appended one.
\<close>

definition IsCommittedIndexInCurrentTerm :: "RaftConsensus \<Rightarrow> bool" where
  "IsCommittedIndexInCurrentTerm s =
     (case queue_first_index_in_current_term s of
        None \<Rightarrow> False
      | Some first \<Rightarrow> first \<le> queue_committed_index s)"

definition GetNextOpId :: "RaftConsensus \<Rightarrow> OpId" where
  "GetNextOpId s = \<lparr> op_term = current_term s, op_index = op_index (queue_last_appended s) + 1 \<rparr>"

text \<open>
  Modelled from the spec: \<^verbatim>\<open>PendingRounds\<close> is defined outside the files at hand.
  \<open>admit(round)\<close> fails unless the id of the round is greater than the last admitted id
  and its index is the next one; the last admitted id is that of the last pending round
  or, with none pending, of the last committed operation.
\<close>

definition GetLastAdmittedOpId :: "PendingRounds \<Rightarrow> OpId" where
  "GetLastAdmittedOpId p =
     (if pending_txns p = [] then last_committed_op_id p else last (pending_txns p))"

definition AddPendingOperation :: "OpId \<Rightarrow> PendingRounds \<Rightarrow> Status \<times> PendingRounds" where
  "AddPendingOperation round_id p =
     (if OpIdLessThan (GetLastAdmittedOpId p) round_id
         \<and> op_index round_id = op_index (GetLastAdmittedOpId p) + 1
      then (OK, p \<lparr> pending_txns := pending_txns p @ [round_id] \<rparr>)
      else (Corruption, p))"

text \<open>
  \<^verbatim>\<open>RefreshConsensusQueueAndPeersUnlocked\<close>: the peer manager is closed, the queue is
  put in leader mode with the committed index of the pending rounds, and the peer manager
  is given the active configuration; when it accepts it, it is open again, and when it
  does not, its status is returned.
\<close>

definition RefreshConsensusQueueAndPeersUnlocked :: "RaftConsensus \<Rightarrow> Status \<times> RaftConsensus" where
  "RefreshConsensusQueueAndPeersUnlocked s =
     (let s1 = s \<lparr> peer_manager_closed := True,
                    queue_leader_mode := True,
                    queue_committed_index := op_index (last_committed_op_id (pending s)) \<rparr>
      in if peer_manager_update_status s (ActiveConfig s) \<noteq> OK
         then (peer_manager_update_status s (ActiveConfig s), s1)
         else (OK, s1 \<lparr> peer_manager_closed := False \<rparr>))"

text \<open>
  \<^verbatim>\<open>SetPendingConfigUnlocked\<close>. \<^verbatim>\<open>VerifyRaftConfig\<close> is declared in quorum\_util.h
  and defined outside the files at hand: it is the parameter \<open>VerifyRaftConfig\<close>. The
  failed \<^verbatim>\<open>CHECK\<close> is \<open>None\<close>. After the pending configuration is set, the
  routing table is given the active configuration, and its status is returned when it is
  not OK.
\<close>

definition SetPendingConfigUnlocked ::
  "(RaftConfigPB \<Rightarrow> Status) \<Rightarrow> RaftConfigPB \<Rightarrow> RaftConsensus
     \<Rightarrow> (Status \<times> RaftConsensus) option" where
  "SetPendingConfigUnlocked VerifyRaftConfig new_config s =
     (if VerifyRaftConfig new_config \<noteq> OK then Some (VerifyRaftConfig new_config, s)
      else if adjust_voter_distribution s \<and> \<not> unsafe_config_change new_config
              \<and> pending_config s \<noteq> None
      then None
      else
        (let s1 = s \<lparr> pending_config := Some new_config \<rparr>
         in if routing_table_update_status s1 (ActiveConfig s1) \<noteq> OK
            then Some (routing_table_update_status s1 (ActiveConfig s1), s1)
            else Some (OK, s1)))"

text \<open>
  \<^verbatim>\<open>AddPendingOperationUnlocked\<close>: a configuration change gets the index of its round
  as \<open>opid_index\<close> and becomes the pending configuration when that index is above the
  one of the committed configuration; then the round is admitted to the pending rounds.
\<close>

definition AddPendingOperationUnlocked ::
  "(RaftConfigPB \<Rightarrow> Status) \<Rightarrow> ReplicateMsg \<Rightarrow> RaftConsensus
     \<Rightarrow> (Status \<times> RaftConsensus) option" where
  "AddPendingOperationUnlocked VerifyRaftConfig msg s =
     (let admit = (\<lambda>s1. let (st, p) = AddPendingOperation (msg_id msg) (pending s1)
                         in Some (st, s1 \<lparr> pending := p \<rparr>))
      in if msg_op_type msg = CHANGE_CONFIG_OP then
           (case msg_new_config msg of
              None \<Rightarrow> None
            | Some c \<Rightarrow>
                (let new_config = c \<lparr> opid_index := Some (op_index (msg_id msg)) \<rparr>;
                     committed_config_opid_index =
                       (case opid_index (committed_config s) of Some i \<Rightarrow> i | None \<Rightarrow> 0)
                 in if \<not> unsafe_config_change new_config
                       \<and> CheckNoConfigChangePendingUnlocked s \<noteq> OK
                    then Some (CheckNoConfigChangePendingUnlocked s, s)
                    else if op_index (msg_id msg) > committed_config_opid_index then
                      (case SetPendingConfigUnlocked VerifyRaftConfig new_config s of
                         None \<Rightarrow> None
                       | Some (st1, s1) \<Rightarrow>
                           if st1 \<noteq> OK then Some (st1, s1)
                           else if active_role s1 = LEADER then
                             (let (st2, s2) = RefreshConsensusQueueAndPeersUnlocked s1
                              in if st2 \<noteq> OK then Some (st2, s2) else admit s2)
                           else admit s1)
                    else admit s))
         else admit s)"

text \<open>
  \<^verbatim>\<open>AppendNewRoundToQueueUnlocked\<close>: a round that comes with an index must come with
  the next index of the queue; a round without one gets the next OpId. The round is added
  to the pending rounds and appended to the queue.
\<close>

definition AppendNewRoundToQueueUnlocked ::
  "(RaftConfigPB \<Rightarrow> Status) \<Rightarrow> ReplicateMsg \<Rightarrow> RaftConsensus
     \<Rightarrow> (Status \<times> RaftConsensus) option" where
  "AppendNewRoundToQueueUnlocked VerifyRaftConfig msg s =
     (if op_index (msg_id msg) \<noteq> 0 \<and> op_index (msg_id msg) \<noteq> op_index (GetNextOpId s)
      then Some (Aborted, s)
      else
        (let msg1 = (if op_index (msg_id msg) \<noteq> 0 then msg
                     else msg \<lparr> msg_id := GetNextOpId s \<rparr>)
         in case AddPendingOperationUnlocked VerifyRaftConfig msg1 s of
              None \<Rightarrow> None
            | Some (st, s1) \<Rightarrow>
                if st \<noteq> OK then Some (st, s1)
                else Some (OK, s1 \<lparr> queue_last_appended := msg_id msg1 \<rparr>)))"

definition CreateReplicateMsgFromConfigsUnlocked ::
  "RaftConfigPB \<Rightarrow> RaftConfigPB \<Rightarrow> Status \<times> ReplicateMsg" where
  "CreateReplicateMsgFromConfigsUnlocked old_config new_config =
     (OK, \<lparr> msg_id = MinimumOpId, msg_op_type = CHANGE_CONFIG_OP,
            msg_old_config = Some old_config, msg_new_config = Some new_config \<rparr>)"

definition ReplicateConfigChangeUnlocked ::
  "(RaftConfigPB \<Rightarrow> Status) \<Rightarrow> RaftConfigPB \<Rightarrow> RaftConfigPB \<Rightarrow> RaftConsensus
     \<Rightarrow> (Status \<times> RaftConsensus) option" where
  "ReplicateConfigChangeUnlocked VerifyRaftConfig old_config new_config s =
     (let (st, cc_replicate) = CreateReplicateMsgFromConfigsUnlocked old_config new_config
      in if st \<noteq> OK then Some (st, s)
         else AppendNewRoundToQueueUnlocked VerifyRaftConfig cc_replicate s)"

datatype ServerErrorCode = CAS_FAILED | INVALID_CONFIG | NOT_THE_LEADER

text \<open>
  \<^verbatim>\<open>BulkChangeConfigRequestPB\<close>: the optional \<^verbatim>\<open>cas_config_opid_index\<close> and the list
  of changes, whose items are of the type \<open>'item\<close>.
\<close>

record 'item BulkChangeConfigRequestPB =
  cas_config_opid_index :: "int option"
  config_changes :: "'item list"

text \<open>A default-constructed \<^verbatim>\<open>RaftConfigPB\<close>: no peers, no field set.\<close>

definition default_RaftConfigPB :: RaftConfigPB where
  "default_RaftConfigPB = \<lparr> peers = [], opid_index = None, unsafe_config_change = False \<rparr>"

text \<open>
  \<^verbatim>\<open>CheckBulkConfigChangeAndGetNewConfigUnlocked(req, error_code, new_config)\<close>. The
  result is the returned status and the values of the two out-parameters at the return;
  the state is only read. The four checks at the head and the compare-and-swap check are
  as in the source. The loop over the items of the request with the checks that follow
  it, which builds the new configuration from the committed one, is the parameter
  \<open>apply_config_changes\<close>: it is given the items, the error code and the committed
  configuration, and returns the status and the values of the out-parameters.
\<close>

definition CheckBulkConfigChangeAndGetNewConfigUnlocked ::
  "('item list \<Rightarrow> ServerErrorCode option \<Rightarrow> RaftConfigPB \<Rightarrow> RaftConsensus
       \<Rightarrow> Status \<times> ServerErrorCode option \<times> RaftConfigPB)
     \<Rightarrow> 'item BulkChangeConfigRequestPB \<Rightarrow> ServerErrorCode option \<Rightarrow> RaftConfigPB
     \<Rightarrow> RaftConsensus \<Rightarrow> Status \<times> ServerErrorCode option \<times> RaftConfigPB" where
  "CheckBulkConfigChangeAndGetNewConfigUnlocked apply_config_changes req error_code new_config s =
     (if CheckRunningUnlocked s \<noteq> OK then (CheckRunningUnlocked s, error_code, new_config)
      else if CheckActiveLeaderUnlocked s \<noteq> OK
      then (CheckActiveLeaderUnlocked s, error_code, new_config)
      else if CheckNoConfigChangePendingUnlocked s \<noteq> OK
      then (CheckNoConfigChangePendingUnlocked s, error_code, new_config)
      else if \<not> IsCommittedIndexInCurrentTerm s then (IllegalState, error_code, new_config)
      else
        (case cas_config_opid_index req of
           Some cas \<Rightarrow>
             if (case opid_index (committed_config s) of Some i \<Rightarrow> i | None \<Rightarrow> 0) \<noteq> cas
             then (IllegalState, Some CAS_FAILED, new_config)
             else apply_config_changes (config_changes req) error_code (committed_config s) s
         | None \<Rightarrow>
             apply_config_changes (config_changes req) error_code (committed_config s) s))"

text \<open>
  \<^verbatim>\<open>BulkChangeConfig\<close>. The call of the check is a statement of its own in the source:
  the status it returns is not looked at, and the new configuration is whatever the
  check left in the local \<^verbatim>\<open>new_config\<close>. \<^verbatim>\<open>ChangeConfig\<close> wraps its request in a
  bulk request and calls this function.
\<close>

definition BulkChangeConfig ::
  "(RaftConfigPB \<Rightarrow> Status)
     \<Rightarrow> ('item list \<Rightarrow> ServerErrorCode option \<Rightarrow> RaftConfigPB \<Rightarrow> RaftConsensus
           \<Rightarrow> Status \<times> ServerErrorCode option \<times> RaftConfigPB)
     \<Rightarrow> 'item BulkChangeConfigRequestPB \<Rightarrow> ServerErrorCode option \<Rightarrow> RaftConsensus
     \<Rightarrow> (Status \<times> ServerErrorCode option \<times> RaftConsensus) option" where
  "BulkChangeConfig VerifyRaftConfig apply_config_changes req error_code s =
     (let (ignored, error_code1, new_config) =
            CheckBulkConfigChangeAndGetNewConfigUnlocked apply_config_changes req error_code
              default_RaftConfigPB s;
          committed = committed_config s
      in case ReplicateConfigChangeUnlocked VerifyRaftConfig committed new_config s of
           None \<Rightarrow> None
         | Some (st, s1) \<Rightarrow> Some (st, error_code1, s1))"

text \<open>
  \<^verbatim>\<open>CheckAndPopulateChangeConfigMessage\<close>, the sibling of \<^verbatim>\<open>BulkChangeConfig\<close> that
  only builds the message: here the status of the check is returned when it is not OK.
\<close>

definition CheckAndPopulateChangeConfigMessage ::
  "('item list \<Rightarrow> ServerErrorCode option \<Rightarrow> RaftConfigPB \<Rightarrow> RaftConsensus
       \<Rightarrow> Status \<times> ServerErrorCode option \<times> RaftConfigPB)
     \<Rightarrow> 'item BulkChangeConfigRequestPB \<Rightarrow> ServerErrorCode option \<Rightarrow> RaftConsensus
     \<Rightarrow> Status \<times> ServerErrorCode option \<times> ReplicateMsg option" where
  "CheckAndPopulateChangeConfigMessage apply_config_changes req error_code s =
     (let (st, error_code1, new_config) =
            CheckBulkConfigChangeAndGetNewConfigUnlocked apply_config_changes req error_code
              default_RaftConfigPB s
      in if st \<noteq> OK then (st, error_code1, None)
         else
           (let (st2, msg) = CreateReplicateMsgFromConfigsUnlocked (committed_config s) new_config
            in if st2 \<noteq> OK then (st2, error_code1, None) else (OK, error_code1, Some msg)))"

subsection \<open>Elections\<close>

datatype ElectionMode = NORMAL_ELECTION | PRE_ELECTION | ELECT_EVEN_IF_LEADER_IS_ALIVE

text \<open>
  \<^verbatim>\<open>ElectionResult\<close> and the state of a \<^verbatim>\<open>LeaderElection\<close>:
  \<open>election_request\<close> is \<^verbatim>\<open>request_\<close>, \<open>election_result\<close> is the write-once
  \<^verbatim>\<open>result_\<close>, \<open>election_highest_voter_term\<close> is \<^verbatim>\<open>highest_voter_term_\<close>. The
  vote counter of an election is held as the classic one. The flexible counter registers
  a vote with the same base function before it counts it for the region of its voter, and
  has an \<^verbatim>\<open>IsDecided\<close> and a \<^verbatim>\<open>GetDecision\<close> of its own: they are in the section on
  the flexible counter.
\<close>

record ElectionResult =
  vote_request :: VoteRequestPB
  decision :: ElectionVote
  highest_voter_term :: int
  result_is_candidate_removed :: bool

record LeaderElection =
  election_request :: VoteRequestPB
  vote_counter :: VoteCounter
  election_result :: "ElectionResult option"
  has_responded :: bool
  election_highest_voter_term :: int

text \<open>
  What \<^verbatim>\<open>StartElection\<close> reads from outside the replica state: the flag
  \<^verbatim>\<open>FLAGS_enable_flexi_raft\<close>, whether the commit rule of the active configuration
  uses quorum ids, whether the region of this peer is in its voter distribution, and,
  for the flexible counter, whose topology is computed by functions of quorum\_util that
  are defined outside the files at hand, the outcome of building it and registering the
  vote of the candidate for itself: the status, the duplicate flag and the base counter,
  or \<open>None\<close> when a \<^verbatim>\<open>CHECK\<close> of its constructor fails.
\<close>

record ElectionEnv =
  election_enable_flexi_raft :: bool
  use_quorum_id :: bool
  region_in_voter_distribution :: bool
  flexible_self_vote :: "(Status \<times> bool \<times> VoteCounter) option"

text \<open>
  \<^verbatim>\<open>BecomeLeaderUnlocked\<close>: voting is withheld, a leader transfer period ends, the
  replica observes the queue, queue and peers are refreshed, and unless no-ops are
  disabled a NO\_OP round is appended.
\<close>

definition BecomeLeaderUnlocked ::
  "(RaftConfigPB \<Rightarrow> Status) \<Rightarrow> RaftConsensus \<Rightarrow> (Status \<times> RaftConsensus) option" where
  "BecomeLeaderUnlocked VerifyRaftConfig s =
     (let s1 = s \<lparr> withhold_votes_until := MonoTime_Max,
                    leader_transfer_in_progress := False,
                    queue_observer_registered := True \<rparr>;
          (st, s2) = RefreshConsensusQueueAndPeersUnlocked s1
      in if st \<noteq> OK then Some (st, s2)
         else if disable_noop s2 then Some (OK, s2)
         else AppendNewRoundToQueueUnlocked VerifyRaftConfig
                \<lparr> msg_id = MinimumOpId, msg_op_type = NO_OP,
                  msg_old_config = None, msg_new_config = None \<rparr> s2)"

text \<open>
  \<^verbatim>\<open>StartElection(mode, context)\<close>, up to the call of \<^verbatim>\<open>election->Run()\<close>. The
  result is the status, the state and the election that was created, if one was; \<open>None\<close>
  is a failed \<^verbatim>\<open>CHECK\<close>. \<^verbatim>\<open>MajoritySize\<close> is a parameter. The two additions to
  the term are \<^verbatim>\<open>int64_t\<close> additions.
\<close>

definition StartElection ::
  "(int \<Rightarrow> int) \<Rightarrow> ElectionEnv \<Rightarrow> ElectionMode \<Rightarrow> RaftConsensus
     \<Rightarrow> (Status \<times> RaftConsensus \<times> LeaderElection option) option" where
  "StartElection MajoritySize env election_mode s =
     (if CheckRunningUnlocked s \<noteq> OK then Some (CheckRunningUnlocked s, s, None)
      else if \<not> start_election_allowed s then Some (OK, s, None)
      else if active_role s = LEADER then Some (OK, s, None)
      else if \<not> IsVoterRole (active_role s) then Some (IllegalState, s, None)
      else if election_enable_flexi_raft env \<and> \<not> use_quorum_id env
              \<and> \<not> region_in_voter_distribution env
      then Some (IllegalState, s, None)
      else
        (let (st, s1) =
               (if election_mode \<noteq> PRE_ELECTION then
                  (let (st_a, s_a) =
                         HandleTermAdvanceUnlocked (int64 (current_term s + 1))
                           SKIP_FLUSH_TO_DISK s
                   in if st_a \<noteq> OK then (st_a, s_a)
                      else SetVotedForCurrentTermUnlocked (peer_uuid s_a) s_a)
                else (OK, s))
         in if st \<noteq> OK then Some (st, s1, None)
            else
              (let active_config = ActiveConfig s1;
                   election_term = (if election_mode = PRE_ELECTION
                                    then int64 (current_term s1 + 1)
                                    else current_term s1);
                   vote_info = \<lparr> vote = VOTE_GRANTED, is_candidate_removed = False,
                                 last_pruned_term = 0 \<rparr>;
                   self_vote =
                     (if \<not> election_enable_flexi_raft env then
                        map_option (RegisterVote (peer_uuid s1) vote_info False)
                          (VoteCounter_new (CountVoters active_config)
                             (MajoritySize (CountVoters active_config)))
                      else flexible_self_vote env)
               in case self_vote of
                    None \<Rightarrow> None
                  | Some (st_r, duplicate, counter) \<Rightarrow>
                      if st_r \<noteq> OK then Some (st_r, s1, None)
                      else if duplicate then None
                      else
                        Some (OK, s1,
                          Some \<lparr> election_request =
                                   \<lparr> candidate_uuid = peer_uuid s1,
                                     candidate_term = election_term,
                                     is_pre_election = (election_mode = PRE_ELECTION),
                                     ignore_live_leader =
                                       (election_mode = ELECT_EVEN_IF_LEADER_IS_ALIVE),
                                     candidate_last_received = queue_last_appended s1 \<rparr>,
                                 vote_counter = counter,
                                 election_result = None,
                                 has_responded = False,
                                 election_highest_voter_term = 0 \<rparr>))))"

text \<open>
  \<^verbatim>\<open>DoElectionCallback(context, result)\<close>. The result is the state and the election
  started by a won pre-election, if one was; \<open>None\<close> is a failed \<^verbatim>\<open>CHECK_OK\<close>. The
  status of \<^verbatim>\<open>HandleTermAdvanceUnlocked\<close> and of \<^verbatim>\<open>StartElection\<close> is not looked at
  by the source (the latter is logged).
\<close>

definition DoElectionCallback ::
  "(int \<Rightarrow> int) \<Rightarrow> (RaftConfigPB \<Rightarrow> Status) \<Rightarrow> ElectionEnv \<Rightarrow> ElectionResult \<Rightarrow> RaftConsensus
     \<Rightarrow> (RaftConsensus \<times> LeaderElection option) option" where
  "DoElectionCallback MajoritySize VerifyRaftConfig env result s =
     (let election_term = candidate_term (vote_request result);
          was_pre_election = is_pre_election (vote_request result)
      in if CheckRunningUnlocked s \<noteq> OK then Some (s, None)
         else
           (let s1 = (if decision result = VOTE_DENIED \<and> result_is_candidate_removed result
                      then s \<lparr> failed_elections_candidate_not_in_config :=
                                  int64 (failed_elections_candidate_not_in_config s + 1) \<rparr>
                      else s)
            in if decision result = VOTE_DENIED then
                 (let s2 = s1 \<lparr> failed_elections_since_stable_leader :=
                                   int64 (failed_elections_since_stable_leader s1 + 1) \<rparr>
                  in if highest_voter_term result > current_term s2
                     then Some (snd (HandleTermAdvanceUnlocked (highest_voter_term result)
                                       FLUSH_TO_DISK s2), None)
                     else Some (s2, None))
               else
                 (let election_started_in_term =
                        (if was_pre_election then int64 (election_term - 1) else election_term)
                  in if election_started_in_term \<noteq> current_term s1 then Some (s1, None)
                     else if \<not> IsRaftConfigVoter (peer_uuid s1) (ActiveConfig s1)
                     then Some (s1, None)
                     else if active_role s1 = LEADER then Some (s1, None)
                     else if was_pre_election then
                       (case StartElection MajoritySize env NORMAL_ELECTION s1 of
                          None \<Rightarrow> None
                        | Some (st, s2, el) \<Rightarrow> Some (s2, el))
                     else
                       (let (st1, s2) = SetLeaderUuidUnlocked (peer_uuid s1) s1
                        in if st1 \<noteq> OK then None
                           else
                             (case BecomeLeaderUnlocked VerifyRaftConfig s2 of
                                None \<Rightarrow> None
                              | Some (st2, s3) \<Rightarrow>
                                  if st2 \<noteq> OK then None else Some (s3, None))))))"

subsection \<open>LeaderElection (leader\_election.cc)\<close>


definition election_term :: "LeaderElection \<Rightarrow> int" where
  "election_term el = candidate_term (election_request el)"







text \<open>
  An election of \<open>a\<close> for term 6 among the three voters, with the vote of \<open>a\<close> for
  itself registered; a denial by \<open>b\<close>, whose term is 7; and the same response arriving
  from a peer whose UUID is not the expected one.
\<close>

definition example_election :: LeaderElection where
  "example_election =
     \<lparr> election_request =
         \<lparr> candidate_uuid = ''a'', candidate_term = 6, is_pre_election = False,
           ignore_live_leader = False,
           candidate_last_received = \<lparr> op_term = 4, op_index = 10 \<rparr> \<rparr>,
       vote_counter =
         \<lparr> num_voters = 3, counter_candidate_removed = False, majority_size = 2,
           votes = [''a'' \<mapsto> \<lparr> vote = VOTE_GRANTED, is_candidate_removed = False,
                                 last_pruned_term = 0 \<rparr>],
           yes_votes = 1, no_votes = 0 \<rparr>,
       election_result = None, has_responded = False, election_highest_voter_term = 0 \<rparr>"



text \<open>
  Values for the parameters in examples: the majority of \<open>n\<close> voters, a configuration
  check that refuses a configuration without peers with IllegalState and accepts every
  other one, and an election environment without flexible quorums.
\<close>

definition majority_of :: "int \<Rightarrow> int" where
  "majority_of n = n div 2 + 1"

definition refuse_peerless_config :: "RaftConfigPB \<Rightarrow> Status" where
  "refuse_peerless_config c = (if peers c = [] then IllegalState else OK)"

definition example_election_env :: ElectionEnv where
  "example_election_env =
     \<lparr> election_enable_flexi_raft = False, use_quorum_id = False,
       region_in_voter_distribution = False, flexible_self_vote = None \<rparr>"


subsection \<open>Follower update path\<close>

text \<open>
  \<^verbatim>\<open>ConsensusRequestPB\<close> and \<^verbatim>\<open>ConsensusResponsePB\<close> with the fields the update path
  reads and writes before it enqueues operations, and the deduplicated
  \<^verbatim>\<open>LeaderRequest\<close>. The fields of the response are \<open>None\<close> while not set.
\<close>

record ConsensusRequestPB =
  caller_uuid :: string
  caller_term :: int
  preceding_id :: OpId
  ops :: "ReplicateMsg list"
  committed_index :: int
  has_deprecated_committed_index :: bool
  has_all_replicated_index :: bool

record ConsensusResponsePB =
  update_responder_term :: "int option"
  status_error_code :: "ConsensusErrorCode option"
  status_error_status :: "Status option"
  status_last_received :: "OpId option"
  status_last_received_current_leader :: "OpId option"
  status_last_committed_idx :: "int option"

record LeaderRequest =
  request_leader_uuid :: string
  preceding_opid :: OpId
  messages :: "ReplicateMsg list"
  first_message_idx :: int

text \<open>
  Modelled from the spec: \<^verbatim>\<open>PendingRounds\<close> is defined outside the files at hand. The
  pending rounds are held in index order. The committed index is the index of the last
  committed operation; the last pending id is that of the last pending round, and the
  genesis id (0, 0) when nothing is pending. An operation is committed or pending when
  its index is not above the committed index or a pending round has its index and term; a
  pending round with its index and another term is a term mismatch.
  \<open>abort_after(idx)\<close> removes every pending round with an index above \<open>idx\<close>.
  \<open>advance_committed_to(idx)\<close> is idempotent and monotone: it does nothing when
  \<open>idx\<close> is not above the committed index; otherwise each pending round with index
  \<open>\<le> idx\<close>, in index order, is committed and removed, and the last one of them is
  the last committed operation.
\<close>

definition GetCommittedIndex :: "PendingRounds \<Rightarrow> int" where
  "GetCommittedIndex p = op_index (last_committed_op_id p)"

definition GetPendingOpByIndexOrNull :: "int \<Rightarrow> PendingRounds \<Rightarrow> OpId option" where
  "GetPendingOpByIndexOrNull idx p = find (\<lambda>r. op_index r = idx) (pending_txns p)"

definition GetLastPendingTransactionOpId :: "PendingRounds \<Rightarrow> OpId" where
  "GetLastPendingTransactionOpId p =
     (if pending_txns p = [] then MinimumOpId else last (pending_txns p))"

definition IsOpCommittedOrPending :: "OpId \<Rightarrow> PendingRounds \<Rightarrow> bool \<times> bool" where
  "IsOpCommittedOrPending op_id p =
     (if op_index op_id \<le> GetCommittedIndex p then (True, False)
      else
        (case GetPendingOpByIndexOrNull (op_index op_id) p of
           None \<Rightarrow> (False, False)
         | Some r \<Rightarrow> if op_term r \<noteq> op_term op_id then (False, True) else (True, False)))"

definition CheckOpInSequence :: "OpId \<Rightarrow> OpId \<Rightarrow> Status" where
  "CheckOpInSequence previous current =
     (if OpIdLessThan previous current \<and> op_index current = op_index previous + 1
      then OK else Corruption)"

definition AbortOpsAfter :: "int \<Rightarrow> PendingRounds \<Rightarrow> PendingRounds" where
  "AbortOpsAfter idx p = p \<lparr> pending_txns := filter (\<lambda>r. op_index r \<le> idx) (pending_txns p) \<rparr>"

fun AdvanceCommittedIndex_rounds :: "int \<Rightarrow> OpId \<Rightarrow> OpId list \<Rightarrow> OpId \<times> OpId list" where
  "AdvanceCommittedIndex_rounds idx committed [] = (committed, [])"
| "AdvanceCommittedIndex_rounds idx committed (r # rest) =
     (if op_index r \<le> idx then AdvanceCommittedIndex_rounds idx r rest
      else (committed, r # rest))"

definition AdvanceCommittedIndex :: "int \<Rightarrow> PendingRounds \<Rightarrow> Status \<times> PendingRounds" where
  "AdvanceCommittedIndex idx p =
     (if idx \<le> GetCommittedIndex p then (OK, p)
      else
        (let (committed, rest) =
               AdvanceCommittedIndex_rounds idx (last_committed_op_id p) (pending_txns p)
         in (OK, \<lparr> last_committed_op_id = committed, pending_txns = rest \<rparr>)))"

text \<open>
  \<^verbatim>\<open>TruncateAndAbortOpsAfterUnlocked\<close>: the pending rounds after the index are aborted
  and the queue is truncated after it. Modelled from the spec: after the truncation the
  last appended operation of the queue is the one with this index, which is the last
  operation still pending or committed.
\<close>

definition TruncateAndAbortOpsAfterUnlocked :: "int \<Rightarrow> RaftConsensus \<Rightarrow> RaftConsensus" where
  "TruncateAndAbortOpsAfterUnlocked truncate_after_index s =
     (let p = AbortOpsAfter truncate_after_index (pending s)
      in s \<lparr> pending := p, queue_last_appended := GetLastAdmittedOpId p \<rparr>)"

definition FillConsensusResponseError ::
  "ConsensusErrorCode \<Rightarrow> Status \<Rightarrow> ConsensusResponsePB \<Rightarrow> ConsensusResponsePB" where
  "FillConsensusResponseError error_code st response =
     response \<lparr> status_error_code := Some error_code, status_error_status := Some st \<rparr>"

text \<open>
  \<^verbatim>\<open>FillConsensusResponseOKUnlocked\<close>: the current term, the last OpId in the log, the
  last OpId received from the current leader and the committed index of the queue.
\<close>

definition FillConsensusResponseOKUnlocked ::
  "ConsensusResponsePB \<Rightarrow> RaftConsensus \<Rightarrow> ConsensusResponsePB" where
  "FillConsensusResponseOKUnlocked response s =
     response \<lparr> update_responder_term := Some (current_term s),
                status_last_received := Some (queue_last_appended s),
                status_last_received_current_leader := Some (last_received_cur_leader s),
                status_last_committed_idx := Some (queue_committed_index s) \<rparr>"

text \<open>
  \<^verbatim>\<open>DeduplicateLeaderRequestUnlocked\<close>. The loop carries the position \<open>i\<close>,
  \<^verbatim>\<open>dedup_up_to_index\<close> and the deduplicated request. An operation below the match
  index that is not in the pending set makes the source dereference a null round:
  that is \<open>None\<close>.
\<close>

fun DeduplicateLeaderRequest_loop ::
  "int \<Rightarrow> PendingRounds \<Rightarrow> ReplicateMsg list \<Rightarrow> int \<Rightarrow> int \<Rightarrow> LeaderRequest
     \<Rightarrow> LeaderRequest option" where
  "DeduplicateLeaderRequest_loop last_committed_index p [] i dedup_up_to_index d = Some d"
| "DeduplicateLeaderRequest_loop last_committed_index p (leader_msg # rest) i dedup_up_to_index d =
     (let keep = (\<lambda>dedup.
            DeduplicateLeaderRequest_loop last_committed_index p rest (i + 1) dedup
              (d \<lparr> first_message_idx := (if first_message_idx d = - 1 then i
                                          else first_message_idx d),
                    messages := messages d @ [leader_msg] \<rparr>));
          skip = DeduplicateLeaderRequest_loop last_committed_index p rest (i + 1)
                   dedup_up_to_index (d \<lparr> preceding_opid := msg_id leader_msg \<rparr>)
      in if op_index (msg_id leader_msg) \<le> last_committed_index then skip
         else if op_index (msg_id leader_msg) \<le> dedup_up_to_index then
           (case GetPendingOpByIndexOrNull (op_index (msg_id leader_msg)) p of
              None \<Rightarrow> None
            | Some round_id \<Rightarrow>
                if OpIdEquals round_id (msg_id leader_msg) then skip
                else keep (op_index (msg_id leader_msg)))
         else keep dedup_up_to_index)"

definition DeduplicateLeaderRequestUnlocked ::
  "ConsensusRequestPB \<Rightarrow> LeaderRequest \<Rightarrow> RaftConsensus \<Rightarrow> LeaderRequest option" where
  "DeduplicateLeaderRequestUnlocked rpc_req deduplicated_req s =
     DeduplicateLeaderRequest_loop (GetCommittedIndex (pending s)) (pending s) (ops rpc_req) 0
       (op_index (queue_last_appended s))
       (deduplicated_req \<lparr> preceding_opid := preceding_id rpc_req,
                            first_message_idx := - 1 \<rparr>)"

text \<open>
  \<^verbatim>\<open>HandleLeaderRequestTermUnlocked\<close>: a request of an earlier term gets the error
  INVALID\_TERM in the response, and the call returns OK; a request of a later term
  advances the term.
\<close>

definition HandleLeaderRequestTermUnlocked ::
  "ConsensusRequestPB \<Rightarrow> ConsensusResponsePB \<Rightarrow> RaftConsensus
     \<Rightarrow> Status \<times> ConsensusResponsePB \<times> RaftConsensus" where
  "HandleLeaderRequestTermUnlocked request response s =
     (if caller_term request \<noteq> current_term s then
        (if caller_term request < current_term s
         then (OK, FillConsensusResponseError INVALID_TERM IllegalState response, s)
         else
           (let (st, s1) = HandleTermAdvanceUnlocked (caller_term request) FLUSH_TO_DISK s
            in if st \<noteq> OK then (st, response, s1) else (OK, response, s1)))
      else (OK, response, s))"

definition EnforceLogMatchingPropertyMatchesUnlocked ::
  "LeaderRequest \<Rightarrow> ConsensusResponsePB \<Rightarrow> RaftConsensus
     \<Rightarrow> Status \<times> ConsensusResponsePB \<times> RaftConsensus" where
  "EnforceLogMatchingPropertyMatchesUnlocked req response s =
     (let (ok, term_mismatch) = IsOpCommittedOrPending (preceding_opid req) (pending s)
      in if ok then (OK, response, s)
         else
           (OK, FillConsensusResponseError PRECEDING_ENTRY_DIDNT_MATCH IllegalState response,
            if term_mismatch
            then TruncateAndAbortOpsAfterUnlocked (op_index (preceding_opid req) - 1) s
            else s))"

text \<open>
  The check of \<^verbatim>\<open>CheckLeaderRequestUnlocked\<close> that the deduplicated operations are in
  sequence: the status of the first operation out of sequence.
\<close>

fun CheckLeaderRequest_sequence :: "OpId \<Rightarrow> ReplicateMsg list \<Rightarrow> Status" where
  "CheckLeaderRequest_sequence prev [] = OK"
| "CheckLeaderRequest_sequence prev (message # rest) =
     (if CheckOpInSequence prev (msg_id message) \<noteq> OK
      then CheckOpInSequence prev (msg_id message)
      else CheckLeaderRequest_sequence (msg_id message) rest)"

text \<open>
  \<^verbatim>\<open>CheckLeaderRequestUnlocked\<close>. The result is the status, the response, the
  deduplicated request and the state; \<open>None\<close> is a failed \<^verbatim>\<open>CHECK\<close>, the fatal log
  on a second leader in the term, or the null round of the deduplication.
\<close>

definition CheckLeaderRequestUnlocked ::
  "ConsensusRequestPB \<Rightarrow> ConsensusResponsePB \<Rightarrow> LeaderRequest \<Rightarrow> RaftConsensus
     \<Rightarrow> (Status \<times> ConsensusResponsePB \<times> LeaderRequest \<times> RaftConsensus) option" where
  "CheckLeaderRequestUnlocked request response deduped_req0 s =
     (if has_deprecated_committed_index request \<or> \<not> has_all_replicated_index request
      then Some (InvalidArgument, response, deduped_req0, s)
      else
        (case DeduplicateLeaderRequestUnlocked request deduped_req0 s of
           None \<Rightarrow> None
         | Some deduped_req \<Rightarrow>
             (let seq = CheckLeaderRequest_sequence (preceding_opid deduped_req)
                          (messages deduped_req)
              in if seq \<noteq> OK then Some (seq, response, deduped_req, s)
                 else
                   (let (st1, response1, s1) = HandleLeaderRequestTermUnlocked request response s
                    in if st1 \<noteq> OK then Some (st1, response1, deduped_req, s1)
                       else if status_error_code response1 \<noteq> None
                       then Some (OK, response1, deduped_req, s1)
                       else
                         (let (st2, response2, s2) =
                                EnforceLogMatchingPropertyMatchesUnlocked deduped_req response1 s1
                          in if st2 \<noteq> OK then Some (st2, response2, deduped_req, s2)
                             else if status_error_code response2 \<noteq> None
                             then Some (OK, response2, deduped_req, s2)
                             else
                               (let first_check =
                                      (case messages deduped_req of
                                         [] \<Rightarrow> Some s2
                                       | m # _ \<Rightarrow>
                                           (let (ok, term_mismatch) =
                                                  IsOpCommittedOrPending (msg_id m) (pending s2)
                                            in if ok then None
                                               else if term_mismatch
                                               then Some (TruncateAndAbortOpsAfterUnlocked
                                                            (op_index (preceding_opid deduped_req)) s2)
                                               else Some s2))
                                in case first_check of
                                     None \<Rightarrow> None
                                   | Some s3 \<Rightarrow>
                                       if leader_uuid s3 \<noteq> []
                                          \<and> leader_uuid s3 \<noteq> caller_uuid request
                                       then None
                                       else if leader_uuid s3 = [] then
                                         (let (st4, s4) =
                                                SetLeaderUuidUnlocked (caller_uuid request) s3
                                          in if st4 \<noteq> OK
                                             then Some (st4, response2, deduped_req, s4)
                                             else Some (OK, response2, deduped_req, s4))
                                       else Some (OK, response2, deduped_req, s3)))))))"

text \<open>
  Step 1 of \<^verbatim>\<open>UpdateReplica\<close>, the early commit: the target index is the minimum of
  the index of the last pending operation, the index of the preceding OpId of the
  deduplicated request and the committed index of the leader, and the committed index of
  the pending rounds is advanced to it.
\<close>

definition early_apply_up_to :: "LeaderRequest \<Rightarrow> ConsensusRequestPB \<Rightarrow> RaftConsensus \<Rightarrow> int" where
  "early_apply_up_to deduped_req request s =
     min (op_index (GetLastPendingTransactionOpId (pending s)))
         (min (op_index (preceding_opid deduped_req)) (committed_index request))"

definition UpdateReplica_early_commit ::
  "LeaderRequest \<Rightarrow> ConsensusRequestPB \<Rightarrow> RaftConsensus \<Rightarrow> RaftConsensus option" where
  "UpdateReplica_early_commit deduped_req request s =
     (let (st, p) = AdvanceCommittedIndex (early_apply_up_to deduped_req request s) (pending s)
      in if st \<noteq> OK then None else Some (s \<lparr> pending := p \<rparr>))"

text \<open>
  \<^verbatim>\<open>UpdateReplica\<close> under the replica lock, up to and including the early commit.
  The call either returns before it (\<open>Returned\<close>: status, response, state) or has done
  the early commit and goes on to prepare and enqueue the operations of the deduplicated
  request (\<open>EarlyCommitted\<close>: response, deduplicated request, state); the steps after
  the early commit are not part of this model. \<open>withhold_until\<close> is the clock plus the
  minimum election timeout. \<open>None\<close> is the abort of the process.
\<close>

datatype UpdateProgress =
    Returned Status ConsensusResponsePB RaftConsensus
  | EarlyCommitted ConsensusResponsePB LeaderRequest RaftConsensus

definition UpdateReplica ::
  "MonoTime \<Rightarrow> ConsensusRequestPB \<Rightarrow> ConsensusResponsePB \<Rightarrow> RaftConsensus
     \<Rightarrow> UpdateProgress option" where
  "UpdateReplica withhold_until request response s =
     (if CheckRunningUnlocked s \<noteq> OK then Some (Returned (CheckRunningUnlocked s) response s)
      else
        (case CheckLeaderRequestUnlocked request response
                \<lparr> request_leader_uuid = caller_uuid request, preceding_opid = MinimumOpId,
                  messages = [], first_message_idx = - 1 \<rparr> s of
           None \<Rightarrow> None
         | Some (st, response1, deduped_req, s1) \<Rightarrow>
             if st \<noteq> OK then Some (Returned st response1 s1)
             else if status_error_code response1 \<noteq> None
             then Some (Returned OK (FillConsensusResponseOKUnlocked response1 s1) s1)
             else
               (let s2 = s1 \<lparr> failed_elections_since_stable_leader := 0,
                              failed_elections_candidate_not_in_config := 0,
                              withhold_votes_until := withhold_until \<rparr>
                in case UpdateReplica_early_commit deduped_req request s2 of
                     None \<Rightarrow> None
                   | Some s3 \<Rightarrow> Some (EarlyCommitted response1 deduped_req s3))))"

text \<open>
  A request reaches the term check of \<^verbatim>\<open>CheckLeaderRequestUnlocked\<close> when the
  replica is running, the request passes the version check, and its deduplicated
  operations are in sequence.
\<close>

definition reaches_term_check :: "ConsensusRequestPB \<Rightarrow> RaftConsensus \<Rightarrow> bool" where
  "reaches_term_check request s \<longleftrightarrow>
     state s = kRunning
     \<and> \<not> has_deprecated_committed_index request \<and> has_all_replicated_index request
     \<and> (case DeduplicateLeaderRequestUnlocked request
                \<lparr> request_leader_uuid = caller_uuid request, preceding_opid = MinimumOpId,
                  messages = [], first_message_idx = - 1 \<rparr> s of
           None \<Rightarrow> False
         | Some d \<Rightarrow> CheckLeaderRequest_sequence (preceding_opid d) (messages d) = OK)"

text \<open>
  A status-only request of \<open>c\<close> for term 4 with committed index 8, and a response with
  no field set.
\<close>

definition example_stale_request :: ConsensusRequestPB where
  "example_stale_request =
     \<lparr> caller_uuid = ''c'', caller_term = 4,
       preceding_id = \<lparr> op_term = 4, op_index = 10 \<rparr>, ops = [],
       committed_index = 8, has_deprecated_committed_index = False,
       has_all_replicated_index = True \<rparr>"

definition empty_response :: ConsensusResponsePB where
  "empty_response =
     \<lparr> update_responder_term = None, status_error_code = None, status_error_status = None,
       status_last_received = None, status_last_received_current_leader = None,
       status_last_committed_idx = None \<rparr>"

text \<open>
  The invariant of the pending rounds in the spec: the pending set is a contiguous suffix
  of the log, its indexes are those after the committed index, in order; indexes are not
  negative.
\<close>

fun contiguous_from :: "int \<Rightarrow> OpId list \<Rightarrow> bool" where
  "contiguous_from c [] = True"
| "contiguous_from c (r # rs) = (op_index r = c + 1 \<and> contiguous_from (c + 1) rs)"

definition pending_rounds_ok :: "PendingRounds \<Rightarrow> bool" where
  "pending_rounds_ok p \<longleftrightarrow>
     0 \<le> GetCommittedIndex p \<and> contiguous_from (GetCommittedIndex p) (pending_txns p)"

text \<open>
  The follower with operation (5, 11) pending after the committed (4, 10), and a
  status-only request of its leader \<open>b\<close> that follows (5, 11) and carries committed
  index 8.
\<close>

definition example_follower_pending :: RaftConsensus where
  "example_follower_pending =
     example_follower
       \<lparr> pending := \<lparr> last_committed_op_id = \<lparr> op_term = 4, op_index = 10 \<rparr>,
                      pending_txns = [\<lparr> op_term = 5, op_index = 11 \<rparr>] \<rparr>,
         queue_last_appended := \<lparr> op_term = 5, op_index = 11 \<rparr> \<rparr>"

definition example_heartbeat :: ConsensusRequestPB where
  "example_heartbeat =
     \<lparr> caller_uuid = ''b'', caller_term = 5,
       preceding_id = \<lparr> op_term = 5, op_index = 11 \<rparr>, ops = [],
       committed_index = 8, has_deprecated_committed_index = False,
       has_all_replicated_index = True \<rparr>"

text \<open>
  The state after \<^verbatim>\<open>HandleTermAdvanceUnlocked\<close>, as a name of its own for the proofs.
\<close>

definition advanced :: "int \<Rightarrow> FlushToDisk \<Rightarrow> RaftConsensus \<Rightarrow> RaftConsensus" where
  "advanced nt fl s = snd (HandleTermAdvanceUnlocked nt fl s)"

text \<open>
  A vote environment in which nothing stands in the way of a vote and the metadata has
  no vote history, no pruned term (\<open>- 1\<close>) and no known leader; a pre-election vote
  request of \<open>b\<close> for term 6, a vote response with no field set, and the pre-election
  of \<open>a\<close> for term 6.
\<close>

definition no_previous_votes :: "RaftConsensus \<Rightarrow> PreviousVotePB list" where
  "no_previous_votes s = []"

definition no_pruned_term :: "RaftConsensus \<Rightarrow> int" where
  "no_pruned_term s = - 1"

definition no_known_leader :: "RaftConsensus \<Rightarrow> LastKnownLeaderPB" where
  "no_known_leader s = \<lparr> lkl_uuid = [], lkl_election_term = 0 \<rparr>"

definition example_vote_env :: VoteEnv where
  "example_vote_env =
     \<lparr> FLAGS_enable_leader_failure_detection = True, update_lock_held = False,
       now = MonoTime_At 100, tombstone_last_logged_opid = None,
       FLAGS_raft_enable_tombstoned_voting = False,
       FLAGS_lag_threshold_for_request_vote = - 1, FLAGS_enable_flexi_raft = False,
       srd_same_region = False,
       cmeta_previous_vote_history = no_previous_votes,
       cmeta_last_pruned_term = no_pruned_term,
       cmeta_last_known_leader = no_known_leader \<rparr>"

definition example_pre_vote_request :: VoteRequestPB where
  "example_pre_vote_request =
     \<lparr> candidate_uuid = ''b'', candidate_term = 6, is_pre_election = True,
       ignore_live_leader = False,
       candidate_last_received = \<lparr> op_term = 4, op_index = 10 \<rparr> \<rparr>"

definition empty_vote_response :: VoteResponsePB where
  "empty_vote_response =
     \<lparr> responder_uuid = [], responder_term = 0, vote_granted = False,
       consensus_error_code = None, consensus_error_status = None,
       voter_context_is_candidate_removed = None, response_last_pruned_term = 0,
       response_previous_vote_history = [], response_last_known_leader = None \<rparr>"

definition example_pre_election :: LeaderElection where
  "example_pre_election =
     example_election
       \<lparr> election_request := (election_request example_election) \<lparr> is_pre_election := True \<rparr> \<rparr>"

subsection \<open>The persisted term and vote\<close>

text \<open>
  The part of the consensus metadata that the vote invariant is about: the current term,
  the vote, and the history of what was flushed to disk, newest first.
\<close>

type_synonym cmeta = "int \<times> string option \<times> (int \<times> string option) list"

definition cmeta_of :: "RaftConsensus \<Rightarrow> cmeta" where
  "cmeta_of s = (current_term s, voted_for s, flushed s)"

text \<open>
  A flush history has one vote per term when, of two records of the same term, the older
  one has no vote or has the vote of the newer one.
\<close>

fun one_vote_per_term :: "(int \<times> string option) list \<Rightarrow> bool" where
  "one_vote_per_term [] = True"
| "one_vote_per_term ((t, v) # older) =
     (one_vote_per_term older \<and> (\<forall>(t', v') \<in> set older. t' = t \<longrightarrow> v' = None \<or> v' = v))"

text \<open>
  The metadata agrees with its history: the history has one vote per term, no record is
  of a later term than the current one, and a record of the current term has no vote or
  the current vote.
\<close>

definition cmeta_ok :: "cmeta \<Rightarrow> bool" where
  "cmeta_ok c = (case c of (ct, vf, fl) \<Rightarrow>
     one_vote_per_term fl
     \<and> (\<forall>(t, v) \<in> set fl. t \<le> ct \<and> (t = ct \<longrightarrow> v = None \<or> v = vf)))"

text \<open>
  What the code does to the metadata, as the steps of \<^verbatim>\<open>SetCurrentTermUnlocked\<close>
  (\<open>advance\<close>), \<^verbatim>\<open>SetCurrentTermBootstrap\<close> (\<open>bootstrap\<close>), \<^verbatim>\<open>cmeta_->Flush()\<close>
  (\<open>flush\<close>) and \<^verbatim>\<open>set_voted_for\<close> on a metadata without a vote (\<open>cast\<close>), and
  their sequences.
\<close>

inductive cmeta_step :: "cmeta \<Rightarrow> cmeta \<Rightarrow> bool" where
  same: "cmeta_step c c"
| advance: "ct < nt \<Longrightarrow> cmeta_step (ct, vf, fl) (nt, None, fl)"
| bootstrap: "ct < nt \<Longrightarrow> cmeta_step (ct, vf, fl) (nt, vf, fl)"
| flush: "cmeta_step (ct, vf, fl) (ct, vf, (ct, vf) # fl)"
| cast: "cmeta_step (ct, None, fl) (ct, Some u, fl)"
| seq: "cmeta_step a b \<Longrightarrow> cmeta_step b c \<Longrightarrow> cmeta_step a c"

text \<open>
  The calls that write the term or the vote: \<^verbatim>\<open>RequestVote\<close>, \<^verbatim>\<open>StartElection\<close>,
  \<^verbatim>\<open>DoElectionCallback\<close>, \<^verbatim>\<open>HandleTermAdvanceUnlocked\<close> with any term and flush mode
  (it is called with the term of a leader request, with the current term plus one, and
  with a term given by the caller), \<^verbatim>\<open>SetCurrentTermBootstrap\<close>, and a flush of the
  metadata as it is (the configuration setters flush it after their change). A replica
  runs a sequence of them; a call on which a \<^verbatim>\<open>CHECK\<close> fails ends the run (\<open>None\<close>).
\<close>

datatype Event =
    RequestVote_event VoteEnv VoteRequestPB VoteResponsePB
  | StartElection_event ElectionEnv ElectionMode
  | ElectionCallback_event ElectionEnv ElectionResult
  | TermAdvance_event int FlushToDisk
  | TermBootstrap_event int
  | Flush_event

fun step ::
  "(int \<Rightarrow> int) \<Rightarrow> (RaftConfigPB \<Rightarrow> Status) \<Rightarrow> Event \<Rightarrow> RaftConsensus
     \<Rightarrow> RaftConsensus option" where
  "step M V (RequestVote_event env request response) s =
     Some (snd (snd (RequestVote env request response s)))"
| "step M V (StartElection_event env election_mode) s =
     map_option (\<lambda>(st, s', el). s') (StartElection M env election_mode s)"
| "step M V (ElectionCallback_event env result) s =
     map_option fst (DoElectionCallback M V env result s)"
| "step M V (TermAdvance_event new_term flush) s =
     Some (snd (HandleTermAdvanceUnlocked new_term flush s))"
| "step M V (TermBootstrap_event new_term) s =
     Some (snd (SetCurrentTermBootstrap new_term s))"
| "step M V Flush_event s = Some (Flush s)"

fun run ::
  "(int \<Rightarrow> int) \<Rightarrow> (RaftConfigPB \<Rightarrow> Status) \<Rightarrow> Event list \<Rightarrow> RaftConsensus
     \<Rightarrow> RaftConsensus option" where
  "run M V [] s = Some s"
| "run M V (ev # evs) s = (case step M V ev s of None \<Rightarrow> None | Some s' \<Rightarrow> run M V evs s')"

text \<open>
  The request gets as far as the comparison of the terms in \<^verbatim>\<open>RequestVote\<close>: the
  update lock is free (or not needed), the state allows voting, votes are not withheld,
  no leader is believed alive, and the term of the candidate is not behind.
\<close>

definition reaches_vote_check :: "VoteEnv \<Rightarrow> VoteRequestPB \<Rightarrow> RaftConsensus \<Rightarrow> bool" where
  "reaches_vote_check env request s \<longleftrightarrow>
     (FLAGS_enable_leader_failure_detection env \<and> \<not> ignore_live_leader request
        \<longrightarrow> \<not> update_lock_held env)
     \<and> (case RequestVote_local_last_logged_opid env s of Inl st \<Rightarrow> False | Inr opid \<Rightarrow> True)
     \<and> \<not> withhold_votes s
     \<and> \<not> (\<not> ignore_live_leader request \<and> MonoTime_less (now env) (withhold_votes_until s))
     \<and> \<not> candidate_term request < current_term s"

text \<open>
  A vote request of candidate b for term 6, the same request from a rival c, the
  follower after it granted the first one, the two requests as a run, and the denial the
  rival gets.
\<close>

definition example_vote_request :: VoteRequestPB where
  "example_vote_request = example_pre_vote_request \<lparr> is_pre_election := False \<rparr>"

definition example_rival_request :: VoteRequestPB where
  "example_rival_request = example_vote_request \<lparr> candidate_uuid := ''c'' \<rparr>"

definition example_voted :: RaftConsensus where
  "example_voted =
     example_follower \<lparr> current_term := 6, voted_for := Some ''b'', leader_uuid := [],
                        flushed := [(6, Some ''b''), (5, None)],
                        last_received_cur_leader := MinimumOpId \<rparr>"

definition example_votes :: "Event list" where
  "example_votes =
     [RequestVote_event example_vote_env example_vote_request empty_vote_response,
      RequestVote_event example_vote_env example_rival_request empty_vote_response]"

definition example_rival_denial :: VoteResponsePB where
  "example_rival_denial =
     empty_vote_response
       \<lparr> responder_uuid := ''a'', responder_term := 6, vote_granted := False,
         consensus_error_code := Some ALREADY_VOTED,
         consensus_error_status := Some InvalidArgument,
         voter_context_is_candidate_removed := Some False,
         response_last_pruned_term := - 1,
         response_last_known_leader := Some \<lparr> lkl_uuid = [], lkl_election_term = 0 \<rparr> \<rparr>"

subsection \<open>ChangeConfig and a configuration change on a fresh leader\<close>

text \<open>
  An item of a bulk request, with the two fields the loop of the check reads: the type of
  the change and the peer; and \<^verbatim>\<open>ChangeConfigRequestPB\<close> with the fields that
  \<^verbatim>\<open>GetBulkConfigChangeRequest\<close> copies into a bulk request of one item.
  \<^verbatim>\<open>ChangeConfig\<close> builds that bulk request and calls \<^verbatim>\<open>BulkChangeConfig\<close>.
\<close>

datatype ChangeConfigType = ADD_PEER | REMOVE_PEER | MODIFY_PEER

record ConfigChangeItemPB =
  item_type :: "ChangeConfigType option"
  item_peer :: "RaftPeerPB option"

record ChangeConfigRequestPB =
  req_cas_config_opid_index :: "int option"
  req_type :: "ChangeConfigType option"
  req_server :: "RaftPeerPB option"

definition GetBulkConfigChangeRequest ::
  "ChangeConfigRequestPB \<Rightarrow> ConfigChangeItemPB BulkChangeConfigRequestPB" where
  "GetBulkConfigChangeRequest req =
     \<lparr> cas_config_opid_index = req_cas_config_opid_index req,
       config_changes = [\<lparr> item_type = req_type req, item_peer = req_server req \<rparr>] \<rparr>"

definition ChangeConfig ::
  "(RaftConfigPB \<Rightarrow> Status)
     \<Rightarrow> (ConfigChangeItemPB list \<Rightarrow> ServerErrorCode option \<Rightarrow> RaftConfigPB \<Rightarrow> RaftConsensus
           \<Rightarrow> Status \<times> ServerErrorCode option \<times> RaftConfigPB)
     \<Rightarrow> ChangeConfigRequestPB \<Rightarrow> ServerErrorCode option \<Rightarrow> RaftConsensus
     \<Rightarrow> (Status \<times> ServerErrorCode option \<times> RaftConsensus) option" where
  "ChangeConfig VerifyRaftConfig apply_config_changes req error_code s =
     BulkChangeConfig VerifyRaftConfig apply_config_changes (GetBulkConfigChangeRequest req)
       error_code s"

text \<open>
  The index of the committed configuration, as \<^verbatim>\<open>AddPendingOperationUnlocked\<close> reads
  it. The operation that brought the committed configuration is in the log, so on a
  replica its index is not above the index of the last appended operation.
\<close>

definition committed_config_opid_index :: "RaftConsensus \<Rightarrow> int" where
  "committed_config_opid_index s =
     (case opid_index (committed_config s) of Some i \<Rightarrow> i | None \<Rightarrow> 0)"

text \<open>
  The example request asks to add the peer d as a non-voter, with no compare-and-swap
  index. It is sent to \<open>example_leader\<close>, a leader of term 5 whose first operation of
  the term, at index 11, is appended but not committed: the committed index is 10.
\<close>

definition example_change_request :: ChangeConfigRequestPB where
  "example_change_request =
     \<lparr> req_cas_config_opid_index = None, req_type = Some ADD_PEER,
       req_server = Some \<lparr> permanent_uuid = ''d'', member_type = NON_VOTER \<rparr> \<rparr>"

definition example_bulk_request :: "ConfigChangeItemPB BulkChangeConfigRequestPB" where
  "example_bulk_request = GetBulkConfigChangeRequest example_change_request"

text \<open>
  A value for the parameter \<open>apply_config_changes\<close> in examples of requests that are
  refused before the loop over the items: it accepts the items and returns the committed
  configuration as the new one.
\<close>

definition keep_committed_config ::
  "ConfigChangeItemPB list \<Rightarrow> ServerErrorCode option \<Rightarrow> RaftConfigPB \<Rightarrow> RaftConsensus
     \<Rightarrow> Status \<times> ServerErrorCode option \<times> RaftConfigPB" where
  "keep_committed_config items error_code committed s = (OK, error_code, committed)"

section \<open>Example flexible counters\<close>
















section \<open>Properties of the classic vote counter\<close>

lemma RegisterVote_num_voters:
  "num_voters (snd (snd (RegisterVote u v d c))) = num_voters c"
  by (simp add: RegisterVote_def Let_def split: option.split ElectionVote.split)

lemma RegisterVote_majority_size:
  "majority_size (snd (snd (RegisterVote u v d c))) = majority_size c"
  by (simp add: RegisterVote_def Let_def split: option.split ElectionVote.split)

lemma RegisterVote_tally_bound:
  assumes "0 \<le> yes_votes c" "0 \<le> no_votes c" "yes_votes c + no_votes c \<le> num_voters c"
  shows "0 \<le> yes_votes (snd (snd (RegisterVote u v d c)))
       \<and> 0 \<le> no_votes (snd (snd (RegisterVote u v d c)))
       \<and> yes_votes (snd (snd (RegisterVote u v d c)))
           + no_votes (snd (snd (RegisterVote u v d c))) \<le> num_voters c"
  using assms
  by (simp add: RegisterVote_def Let_def split: option.split ElectionVote.split)

lemma RegisterVotes_invariant:
  assumes "0 \<le> yes_votes c" "0 \<le> no_votes c" "yes_votes c + no_votes c \<le> num_voters c"
  shows "num_voters (RegisterVotes vs c) = num_voters c
       \<and> majority_size (RegisterVotes vs c) = majority_size c
       \<and> 0 \<le> yes_votes (RegisterVotes vs c)
       \<and> 0 \<le> no_votes (RegisterVotes vs c)
       \<and> yes_votes (RegisterVotes vs c) + no_votes (RegisterVotes vs c) \<le> num_voters c"
  using assms
proof (induction vs arbitrary: c)
  case Nil
  then show ?case by simp
next
  case (Cons p vs)
  obtain u v where p: "p = (u, v)" by (cases p)
  let ?c' = "snd (snd (RegisterVote u v False c))"
  have step: "0 \<le> yes_votes ?c'" "0 \<le> no_votes ?c'"
             "yes_votes ?c' + no_votes ?c' \<le> num_voters ?c'"
    using RegisterVote_tally_bound [OF Cons.prems, of u v False]
    by (simp_all add: RegisterVote_num_voters)
  show ?case
    using Cons.IH [OF step]
    by (simp add: p RegisterVote_num_voters RegisterVote_majority_size)
qed

text \<open>
  C5. Classic decision rule. A counter built by the constructor for \<open>N\<close> voters and
  majority size \<open>M\<close>, after any sequence of registered votes, is decided GRANTED exactly
  when \<open>yes_votes \<ge> M\<close>, decided DENIED exactly when \<open>no_votes > N - M\<close>, and
  \<^verbatim>\<open>GetDecision\<close> returns IllegalState exactly when neither holds; \<^verbatim>\<open>IsDecided\<close>
  agrees with it.
\<close>

theorem VoteCounter_decision_rule:
  assumes "VoteCounter_new N M = Some c0" and "c = RegisterVotes vs c0"
  shows "(GetDecision c = Inr VOTE_GRANTED \<longleftrightarrow> yes_votes c \<ge> M)
       \<and> (GetDecision c = Inr VOTE_DENIED \<longleftrightarrow> no_votes c > N - M)
       \<and> (GetDecision c = Inl IllegalState \<longleftrightarrow> \<not> yes_votes c \<ge> M \<and> \<not> no_votes c > N - M)
       \<and> (IsDecided c \<longleftrightarrow> yes_votes c \<ge> M \<or> no_votes c > N - M)"
proof -
  from assms(1) have c0: "num_voters c0 = N" "majority_size c0 = M"
      "yes_votes c0 = 0" "no_votes c0 = 0" "0 < N"
    by (auto simp: VoteCounter_new_def split: if_splits)
  have inv: "num_voters c = N" "majority_size c = M"
      "yes_votes c + no_votes c \<le> N"
    using RegisterVotes_invariant [of c0 vs] c0 assms(2) by simp_all
  show ?thesis
    using inv by (auto simp: GetDecision_def IsDecided_def)
qed

theorem VoteCounter_decision_rule_witness:
  "\<exists>c0 c. VoteCounter_new 3 2 = Some c0
     \<and> c = RegisterVotes
           [(''a'', \<lparr>vote = VOTE_GRANTED, is_candidate_removed = False, last_pruned_term = 0\<rparr>),
            (''b'', \<lparr>vote = VOTE_GRANTED, is_candidate_removed = False, last_pruned_term = 0\<rparr>)] c0
     \<and> GetDecision c = Inr VOTE_GRANTED \<and> yes_votes c = 2"
proof -
  let ?vs = "[(''a'', \<lparr>vote = VOTE_GRANTED, is_candidate_removed = False, last_pruned_term = 0\<rparr>),
              (''b'', \<lparr>vote = VOTE_GRANTED, is_candidate_removed = False, last_pruned_term = 0\<rparr>)]"
  obtain c0 where c0: "VoteCounter_new 3 2 = Some c0"
    by (simp add: VoteCounter_new_def)
  have y: "yes_votes (RegisterVotes ?vs c0) = 2"
    using c0 by (auto simp: VoteCounter_new_def RegisterVote_def)
  show ?thesis
    using VoteCounter_decision_rule [OF c0 refl, of ?vs] c0 y by auto
qed

lemma RegisterVote_keeps_vote:
  "votes c u = Some v \<Longrightarrow> votes (snd (snd (RegisterVote u' v' d c))) u = Some v"
  by (cases "u' = u")
    (auto simp: RegisterVote_def Let_def split: option.split ElectionVote.split)

lemma RegisterVotes_keeps_vote:
  "votes c u = Some v \<Longrightarrow> votes (RegisterVotes vs c) u = Some v"
proof (induction vs arbitrary: c)
  case Nil
  then show ?case by simp
next
  case (Cons p vs)
  obtain u' v' where p: "p = (u', v')" by (cases p)
  from Cons.prems have "votes (snd (snd (RegisterVote u' v' False c))) u = Some v"
    by (rule RegisterVote_keeps_vote)
  then show ?case using Cons.IH by (simp add: p)
qed

lemma RegisterVote_first_vote:
  assumes "RegisterVote u v d c = (OK, False, c1)" and "\<not> d"
  shows "votes c u = None \<and> yes_votes c + no_votes c \<noteq> num_voters c
       \<and> votes c1 u = Some v
       \<and> (vote v = VOTE_GRANTED \<longrightarrow> yes_votes c1 = yes_votes c + 1 \<and> no_votes c1 = no_votes c)
       \<and> (vote v = VOTE_DENIED \<longrightarrow> yes_votes c1 = yes_votes c \<and> no_votes c1 = no_votes c + 1)"
  using assms
  by (auto simp: RegisterVote_def Let_def split: option.splits if_splits ElectionVote.splits)

lemma RegisterVote_new_voter:
  assumes "votes c u = None" and "yes_votes c + no_votes c \<noteq> num_voters c"
  shows "\<exists>c1. RegisterVote u v d c = (OK, False, c1)"
  using assms by (simp add: RegisterVote_def Let_def)

text \<open>
  C8. Vote registration is consistent and idempotent. Let the first vote \<open>v\<close> of a voter
  \<open>u\<close> be registered: the call, made with the duplicate flag clear, returns OK and leaves
  the flag clear. Then the vote is in the record and counted once in its tally, and after
  any further registrations (of any voters, \<open>u\<close> included) a vote of \<open>u\<close> that differs
  from \<open>v\<close> returns InvalidArgument and leaves the whole counter (vote record, yes and no
  counts) and the duplicate flag as they were, while a vote of \<open>u\<close> equal to \<open>v\<close> returns
  OK, sets the duplicate flag, and leaves the whole counter as it was. The first call does
  return OK with the flag clear whenever \<open>u\<close> has no vote recorded and the counter is
  not full.
\<close>

theorem RegisterVote_second_vote:
  "(RegisterVote u v False c = (OK, False, c1) \<and> c2 = RegisterVotes others c1 \<longrightarrow>
      votes c1 u = Some v
      \<and> yes_votes c1 + no_votes c1 = yes_votes c + no_votes c + 1
      \<and> (vote v = VOTE_GRANTED \<longrightarrow> yes_votes c1 = yes_votes c + 1)
      \<and> (vote v = VOTE_DENIED \<longrightarrow> no_votes c1 = no_votes c + 1)
      \<and> votes c2 u = Some v
      \<and> (vote v2 \<noteq> vote v \<longrightarrow> RegisterVote u v2 dup c2 = (InvalidArgument, dup, c2))
      \<and> (vote v2 = vote v \<longrightarrow> RegisterVote u v2 dup c2 = (OK, True, c2)))
   \<and> (votes c u = None \<and> yes_votes c + no_votes c \<noteq> num_voters c \<longrightarrow>
        (\<exists>c1. RegisterVote u v False c = (OK, False, c1)))"
proof -
  have a: "RegisterVote u v False c = (OK, False, c1) \<and> c2 = RegisterVotes others c1 \<longrightarrow>
      votes c1 u = Some v
      \<and> yes_votes c1 + no_votes c1 = yes_votes c + no_votes c + 1
      \<and> (vote v = VOTE_GRANTED \<longrightarrow> yes_votes c1 = yes_votes c + 1)
      \<and> (vote v = VOTE_DENIED \<longrightarrow> no_votes c1 = no_votes c + 1)
      \<and> votes c2 u = Some v
      \<and> (vote v2 \<noteq> vote v \<longrightarrow> RegisterVote u v2 dup c2 = (InvalidArgument, dup, c2))
      \<and> (vote v2 = vote v \<longrightarrow> RegisterVote u v2 dup c2 = (OK, True, c2))"
  proof
    assume h: "RegisterVote u v False c = (OK, False, c1) \<and> c2 = RegisterVotes others c1"
    then have r: "RegisterVote u v False c = (OK, False, c1)" by simp
    note f = RegisterVote_first_vote [OF r]
    from f have v1: "votes c1 u = Some v" by simp
    from h v1 have v2: "votes c2 u = Some v" by (simp add: RegisterVotes_keeps_vote)
    have t: "yes_votes c1 + no_votes c1 = yes_votes c + no_votes c + 1"
      using f by (cases "vote v") simp_all
    have s: "(vote v2 \<noteq> vote v \<longrightarrow> RegisterVote u v2 dup c2 = (InvalidArgument, dup, c2))
       \<and> (vote v2 = vote v \<longrightarrow> RegisterVote u v2 dup c2 = (OK, True, c2))"
      using v2 by (auto simp: RegisterVote_def)
    from f v1 v2 t s show "votes c1 u = Some v
      \<and> yes_votes c1 + no_votes c1 = yes_votes c + no_votes c + 1
      \<and> (vote v = VOTE_GRANTED \<longrightarrow> yes_votes c1 = yes_votes c + 1)
      \<and> (vote v = VOTE_DENIED \<longrightarrow> no_votes c1 = no_votes c + 1)
      \<and> votes c2 u = Some v
      \<and> (vote v2 \<noteq> vote v \<longrightarrow> RegisterVote u v2 dup c2 = (InvalidArgument, dup, c2))
      \<and> (vote v2 = vote v \<longrightarrow> RegisterVote u v2 dup c2 = (OK, True, c2))"
      by simp
  qed
  have b: "votes c u = None \<and> yes_votes c + no_votes c \<noteq> num_voters c \<longrightarrow>
        (\<exists>c1. RegisterVote u v False c = (OK, False, c1))"
    using RegisterVote_new_voter [of c u v False] by blast
  from a b show ?thesis by (intro conjI)
qed

theorem RegisterVote_second_vote_witness:
  "\<exists>c0 c1 c2.
     VoteCounter_new 3 2 = Some c0
     \<and> RegisterVote ''a''
           \<lparr>vote = VOTE_GRANTED, is_candidate_removed = False, last_pruned_term = 0\<rparr> False c0
         = (OK, False, c1)
     \<and> c2 = RegisterVotes
           [(''b'', \<lparr>vote = VOTE_DENIED, is_candidate_removed = False, last_pruned_term = 0\<rparr>)]
           c1
     \<and> yes_votes c2 = 1 \<and> no_votes c2 = 1
     \<and> RegisterVote ''a''
           \<lparr>vote = VOTE_DENIED, is_candidate_removed = False, last_pruned_term = 0\<rparr> False c2
         = (InvalidArgument, False, c2)
     \<and> RegisterVote ''a''
           \<lparr>vote = VOTE_GRANTED, is_candidate_removed = True, last_pruned_term = 7\<rparr> False c2
         = (OK, True, c2)"
proof -
  let ?yes = "\<lparr>vote = VOTE_GRANTED, is_candidate_removed = False, last_pruned_term = 0\<rparr>"
  let ?no = "\<lparr>vote = VOTE_DENIED, is_candidate_removed = False, last_pruned_term = 0\<rparr>"
  let ?again = "\<lparr>vote = VOTE_GRANTED, is_candidate_removed = True, last_pruned_term = 7\<rparr>"
  obtain c0 where c0: "VoteCounter_new 3 2 = Some c0"
    "c0 = \<lparr> num_voters = 3, counter_candidate_removed = False, majority_size = 2,
            votes = Map.empty, yes_votes = 0, no_votes = 0 \<rparr>"
    by (simp add: VoteCounter_new_def)
  from c0 have "votes c0 ''a'' = None \<and> yes_votes c0 + no_votes c0 \<noteq> num_voters c0"
    by simp
  with RegisterVote_second_vote [of "''a''" ?yes c0]
  obtain c1 where c1: "RegisterVote ''a'' ?yes False c0 = (OK, False, c1)" by blast
  define c2 where "c2 = RegisterVotes [(''b'', ?no)] c1"
  from c0 c1 have t: "yes_votes c2 = 1" "no_votes c2 = 1"
    by (auto simp: c2_def RegisterVote_def Let_def)
  from RegisterVote_second_vote [of "''a''" ?yes c0 c1 c2 "[(''b'', ?no)]" ?no False] c1
  have d: "RegisterVote ''a'' ?no False c2 = (InvalidArgument, False, c2)"
    by (simp add: c2_def)
  from RegisterVote_second_vote [of "''a''" ?yes c0 c1 c2 "[(''b'', ?no)]" ?again False] c1
  have e: "RegisterVote ''a'' ?again False c2 = (OK, True, c2)"
    by (simp add: c2_def)
  from c0(1) c1 t d e c2_def show ?thesis by blast
qed

section \<open>Properties of the static flexible quorum\<close>

lemma int32_id: "- (2 ^ 31) \<le> x \<Longrightarrow> x < 2 ^ 31 \<Longrightarrow> int32 x = x"
  by (simp add: int32_def)






lemma length_filter_int_le: "int (length (filter P xs)) \<le> int (length xs)"
  by simp







lemma Flexible_RegisterVote_voted:
  "votes (base fc) u = Some w \<Longrightarrow> snd (snd (Flexible_RegisterVote u v d fc)) = fc"
  by (simp add: Flexible_RegisterVote_def RegisterVote_def)

lemma Flexible_RegisterVote_full:
  "votes (base fc) u = None \<Longrightarrow>
   yes_votes (base fc) + no_votes (base fc) = num_voters (base fc) \<Longrightarrow>
     snd (snd (Flexible_RegisterVote u v d fc)) = fc"
  by (simp add: Flexible_RegisterVote_def RegisterVote_def)

lemma Flexible_RegisterVote_new:
  assumes "votes (base fc) u = None"
    and "yes_votes (base fc) + no_votes (base fc) \<noteq> num_voters (base fc)"
    and "fc' = snd (snd (Flexible_RegisterVote u v d fc))"
  shows "votes (base fc') = (votes (base fc))(u \<mapsto> v)"
    and "num_voters (base fc') = num_voters (base fc)"
    and "yes_votes (base fc') + no_votes (base fc')
           = yes_votes (base fc) + no_votes (base fc) + 1"
    and "commit_rule fc' = commit_rule fc"
    and "voter_distribution fc' = voter_distribution fc"
    and "uuid_to_quorum_id fc' = uuid_to_quorum_id fc"
    and "yes_vote_count fc' =
           (case map_of (uuid_to_quorum_id fc) u of
              None \<Rightarrow> yes_vote_count fc
            | Some q \<Rightarrow> if vote v = VOTE_GRANTED then increment_count (yes_vote_count fc) q
                         else yes_vote_count fc)"
    and "no_vote_count fc' =
           (case map_of (uuid_to_quorum_id fc) u of
              None \<Rightarrow> no_vote_count fc
            | Some q \<Rightarrow> if vote v = VOTE_DENIED then increment_count (no_vote_count fc) q
                         else no_vote_count fc)"
  using assms
  by (auto simp: Flexible_RegisterVote_def RegisterVote_def Let_def
      split: option.splits ElectionVote.splits)



lemma count_flip:
  "distinct xs \<Longrightarrow> u \<in> set xs \<Longrightarrow> \<not> P u \<Longrightarrow>
     length (filter (\<lambda>x. x = u \<or> P x) xs) = Suc (length (filter P xs))"
proof (induction xs)
  case Nil
  then show ?case by simp
next
  case (Cons a xs)
  show ?case
  proof (cases "a = u")
    case True
    with Cons.prems have "u \<notin> set xs" by simp
    then have "filter (\<lambda>x. x = u \<or> P x) xs = filter P xs"
      by (intro filter_cong) auto
    with True Cons.prems show ?thesis by simp
  next
    case False
    with Cons show ?thesis by simp
  qed
qed

lemma count_same:
  "(\<And>x. x \<in> set xs \<Longrightarrow> P x = Q x) \<Longrightarrow> length (filter P xs) = length (filter Q xs)"
  by (induction xs) auto



lemma region_voters_distinct:
  "distinct (map fst (uuid_to_quorum_id fc)) \<Longrightarrow> distinct (region_voters fc r)"
  by (simp add: region_voters_def distinct_map_filter)

lemma region_voters_member:
  "distinct (map fst (uuid_to_quorum_id fc)) \<Longrightarrow>
     u \<in> set (region_voters fc r) \<longleftrightarrow> map_of (uuid_to_quorum_id fc) u = Some r"
  by (auto simp: region_voters_def image_iff)

lemma region_voters_length:
  "length (region_voters fc r) \<le> length (uuid_to_quorum_id fc)"
  by (simp add: region_voters_def)


text \<open>
  The number of voters of a region with a vote of a kind on record, and how a newly
  registered vote changes it.
\<close>

lemma voted_new:
  assumes "votes (base fc) u = None" and "votes (base fc') = (votes (base fc))(u \<mapsto> v)"
  shows "voted fc' k x = (if x = u then vote v = k else voted fc k x)"
  using assms by (simp add: voted_def)

lemma voted_count_new:
  assumes n: "votes (base fc) u = None"
    and v: "votes (base fc') = (votes (base fc))(u \<mapsto> v)"
    and q: "uuid_to_quorum_id fc' = uuid_to_quorum_id fc"
    and d: "distinct (map fst (uuid_to_quorum_id fc))"
  shows "int (length (filter (voted fc' k) (region_voters fc' r)))
       = int (length (filter (voted fc k) (region_voters fc r)))
         + (if map_of (uuid_to_quorum_id fc) u = Some r \<and> vote v = k then 1 else 0)"
proof -
  from q have rv: "region_voters fc' r = region_voters fc r"
    by (simp add: region_voters_def)
  note vn = voted_new [OF n v]
  from n have nu: "\<not> voted fc k u" by (simp add: voted_def)
  show ?thesis
  proof (cases "map_of (uuid_to_quorum_id fc) u = Some r \<and> vote v = k")
    case True
    with d have m: "u \<in> set (region_voters fc r)" by (simp add: region_voters_member)
    from True vn have "voted fc' k = (\<lambda>x. x = u \<or> voted fc k x)"
      by (auto simp: fun_eq_iff)
    with count_flip [where xs = "region_voters fc r" and u = u and P = "voted fc k",
        OF region_voters_distinct [OF d] m nu] True rv show ?thesis
      by simp
  next
    case False
    have "length (filter (voted fc' k) (region_voters fc r))
        = length (filter (voted fc k) (region_voters fc r))"
    proof (rule count_same)
      fix x assume x: "x \<in> set (region_voters fc r)"
      show "voted fc' k x = voted fc k x"
      proof (cases "x = u")
        case True
        with x d have "map_of (uuid_to_quorum_id fc) u = Some r"
          by (simp add: region_voters_member)
        with False have "vote v \<noteq> k" by simp
        with True vn nu show ?thesis by simp
      next
        case False
        with vn show ?thesis by simp
      qed
    qed
    with False rv show ?thesis by simp
  qed
qed

lemma yes_of_new:
  assumes "yes_vote_count fc' =
           (case map_of (uuid_to_quorum_id fc) u of
              None \<Rightarrow> yes_vote_count fc
            | Some q \<Rightarrow> if vote v = VOTE_GRANTED then increment_count (yes_vote_count fc) q
                         else yes_vote_count fc)"
  shows "yes_of fc' r
       = (if map_of (uuid_to_quorum_id fc) u = Some r \<and> vote v = VOTE_GRANTED
          then int32 (yes_of fc r + 1) else yes_of fc r)"
  using assms by (auto simp: yes_of_def increment_count_def split: option.splits)

lemma no_of_new:
  assumes "no_vote_count fc' =
           (case map_of (uuid_to_quorum_id fc) u of
              None \<Rightarrow> no_vote_count fc
            | Some q \<Rightarrow> if vote v = VOTE_DENIED then increment_count (no_vote_count fc) q
                         else no_vote_count fc)"
  shows "no_of fc' r
       = (if map_of (uuid_to_quorum_id fc) u = Some r \<and> vote v = VOTE_DENIED
          then int32 (no_of fc r + 1) else no_of fc r)"
  using assms by (auto simp: no_of_def increment_count_def split: option.splits)

lemma regional_ok_step:
  assumes ok: "regional_ok M fc"
  shows "regional_ok M (snd (snd (Flexible_RegisterVote u v d fc)))"
proof (cases "votes (base fc) u")
  case (Some w)
  with ok show ?thesis by (simp add: Flexible_RegisterVote_voted)
next
  case None
  show ?thesis
  proof (cases "yes_votes (base fc) + no_votes (base fc) = num_voters (base fc)")
    case True
    with None ok show ?thesis by (simp add: Flexible_RegisterVote_full)
  next
    case False
    define fc' where "fc' = snd (snd (Flexible_RegisterVote u v d fc))"
    note n = Flexible_RegisterVote_new [OF None False fc'_def]
    from ok have dk: "distinct (map fst (uuid_to_quorum_id fc))"
      and len: "int (length (uuid_to_quorum_id fc)) < 2 ^ 30"
      by (simp_all add: regional_ok_def)
    from n(4) have lr: "listed_regions fc' = listed_regions fc"
      by (simp add: listed_regions_def)
    from n(5) have tot: "\<And>r. total_of fc' r = total_of fc r"
      by (simp add: total_of_def)
    from n(6) have rv: "\<And>r. region_voters fc' r = region_voters fc r"
      by (simp add: region_voters_def)
    note vc = voted_count_new [OF None n(1) n(6) dk]
    note yn = yes_of_new [OF n(7)]
    note nn = no_of_new [OF n(8)]
    have main: "\<forall>r \<in> set (listed_regions fc).
           total_of fc' r = int (length (region_voters fc' r))
           \<and> yes_of fc' r = int (length (filter (voted fc' VOTE_GRANTED) (region_voters fc' r)))
           \<and> no_of fc' r = int (length (filter (voted fc' VOTE_DENIED) (region_voters fc' r)))
           \<and> 0 \<le> M (total_of fc' r) \<and> M (total_of fc' r) \<le> 2 ^ 30"
    proof
      fix r assume r: "r \<in> set (listed_regions fc)"
      with ok have
        "total_of fc r = int (length (region_voters fc r))
         \<and> yes_of fc r = int (length (filter (voted fc VOTE_GRANTED) (region_voters fc r)))
         \<and> no_of fc r = int (length (filter (voted fc VOTE_DENIED) (region_voters fc r)))
         \<and> 0 \<le> M (total_of fc r) \<and> M (total_of fc r) \<le> 2 ^ 30"
        unfolding regional_ok_def by blast
      then have t: "total_of fc r = int (length (region_voters fc r))"
        and y: "yes_of fc r = int (length (filter (voted fc VOTE_GRANTED) (region_voters fc r)))"
        and no: "no_of fc r = int (length (filter (voted fc VOTE_DENIED) (region_voters fc r)))"
        and m: "0 \<le> M (total_of fc r)" "M (total_of fc r) \<le> 2 ^ 30"
        by blast+
      have "int (length (filter (voted fc VOTE_GRANTED) (region_voters fc r)))
              \<le> int (length (uuid_to_quorum_id fc))"
        using region_voters_length [of fc r]
          length_filter_le [of "voted fc VOTE_GRANTED" "region_voters fc r"] by linarith
      with y len have yb: "int32 (yes_of fc r + 1) = yes_of fc r + 1"
        by (simp add: int32_id)
      have "int (length (filter (voted fc VOTE_DENIED) (region_voters fc r)))
              \<le> int (length (uuid_to_quorum_id fc))"
        using region_voters_length [of fc r]
          length_filter_le [of "voted fc VOTE_DENIED" "region_voters fc r"] by linarith
      with no len have nb: "int32 (no_of fc r + 1) = no_of fc r + 1"
        by (simp add: int32_id)
      have "yes_of fc' r = int (length (filter (voted fc' VOTE_GRANTED) (region_voters fc' r)))"
        unfolding vc yn using y yb by simp
      moreover have
        "no_of fc' r = int (length (filter (voted fc' VOTE_DENIED) (region_voters fc' r)))"
        unfolding vc nn using no nb by simp
      ultimately show "total_of fc' r = int (length (region_voters fc' r))
           \<and> yes_of fc' r = int (length (filter (voted fc' VOTE_GRANTED) (region_voters fc' r)))
           \<and> no_of fc' r = int (length (filter (voted fc' VOTE_DENIED) (region_voters fc' r)))
           \<and> 0 \<le> M (total_of fc' r) \<and> M (total_of fc' r) \<le> 2 ^ 30"
        using t m tot rv by simp
    qed
    have "regional_ok M fc'"
      unfolding regional_ok_def lr n(6) using dk len main by blast
    then show ?thesis by (simp add: fc'_def)
  qed
qed






lemma global_ok_not_full:
  assumes g: "global_ok fc" and u: "u \<in> set (map fst (uuid_to_quorum_id fc))"
    and n: "votes (base fc) u = None"
  shows "yes_votes (base fc) + no_votes (base fc) \<noteq> num_voters (base fc)"
proof -
  from u n have
    "length (filter (\<lambda>u. votes (base fc) u \<noteq> None) (map fst (uuid_to_quorum_id fc)))
       < length (map fst (uuid_to_quorum_id fc))"
    by (intro length_filter_less) auto
  with g show ?thesis by (simp add: global_ok_def)
qed

lemma global_ok_step:
  assumes g: "global_ok fc" and d: "distinct (map fst (uuid_to_quorum_id fc))"
    and u: "u \<in> set (map fst (uuid_to_quorum_id fc))"
    and n: "votes (base fc) u = None"
  shows "global_ok (snd (snd (Flexible_RegisterVote u v dup fc)))"
proof -
  define fc' where "fc' = snd (snd (Flexible_RegisterVote u v dup fc))"
  note f = Flexible_RegisterVote_new [OF n global_ok_not_full [OF g u n] fc'_def]
  have "(\<lambda>x. votes (base fc') x \<noteq> None) = (\<lambda>x. x = u \<or> votes (base fc) x \<noteq> None)"
    by (auto simp: f(1) fun_eq_iff)
  moreover from n have "\<not> (votes (base fc) u \<noteq> None)" by simp
  ultimately have
    "length (filter (\<lambda>x. votes (base fc') x \<noteq> None) (map fst (uuid_to_quorum_id fc)))
       = Suc (length (filter (\<lambda>x. votes (base fc) x \<noteq> None) (map fst (uuid_to_quorum_id fc))))"
    using count_flip [where xs = "map fst (uuid_to_quorum_id fc)" and u = u
        and P = "\<lambda>x. votes (base fc) x \<noteq> None", OF d u]
    by simp
  moreover from g u have "dom (votes (base fc')) \<subseteq> set (map fst (uuid_to_quorum_id fc))"
    by (auto simp: f(1) global_ok_def)
  ultimately have "global_ok fc'"
    using g by (simp add: global_ok_def f(2,3,6))
  then show ?thesis by (simp add: fc'_def)
qed





lemma Flexible_RegisterVotes_full:
  "yes_votes (base fc) + no_votes (base fc) = num_voters (base fc) \<Longrightarrow>
     Flexible_RegisterVotes vs fc = fc"
proof (induction vs)
  case Nil
  then show ?case by simp
next
  case (Cons p vs)
  obtain u v where p: "p = (u, v)" by (cases p)
  from Cons.prems have "snd (snd (Flexible_RegisterVote u v False fc)) = fc"
    by (cases "votes (base fc) u")
      (simp_all add: Flexible_RegisterVote_full Flexible_RegisterVote_voted)
  with Cons show ?case by (simp add: p)
qed

text \<open>
  The constructor builds a counter that agrees with its configuration when the voter
  distribution counts the voters of each listed region, and the registration of a vote of
  a voter of the configuration keeps the agreement.
\<close>

lemma FlexibleVoteCounter_new_ok:
  assumes n: "FlexibleVoteCounter_new (Some rule) adjust distribution quorum_ids = Some fc"
    and d: "distinct (map fst quorum_ids)" and l: "int (length quorum_ids) < 2 ^ 30"
    and r: "\<forall>r \<in> set (concat (map regions (rule_predicates rule))).
              distribution r
                = Some (int (length (filter (\<lambda>entry. snd entry = r) quorum_ids)))
              \<and> 0 \<le> M (int (length (filter (\<lambda>entry. snd entry = r) quorum_ids)))
              \<and> M (int (length (filter (\<lambda>entry. snd entry = r) quorum_ids))) \<le> 2 ^ 30"
  shows "counter_ok M fc"
proof -
  from l have i: "int32 (int (length quorum_ids)) = int (length quorum_ids)"
    by (simp add: int32_id)
  from n have f: "votes (base fc) = Map.empty" "num_voters (base fc) = int (length quorum_ids)"
    "yes_votes (base fc) = 0" "no_votes (base fc) = 0" "commit_rule fc = rule"
    "voter_distribution fc = distribution" "uuid_to_quorum_id fc = quorum_ids"
    "\<And>x. yes_vote_count fc x = None \<or> yes_vote_count fc x = Some 0"
    "\<And>x. no_vote_count fc x = None \<or> no_vote_count fc x = Some 0"
    unfolding i
    by (auto simp: FlexibleVoteCounter_new_def Let_def i split: if_splits option.splits)
  have z: "\<And>x. yes_of fc x = 0" "\<And>x. no_of fc x = 0"
  proof -
    fix x
    from f(8) [of x] show "yes_of fc x = 0" by (auto simp: yes_of_def)
    from f(9) [of x] show "no_of fc x = 0" by (auto simp: no_of_def)
  qed
  have v: "\<And>k x. \<not> voted fc k x"
    by (simp add: voted_def f(1))
  have "global_ok fc"
    by (simp add: global_ok_def f)
  moreover have "regional_ok M fc"
    unfolding regional_ok_def listed_regions_def f(5,7)
    using d l r by (auto simp: z v total_of_def region_voters_def f(6,7))
  ultimately show ?thesis by (simp add: counter_ok_def)
qed

lemma counter_ok_step:
  assumes ok: "counter_ok M fc" and u: "u \<in> set (map fst (uuid_to_quorum_id fc))"
  shows "counter_ok M (snd (snd (Flexible_RegisterVote u v d fc)))"
proof (cases "votes (base fc) u")
  case (Some w)
  with ok show ?thesis by (simp add: Flexible_RegisterVote_voted)
next
  case None
  from ok have r: "regional_ok M fc" and g: "global_ok fc"
    by (simp_all add: counter_ok_def)
  from r have dk: "distinct (map fst (uuid_to_quorum_id fc))"
    by (simp add: regional_ok_def)
  from regional_ok_step [OF r] global_ok_step [OF g dk u None] show ?thesis
    by (simp add: counter_ok_def)
qed









section \<open>Properties of term advancement\<close>

lemma GetConsensusRole_peers_no_leader:
  "uuid \<noteq> [] \<Longrightarrow> GetConsensusRole_peers uuid [] ps \<noteq> LEADER"
  by (induction ps) (auto split: MemberType.splits)

lemma active_role_no_leader: "leader_uuid s = [] \<Longrightarrow> active_role s \<noteq> LEADER"
  using GetConsensusRole_peers_no_leader [of "peer_uuid s"]
  by (auto simp: active_role_def GetConsensusRole_def)

lemma BecomeReplicaUnlocked_not_leader:
  "BecomeReplicaUnlocked s = (st, s1) \<Longrightarrow>
     st = OK \<and> active_role s1 \<noteq> LEADER \<and> \<not> queue_leader_mode s1
     \<and> current_term s1 = current_term s \<and> voted_for s1 = voted_for s
     \<and> flushed s1 = flushed s"
  using active_role_no_leader [of s1]
  by (auto simp: BecomeReplicaUnlocked_def ClearLeaderUnlocked_def)

lemma SetCurrentTermUnlocked_greater:
  "current_term s < new_term \<Longrightarrow>
     \<exists>s'. SetCurrentTermUnlocked new_term flush s = (OK, s')
        \<and> current_term s' = new_term \<and> voted_for s' = None \<and> leader_uuid s' = []"
  by (simp add: SetCurrentTermUnlocked_def Let_def ClearLeaderUnlocked_def Flush_def)

text \<open>
  C2. Term advancement. \<^verbatim>\<open>HandleTermAdvanceUnlocked\<close> fails with IllegalState and
  leaves the whole state unchanged when \<open>new_term \<le> current_term\<close>. Otherwise it
  succeeds: a replica whose role is LEADER first becomes a replica (its role is no longer
  LEADER and the queue is in non-leader mode, the term still the old one), and then the
  term is set to \<open>new_term\<close>, the vote is cleared and the leader UUID is cleared.
\<close>

theorem HandleTermAdvanceUnlocked_advance:
  "(new_term \<le> current_term s \<longrightarrow>
      HandleTermAdvanceUnlocked new_term flush s = (IllegalState, s))
 \<and> (current_term s < new_term \<longrightarrow>
      (\<exists>s1 s'. (if active_role s = LEADER then BecomeReplicaUnlocked s else (OK, s)) = (OK, s1)
          \<and> (active_role s = LEADER \<longrightarrow> active_role s1 \<noteq> LEADER \<and> \<not> queue_leader_mode s1)
          \<and> current_term s1 = current_term s
          \<and> HandleTermAdvanceUnlocked new_term flush s = (OK, s')
          \<and> s' = (snd (SetCurrentTermUnlocked new_term flush s1))
                    \<lparr> last_received_cur_leader := MinimumOpId \<rparr>
          \<and> current_term s' = new_term \<and> voted_for s' = None \<and> leader_uuid s' = []
          \<and> active_role s' \<noteq> LEADER))"
proof (intro conjI impI)
  assume "new_term \<le> current_term s"
  then show "HandleTermAdvanceUnlocked new_term flush s = (IllegalState, s)"
    by (simp add: HandleTermAdvanceUnlocked_def)
next
  assume gt: "current_term s < new_term"
  obtain st1 s1 where
    b: "(if active_role s = LEADER then BecomeReplicaUnlocked s else (OK, s)) = (st1, s1)"
    by (cases "if active_role s = LEADER then BecomeReplicaUnlocked s else (OK, s)")
  have b1: "st1 = OK" "current_term s1 = current_term s"
     "active_role s = LEADER \<longrightarrow> active_role s1 \<noteq> LEADER \<and> \<not> queue_leader_mode s1"
    using b BecomeReplicaUnlocked_not_leader [of s st1 s1] by (auto split: if_splits)
  from gt b1 have "current_term s1 < new_term" by simp
  from SetCurrentTermUnlocked_greater [OF this, of flush]
  obtain s2 where s2: "SetCurrentTermUnlocked new_term flush s1 = (OK, s2)"
    "current_term s2 = new_term" "voted_for s2 = None" "leader_uuid s2 = []"
    by blast
  let ?s' = "s2 \<lparr> last_received_cur_leader := MinimumOpId \<rparr>"
  have h: "HandleTermAdvanceUnlocked new_term flush s = (OK, ?s')"
    using gt b b1(1) s2(1) by (simp add: HandleTermAdvanceUnlocked_def)
  have l: "leader_uuid ?s' = []" using s2 by simp
  have "(if active_role s = LEADER then BecomeReplicaUnlocked s else (OK, s)) = (OK, s1)
          \<and> (active_role s = LEADER \<longrightarrow> active_role s1 \<noteq> LEADER \<and> \<not> queue_leader_mode s1)
          \<and> current_term s1 = current_term s
          \<and> HandleTermAdvanceUnlocked new_term flush s = (OK, ?s')
          \<and> ?s' = (snd (SetCurrentTermUnlocked new_term flush s1))
                    \<lparr> last_received_cur_leader := MinimumOpId \<rparr>
          \<and> current_term ?s' = new_term \<and> voted_for ?s' = None \<and> leader_uuid ?s' = []
          \<and> active_role ?s' \<noteq> LEADER"
    using b b1 s2 h active_role_no_leader [OF l] by simp
  then show "\<exists>s1 s'. (if active_role s = LEADER then BecomeReplicaUnlocked s else (OK, s)) = (OK, s1)
          \<and> (active_role s = LEADER \<longrightarrow> active_role s1 \<noteq> LEADER \<and> \<not> queue_leader_mode s1)
          \<and> current_term s1 = current_term s
          \<and> HandleTermAdvanceUnlocked new_term flush s = (OK, s')
          \<and> s' = (snd (SetCurrentTermUnlocked new_term flush s1))
                    \<lparr> last_received_cur_leader := MinimumOpId \<rparr>
          \<and> current_term s' = new_term \<and> voted_for s' = None \<and> leader_uuid s' = []
          \<and> active_role s' \<noteq> LEADER"
    by blast
qed

lemma example_leader_role: "active_role example_leader = LEADER"
  by (simp add: active_role_def example_leader_def GetConsensusRole_def ActiveConfig_def
      example_config_def)

theorem HandleTermAdvanceUnlocked_advance_witness:
  "active_role example_leader = LEADER
   \<and> current_term example_leader < 6
   \<and> HandleTermAdvanceUnlocked 5 FLUSH_TO_DISK example_leader = (IllegalState, example_leader)
   \<and> fst (HandleTermAdvanceUnlocked 6 FLUSH_TO_DISK example_leader) = OK
   \<and> current_term (snd (HandleTermAdvanceUnlocked 6 FLUSH_TO_DISK example_leader)) = 6
   \<and> voted_for (snd (HandleTermAdvanceUnlocked 6 FLUSH_TO_DISK example_leader)) = None
   \<and> leader_uuid (snd (HandleTermAdvanceUnlocked 6 FLUSH_TO_DISK example_leader)) = []
   \<and> \<not> queue_leader_mode (snd (HandleTermAdvanceUnlocked 6 FLUSH_TO_DISK example_leader))"
proof -
  have c: "current_term example_leader = 5" by (simp add: example_leader_def)
  show ?thesis
    using HandleTermAdvanceUnlocked_advance [of 5 example_leader FLUSH_TO_DISK]
      HandleTermAdvanceUnlocked_advance [of 6 example_leader FLUSH_TO_DISK]
      example_leader_role c
    by (auto simp: BecomeReplicaUnlocked_def SetCurrentTermUnlocked_def Let_def
        ClearLeaderUnlocked_def Flush_def)
qed

section \<open>Properties of elections\<close>


lemma HandleTermAdvanceUnlocked_term:
  "current_term s < new_term \<Longrightarrow>
     current_term (snd (HandleTermAdvanceUnlocked new_term flush s)) = new_term"
  by (simp add: HandleTermAdvanceUnlocked_def BecomeReplicaUnlocked_def
      SetCurrentTermUnlocked_def ClearLeaderUnlocked_def Flush_def Let_def)





section \<open>Properties of the follower update path\<close>

lemma HandleTermAdvanceUnlocked_reads:
  "state (snd (HandleTermAdvanceUnlocked nt fl s)) = state s
   \<and> pending (snd (HandleTermAdvanceUnlocked nt fl s)) = pending s
   \<and> queue_last_appended (snd (HandleTermAdvanceUnlocked nt fl s)) = queue_last_appended s"
  by (simp add: HandleTermAdvanceUnlocked_def BecomeReplicaUnlocked_def
      SetCurrentTermUnlocked_def ClearLeaderUnlocked_def Flush_def Let_def)

lemma HandleTermAdvanceUnlocked_ok:
  "current_term s < nt \<Longrightarrow>
     fst (HandleTermAdvanceUnlocked nt fl s) = OK
     \<and> current_term (snd (HandleTermAdvanceUnlocked nt fl s)) = nt"
  by (simp add: HandleTermAdvanceUnlocked_def BecomeReplicaUnlocked_def
      SetCurrentTermUnlocked_def ClearLeaderUnlocked_def Flush_def Let_def)

lemma HandleLeaderRequestTermUnlocked_later:
  assumes "current_term s < caller_term request"
  shows "HandleLeaderRequestTermUnlocked request response s
       = (OK, response, snd (HandleTermAdvanceUnlocked (caller_term request) FLUSH_TO_DISK s))"
  using assms HandleTermAdvanceUnlocked_ok [OF assms, of FLUSH_TO_DISK]
  by (simp add: HandleLeaderRequestTermUnlocked_def split_beta)

lemma HandleLeaderRequestTermUnlocked_same:
  "caller_term request = current_term s \<Longrightarrow>
     HandleLeaderRequestTermUnlocked request response s = (OK, response, s)"
  by (simp add: HandleLeaderRequestTermUnlocked_def)

lemma CheckLeaderRequestUnlocked_later:
  assumes "current_term s < caller_term request"
    and "\<not> has_deprecated_committed_index request \<and> has_all_replicated_index request"
    and "DeduplicateLeaderRequestUnlocked request d0 s = Some d"
    and "CheckLeaderRequest_sequence (preceding_opid d) (messages d) = OK"
  shows "CheckLeaderRequestUnlocked request response d0 s
       = CheckLeaderRequestUnlocked request response d0
           (snd (HandleTermAdvanceUnlocked (caller_term request) FLUSH_TO_DISK s))"
proof -
  let ?a = "snd (HandleTermAdvanceUnlocked (caller_term request) FLUSH_TO_DISK s)"
  have d: "DeduplicateLeaderRequestUnlocked request d0 ?a = Some d"
    using assms(3) HandleTermAdvanceUnlocked_reads [of "caller_term request" FLUSH_TO_DISK s]
    by (simp add: DeduplicateLeaderRequestUnlocked_def)
  have t: "caller_term request = current_term ?a"
    using HandleTermAdvanceUnlocked_ok [OF assms(1), of FLUSH_TO_DISK] by simp
  show ?thesis
    unfolding CheckLeaderRequestUnlocked_def
    using assms(2,3,4) d
    by (simp add: HandleLeaderRequestTermUnlocked_later [OF assms(1)]
        HandleLeaderRequestTermUnlocked_same [OF t])
qed

text \<open>
  C3, as amended. Follower update term handling. For every update request,
  \<^verbatim>\<open>HandleLeaderRequestTermUnlocked\<close> does this: when the term of the caller is below the
  current term, it puts the error INVALID\_TERM in the response and leaves the state, and
  with it the local term, unchanged; when the term of the caller is above the current
  term, it advances the term of the replica to it. \<^verbatim>\<open>UpdateReplica\<close> gets to that
  step for the requests that reach the term check: the replica is running, the request
  passes the version check, and its deduplicated operations are in sequence. For such a
  request of an earlier term it returns OK with the INVALID\_TERM response filled with the
  current term of the replica and leaves the state unchanged; for such a request of a
  later term it does what it does on the replica with the term advanced.
\<close>

theorem follower_update_term_handling:
  "(caller_term request < current_term s \<longrightarrow>
      HandleLeaderRequestTermUnlocked request response s
        = (OK, response \<lparr> status_error_code := Some INVALID_TERM,
                          status_error_status := Some IllegalState \<rparr>, s)
      \<and> (reaches_term_check request s \<longrightarrow>
           UpdateReplica withhold_until request response s
             = Some (Returned OK
                  (response \<lparr> status_error_code := Some INVALID_TERM,
                              status_error_status := Some IllegalState,
                              update_responder_term := Some (current_term s),
                              status_last_received := Some (queue_last_appended s),
                              status_last_received_current_leader :=
                                Some (last_received_cur_leader s),
                              status_last_committed_idx := Some (queue_committed_index s) \<rparr>)
                  s)))
 \<and> (current_term s < caller_term request \<longrightarrow>
      (\<exists>s'. HandleLeaderRequestTermUnlocked request response s = (OK, response, s')
          \<and> s' = snd (HandleTermAdvanceUnlocked (caller_term request) FLUSH_TO_DISK s)
          \<and> current_term s' = caller_term request)
      \<and> (reaches_term_check request s \<longrightarrow>
           UpdateReplica withhold_until request response s
             = UpdateReplica withhold_until request response
                 (snd (HandleTermAdvanceUnlocked (caller_term request) FLUSH_TO_DISK s))))"
proof (intro conjI impI)
  assume lt: "caller_term request < current_term s"
  show h: "HandleLeaderRequestTermUnlocked request response s
        = (OK, response \<lparr> status_error_code := Some INVALID_TERM,
                          status_error_status := Some IllegalState \<rparr>, s)"
    using lt by (simp add: HandleLeaderRequestTermUnlocked_def FillConsensusResponseError_def)
  assume r: "reaches_term_check request s"
  show "UpdateReplica withhold_until request response s
             = Some (Returned OK
                  (response \<lparr> status_error_code := Some INVALID_TERM,
                              status_error_status := Some IllegalState,
                              update_responder_term := Some (current_term s),
                              status_last_received := Some (queue_last_appended s),
                              status_last_received_current_leader :=
                                Some (last_received_cur_leader s),
                              status_last_committed_idx := Some (queue_committed_index s) \<rparr>)
                  s)"
    using r h
    by (auto simp: reaches_term_check_def UpdateReplica_def CheckRunningUnlocked_def
        CheckLeaderRequestUnlocked_def FillConsensusResponseOKUnlocked_def
        split: option.splits)
next
  assume gt: "current_term s < caller_term request"
  show "\<exists>s'. HandleLeaderRequestTermUnlocked request response s = (OK, response, s')
          \<and> s' = snd (HandleTermAdvanceUnlocked (caller_term request) FLUSH_TO_DISK s)
          \<and> current_term s' = caller_term request"
    using HandleLeaderRequestTermUnlocked_later [OF gt]
      HandleTermAdvanceUnlocked_ok [OF gt, of FLUSH_TO_DISK] by simp
  assume r: "reaches_term_check request s"
  let ?d0 = "\<lparr> request_leader_uuid = caller_uuid request, preceding_opid = MinimumOpId,
                messages = [], first_message_idx = - 1 \<rparr>"
  from r obtain d where d: "DeduplicateLeaderRequestUnlocked request ?d0 s = Some d"
    "CheckLeaderRequest_sequence (preceding_opid d) (messages d) = OK"
    by (auto simp: reaches_term_check_def split: option.splits)
  from r have f: "\<not> has_deprecated_committed_index request \<and> has_all_replicated_index request"
    and running: "state s = kRunning"
    by (simp_all add: reaches_term_check_def)
  show "UpdateReplica withhold_until request response s
             = UpdateReplica withhold_until request response
                 (snd (HandleTermAdvanceUnlocked (caller_term request) FLUSH_TO_DISK s))"
    unfolding UpdateReplica_def
    using CheckLeaderRequestUnlocked_later [OF gt f d, of response] running
      HandleTermAdvanceUnlocked_reads [of "caller_term request" FLUSH_TO_DISK s]
    by (simp add: CheckRunningUnlocked_def)
qed

theorem follower_update_term_handling_witness:
  "caller_term example_stale_request < current_term example_follower
   \<and> reaches_term_check example_stale_request example_follower
   \<and> UpdateReplica MonoTime_Max example_stale_request empty_response example_follower
       = Some (Returned OK
           \<lparr> update_responder_term = Some 5, status_error_code = Some INVALID_TERM,
             status_error_status = Some IllegalState,
             status_last_received = Some \<lparr> op_term = 4, op_index = 10 \<rparr>,
             status_last_received_current_leader = Some MinimumOpId,
             status_last_committed_idx = Some 10 \<rparr>
           example_follower)
   \<and> current_term example_follower < caller_term (example_stale_request \<lparr> caller_term := 6 \<rparr>)
   \<and> reaches_term_check (example_stale_request \<lparr> caller_term := 6 \<rparr>) example_follower
   \<and> current_term (snd (snd (HandleLeaderRequestTermUnlocked
         (example_stale_request \<lparr> caller_term := 6 \<rparr>) empty_response example_follower))) = 6"
proof -
  have a: "caller_term example_stale_request < current_term example_follower"
    by (simp add: example_stale_request_def example_follower_def example_leader_def)
  have b: "current_term example_follower < caller_term (example_stale_request \<lparr> caller_term := 6 \<rparr>)"
    by (simp add: example_follower_def example_leader_def)
  have r: "reaches_term_check example_stale_request example_follower"
    "reaches_term_check (example_stale_request \<lparr> caller_term := 6 \<rparr>) example_follower"
    by (simp_all add: reaches_term_check_def example_stale_request_def example_follower_def
        example_leader_def DeduplicateLeaderRequestUnlocked_def)
  have v: "current_term example_follower = 5"
    "queue_last_appended example_follower = \<lparr> op_term = 4, op_index = 10 \<rparr>"
    "last_received_cur_leader example_follower = MinimumOpId"
    "queue_committed_index example_follower = 10"
    by (simp_all add: example_follower_def example_leader_def)
  show ?thesis
    using a b r v
      follower_update_term_handling [of example_stale_request example_follower empty_response
        MonoTime_Max]
      follower_update_term_handling [of "example_stale_request \<lparr> caller_term := 6 \<rparr>"
        example_follower empty_response MonoTime_Max]
    by (auto simp: empty_response_def)
qed

text \<open>
  C3 as stated does not hold for every update request: the running follower at term 5
  gets a request of term 4 that carries the deprecated committed index. The version check
  of \<^verbatim>\<open>CheckLeaderRequestUnlocked\<close> comes before the term check, and the call returns
  InvalidArgument with the response as it was given: no INVALID\_TERM error and no
  responder term.
\<close>

theorem stale_term_update_counterexample:
  "caller_term (example_stale_request \<lparr> has_deprecated_committed_index := True \<rparr>)
     < current_term example_follower
   \<and> state example_follower = kRunning
   \<and> UpdateReplica MonoTime_Max
        (example_stale_request \<lparr> has_deprecated_committed_index := True \<rparr>)
        empty_response example_follower
     = Some (Returned InvalidArgument empty_response example_follower)
   \<and> status_error_code empty_response = None
   \<and> update_responder_term empty_response = None"
  by (simp add: UpdateReplica_def CheckRunningUnlocked_def CheckLeaderRequestUnlocked_def
      example_stale_request_def example_follower_def example_leader_def empty_response_def)

lemma AdvanceCommittedIndex_rounds_reaches:
  "contiguous_from c rs \<Longrightarrow> op_index lc = c \<Longrightarrow> c \<le> idx \<Longrightarrow> idx \<le> c + int (length rs) \<Longrightarrow>
     op_index (fst (AdvanceCommittedIndex_rounds idx lc rs)) = idx"
proof (induction rs arbitrary: c lc)
  case Nil
  then show ?case by simp
next
  case (Cons r rs)
  show ?case
  proof (cases "op_index r \<le> idx")
    case True
    from Cons.prems have "contiguous_from (c + 1) rs" "op_index r = c + 1" by simp_all
    moreover from True \<open>op_index r = c + 1\<close> have "c + 1 \<le> idx" by simp
    moreover from Cons.prems have "idx \<le> (c + 1) + int (length rs)" by simp
    ultimately have "op_index (fst (AdvanceCommittedIndex_rounds idx r rs)) = idx"
      using Cons.IH [of "c + 1" r] by simp
    with True show ?thesis by simp
  next
    case False
    with Cons.prems have "idx = c" by simp
    with False Cons.prems show ?thesis by simp
  qed
qed

lemma contiguous_from_last:
  "contiguous_from c rs \<Longrightarrow> rs \<noteq> [] \<Longrightarrow> op_index (last rs) = c + int (length rs)"
  by (induction rs arbitrary: c) auto

lemma AdvanceCommittedIndex_max:
  assumes "pending_rounds_ok p"
    and "idx \<le> op_index (GetLastPendingTransactionOpId p)"
  shows "fst (AdvanceCommittedIndex idx p) = OK
       \<and> GetCommittedIndex (snd (AdvanceCommittedIndex idx p)) = max (GetCommittedIndex p) idx"
proof (cases "idx \<le> GetCommittedIndex p")
  case True
  then show ?thesis by (simp add: AdvanceCommittedIndex_def)
next
  case False
  let ?c = "GetCommittedIndex p"
  from assms(1) have c0: "0 \<le> ?c" and cont: "contiguous_from ?c (pending_txns p)"
    by (simp_all add: pending_rounds_ok_def)
  have ne: "pending_txns p \<noteq> []"
  proof
    assume "pending_txns p = []"
    with assms(2) have "idx \<le> 0"
      by (simp add: GetLastPendingTransactionOpId_def MinimumOpId_def)
    with False c0 show False by simp
  qed
  with assms(2) contiguous_from_last [OF cont]
  have le: "idx \<le> ?c + int (length (pending_txns p))"
    by (simp add: GetLastPendingTransactionOpId_def)
  have "op_index (fst (AdvanceCommittedIndex_rounds idx (last_committed_op_id p) (pending_txns p)))
          = idx"
    using AdvanceCommittedIndex_rounds_reaches [OF cont _ _ le, of "last_committed_op_id p"] False
    by (simp add: GetCommittedIndex_def)
  with False show ?thesis
    by (simp add: AdvanceCommittedIndex_def GetCommittedIndex_def split_beta)
qed

lemma filter_contiguous_above:
  "contiguous_from c rs \<Longrightarrow> idx \<le> c \<Longrightarrow> filter (\<lambda>r. op_index r \<le> idx) rs = []"
  by (induction rs arbitrary: c) auto

lemma contiguous_from_filter:
  "contiguous_from c rs \<Longrightarrow> contiguous_from c (filter (\<lambda>r. op_index r \<le> idx) rs)"
proof (induction rs arbitrary: c)
  case Nil
  then show ?case by simp
next
  case (Cons r rs)
  then have r: "op_index r = c + 1" and rest: "contiguous_from (c + 1) rs" by simp_all
  show ?case
  proof (cases "op_index r \<le> idx")
    case True
    with r Cons.IH [OF rest] show ?thesis by simp
  next
    case False
    with r have "idx \<le> c + 1" by simp
    from filter_contiguous_above [OF rest this] False show ?thesis by simp
  qed
qed

lemma AbortOpsAfter_ok:
  "pending_rounds_ok p \<Longrightarrow> pending_rounds_ok (AbortOpsAfter idx p)
     \<and> GetCommittedIndex (AbortOpsAfter idx p) = GetCommittedIndex p"
  by (simp add: pending_rounds_ok_def AbortOpsAfter_def GetCommittedIndex_def
      contiguous_from_filter)

lemma HandleLeaderRequestTermUnlocked_pending:
  "pending (snd (snd (HandleLeaderRequestTermUnlocked request response s))) = pending s"
  using HandleTermAdvanceUnlocked_reads [of "caller_term request" FLUSH_TO_DISK s]
  by (simp add: HandleLeaderRequestTermUnlocked_def split_beta)

lemma EnforceLogMatchingPropertyMatchesUnlocked_no_error:
  assumes "EnforceLogMatchingPropertyMatchesUnlocked d r s = (st, r2, s2)"
    and "status_error_code r2 = None"
  shows "s2 = s"
  using assms
  by (auto simp: EnforceLogMatchingPropertyMatchesUnlocked_def FillConsensusResponseError_def
      split: prod.splits if_splits)

lemma CheckLeaderRequestUnlocked_accepted:
  assumes "CheckLeaderRequestUnlocked request response d0 s = Some (OK, response', d, sc)"
    and "status_error_code response' = None"
  shows "DeduplicateLeaderRequestUnlocked request d0 s = Some d
       \<and> (pending sc = pending s
          \<or> pending sc = AbortOpsAfter (op_index (preceding_opid d)) (pending s))"
proof -
  from assms(1) have v: "\<not> (has_deprecated_committed_index request
      \<or> \<not> has_all_replicated_index request)"
    by (auto simp: CheckLeaderRequestUnlocked_def split: if_splits)
  from assms(1) v obtain dd where dd: "DeduplicateLeaderRequestUnlocked request d0 s = Some dd"
    by (auto simp: CheckLeaderRequestUnlocked_def split: option.splits)
  obtain st1 r1 s1 where h: "HandleLeaderRequestTermUnlocked request response s = (st1, r1, s1)"
    by (cases "HandleLeaderRequestTermUnlocked request response s") auto
  from HandleLeaderRequestTermUnlocked_pending [of request response s] h
  have p1: "pending s1 = pending s" by simp
  obtain st2 r2 s2 where e: "EnforceLogMatchingPropertyMatchesUnlocked dd r1 s1 = (st2, r2, s2)"
    by (cases "EnforceLogMatchingPropertyMatchesUnlocked dd r1 s1") auto
  note n = EnforceLogMatchingPropertyMatchesUnlocked_no_error [OF e]
  from assms v dd h e p1 n show ?thesis
    by (auto simp: CheckLeaderRequestUnlocked_def Let_def TruncateAndAbortOpsAfterUnlocked_def
        SetLeaderUuidUnlocked_def
        split: if_splits list.splits prod.splits option.splits)
qed


lemma UpdateReplica_EarlyCommitted_check:
  assumes "UpdateReplica withhold_until request response s0
             = Some (EarlyCommitted response' d s1)"
  shows "\<exists>sc. CheckLeaderRequestUnlocked request response
                \<lparr> request_leader_uuid = caller_uuid request, preceding_opid = MinimumOpId,
                  messages = [], first_message_idx = - 1 \<rparr> s0
              = Some (OK, response', d, sc)
            \<and> status_error_code response' = None
            \<and> pending s1
                = snd (AdvanceCommittedIndex (early_apply_up_to d request sc) (pending sc))"
  using assms
  by (fastforce simp: UpdateReplica_def Let_def UpdateReplica_early_commit_def
      early_apply_up_to_def
      split: if_splits option.splits prod.splits)

lemma UpdateReplica_accepted:
  assumes "CheckRunningUnlocked s0 = OK"
    and "CheckLeaderRequestUnlocked request response
                \<lparr> request_leader_uuid = caller_uuid request, preceding_opid = MinimumOpId,
                  messages = [], first_message_idx = - 1 \<rparr> s0
              = Some (OK, response', d, sc)"
    and "status_error_code response' = None"
  shows "\<exists>s1. UpdateReplica withhold_until request response s0
             = Some (EarlyCommitted response' d s1)"
  using assms
  by (simp add: UpdateReplica_def Let_def UpdateReplica_early_commit_def
      AdvanceCommittedIndex_def split_beta)

text \<open>
  C4, as amended. Every leader update that is accepted (the replica is running, and
  \<^verbatim>\<open>CheckLeaderRequestUnlocked\<close> returns OK with no error in the response) gets to the
  early commit, which comes before any operation is enqueued. There the request in hand is
  the deduplicated one, and the pending rounds \<open>p\<close> are those of the replica before the
  update, or those with the rounds after the preceding index of the deduplicated request
  aborted. The pending rounds are asked to advance the committed index to exactly the
  minimum of the index of the last pending operation of \<open>p\<close>, the index of the preceding
  OpId of the deduplicated request and the committed index of the caller. The advance is
  monotone: with the pending rounds contiguous after the committed index before the
  update, the committed index afterwards is the greater of its value before the update
  and that minimum.
\<close>

theorem early_commit_monotone:
  "(CheckRunningUnlocked s0 = OK
    \<and> CheckLeaderRequestUnlocked request response
         \<lparr> request_leader_uuid = caller_uuid request, preceding_opid = MinimumOpId,
           messages = [], first_message_idx = - 1 \<rparr> s0
       = Some (OK, response', d, sc)
    \<and> status_error_code response' = None \<longrightarrow>
      (\<exists>s1. UpdateReplica withhold_until request response s0
               = Some (EarlyCommitted response' d s1)))
 \<and> (UpdateReplica withhold_until request response s0 = Some (EarlyCommitted response' d s1)
    \<and> pending_rounds_ok (pending s0) \<longrightarrow>
      DeduplicateLeaderRequestUnlocked request
          \<lparr> request_leader_uuid = caller_uuid request, preceding_opid = MinimumOpId,
            messages = [], first_message_idx = - 1 \<rparr> s0 = Some d
      \<and> (\<exists>p. (p = pending s0
                \<or> p = AbortOpsAfter (op_index (preceding_opid d)) (pending s0))
             \<and> pending s1
                 = snd (AdvanceCommittedIndex
                     (Min {op_index (GetLastPendingTransactionOpId p),
                           op_index (preceding_opid d), committed_index request}) p)
             \<and> GetCommittedIndex (pending s1)
                 = max (GetCommittedIndex (pending s0))
                     (Min {op_index (GetLastPendingTransactionOpId p),
                           op_index (preceding_opid d), committed_index request})))"
proof -
  let ?d0 = "\<lparr> request_leader_uuid = caller_uuid request, preceding_opid = MinimumOpId,
                messages = [], first_message_idx = - 1 \<rparr>"
  have a: "CheckRunningUnlocked s0 = OK
    \<and> CheckLeaderRequestUnlocked request response ?d0 s0 = Some (OK, response', d, sc)
    \<and> status_error_code response' = None \<longrightarrow>
      (\<exists>s1. UpdateReplica withhold_until request response s0
               = Some (EarlyCommitted response' d s1))"
    using UpdateReplica_accepted [of s0 request response response' d sc withhold_until]
    by blast
  have b: "UpdateReplica withhold_until request response s0
             = Some (EarlyCommitted response' d s1)
    \<and> pending_rounds_ok (pending s0) \<longrightarrow>
      DeduplicateLeaderRequestUnlocked request ?d0 s0 = Some d
      \<and> (\<exists>p. (p = pending s0
                \<or> p = AbortOpsAfter (op_index (preceding_opid d)) (pending s0))
             \<and> pending s1
                 = snd (AdvanceCommittedIndex
                     (Min {op_index (GetLastPendingTransactionOpId p),
                           op_index (preceding_opid d), committed_index request}) p)
             \<and> GetCommittedIndex (pending s1)
                 = max (GetCommittedIndex (pending s0))
                     (Min {op_index (GetLastPendingTransactionOpId p),
                           op_index (preceding_opid d), committed_index request}))"
  proof
    assume h: "UpdateReplica withhold_until request response s0
                 = Some (EarlyCommitted response' d s1)
               \<and> pending_rounds_ok (pending s0)"
    then have ok: "pending_rounds_ok (pending s0)" by simp
    from h UpdateReplica_EarlyCommitted_check [of withhold_until request response s0 response' d s1]
    obtain sc' where c: "CheckLeaderRequestUnlocked request response ?d0 s0
                           = Some (OK, response', d, sc')"
      and ne: "status_error_code response' = None"
      and p1: "pending s1
                = snd (AdvanceCommittedIndex (early_apply_up_to d request sc') (pending sc'))"
      by blast
    note acc = CheckLeaderRequestUnlocked_accepted [OF c ne]
    let ?p = "pending sc'"
    let ?t = "Min {op_index (GetLastPendingTransactionOpId ?p),
                   op_index (preceding_opid d), committed_index request}"
    have t: "early_apply_up_to d request sc' = ?t" by (simp add: early_apply_up_to_def)
    from acc have cases: "?p = pending s0
        \<or> ?p = AbortOpsAfter (op_index (preceding_opid d)) (pending s0)" by simp
    with ok AbortOpsAfter_ok [OF ok, of "op_index (preceding_opid d)"]
    have okp: "pending_rounds_ok ?p" and ci: "GetCommittedIndex ?p = GetCommittedIndex (pending s0)"
      by auto
    have le: "?t \<le> op_index (GetLastPendingTransactionOpId ?p)" by simp
    from AdvanceCommittedIndex_max [OF okp le] p1 t ci
    have m: "GetCommittedIndex (pending s1) = max (GetCommittedIndex (pending s0)) ?t"
      by simp
    from p1 t have p2: "pending s1 = snd (AdvanceCommittedIndex ?t ?p)" by simp
    from cases p2 m have "\<exists>p. (p = pending s0
                \<or> p = AbortOpsAfter (op_index (preceding_opid d)) (pending s0))
             \<and> pending s1
                 = snd (AdvanceCommittedIndex
                     (Min {op_index (GetLastPendingTransactionOpId p),
                           op_index (preceding_opid d), committed_index request}) p)
             \<and> GetCommittedIndex (pending s1)
                 = max (GetCommittedIndex (pending s0))
                     (Min {op_index (GetLastPendingTransactionOpId p),
                           op_index (preceding_opid d), committed_index request})"
      by blast
    with acc show "DeduplicateLeaderRequestUnlocked request ?d0 s0 = Some d
      \<and> (\<exists>p. (p = pending s0
                \<or> p = AbortOpsAfter (op_index (preceding_opid d)) (pending s0))
             \<and> pending s1
                 = snd (AdvanceCommittedIndex
                     (Min {op_index (GetLastPendingTransactionOpId p),
                           op_index (preceding_opid d), committed_index request}) p)
             \<and> GetCommittedIndex (pending s1)
                 = max (GetCommittedIndex (pending s0))
                     (Min {op_index (GetLastPendingTransactionOpId p),
                           op_index (preceding_opid d), committed_index request}))"
      by simp
  qed
  from a b show ?thesis by (intro conjI)
qed

lemma example_heartbeat_update:
  "UpdateReplica MonoTime_Max example_heartbeat empty_response example_follower_pending
     = Some (EarlyCommitted empty_response
         \<lparr> request_leader_uuid = ''b'', preceding_opid = \<lparr> op_term = 5, op_index = 11 \<rparr>,
           messages = [], first_message_idx = - 1 \<rparr>
         (example_follower_pending \<lparr> withhold_votes_until := MonoTime_Max \<rparr>))"
  by (simp add: UpdateReplica_def CheckRunningUnlocked_def CheckLeaderRequestUnlocked_def
      DeduplicateLeaderRequestUnlocked_def HandleLeaderRequestTermUnlocked_def
      EnforceLogMatchingPropertyMatchesUnlocked_def IsOpCommittedOrPending_def
      GetCommittedIndex_def GetPendingOpByIndexOrNull_def UpdateReplica_early_commit_def
      early_apply_up_to_def GetLastPendingTransactionOpId_def AdvanceCommittedIndex_def
      example_heartbeat_def example_follower_pending_def example_follower_def
      example_leader_def empty_response_def)

lemma example_heartbeat_commit_update:
  "UpdateReplica MonoTime_Max (example_heartbeat \<lparr> committed_index := 11 \<rparr>) empty_response
       example_follower_pending
     = Some (EarlyCommitted empty_response
         \<lparr> request_leader_uuid = ''b'', preceding_opid = \<lparr> op_term = 5, op_index = 11 \<rparr>,
           messages = [], first_message_idx = - 1 \<rparr>
         (example_follower_pending
            \<lparr> withhold_votes_until := MonoTime_Max,
              pending := \<lparr> last_committed_op_id = \<lparr> op_term = 5, op_index = 11 \<rparr>,
                           pending_txns = [] \<rparr> \<rparr>))"
  by (simp add: UpdateReplica_def CheckRunningUnlocked_def CheckLeaderRequestUnlocked_def
      DeduplicateLeaderRequestUnlocked_def HandleLeaderRequestTermUnlocked_def
      EnforceLogMatchingPropertyMatchesUnlocked_def IsOpCommittedOrPending_def
      GetCommittedIndex_def GetPendingOpByIndexOrNull_def UpdateReplica_early_commit_def
      early_apply_up_to_def GetLastPendingTransactionOpId_def AdvanceCommittedIndex_def
      example_heartbeat_def example_follower_pending_def example_follower_def
      example_leader_def empty_response_def)

theorem early_commit_monotone_witness:
  "pending_rounds_ok (pending example_follower_pending)
   \<and> GetCommittedIndex (pending example_follower_pending) = 10
   \<and> UpdateReplica MonoTime_Max (example_heartbeat \<lparr> committed_index := 11 \<rparr>) empty_response
       example_follower_pending
     = Some (EarlyCommitted empty_response
         \<lparr> request_leader_uuid = ''b'', preceding_opid = \<lparr> op_term = 5, op_index = 11 \<rparr>,
           messages = [], first_message_idx = - 1 \<rparr>
         (example_follower_pending
            \<lparr> withhold_votes_until := MonoTime_Max,
              pending := \<lparr> last_committed_op_id = \<lparr> op_term = 5, op_index = 11 \<rparr>,
                           pending_txns = [] \<rparr> \<rparr>))
   \<and> DeduplicateLeaderRequestUnlocked (example_heartbeat \<lparr> committed_index := 11 \<rparr>)
        \<lparr> request_leader_uuid = ''b'', preceding_opid = MinimumOpId,
          messages = [], first_message_idx = - 1 \<rparr> example_follower_pending
     = Some \<lparr> request_leader_uuid = ''b'', preceding_opid = \<lparr> op_term = 5, op_index = 11 \<rparr>,
              messages = [], first_message_idx = - 1 \<rparr>
   \<and> GetCommittedIndex
        (pending (example_follower_pending
            \<lparr> withhold_votes_until := MonoTime_Max,
              pending := \<lparr> last_committed_op_id = \<lparr> op_term = 5, op_index = 11 \<rparr>,
                           pending_txns = [] \<rparr> \<rparr>))
     = max 10 (Min {11, 11, 11})"
proof -
  let ?d = "\<lparr> request_leader_uuid = ''b'', preceding_opid = \<lparr> op_term = 5, op_index = 11 \<rparr>,
              messages = [], first_message_idx = - 1 \<rparr>"
  let ?r = "example_heartbeat \<lparr> committed_index := 11 \<rparr>"
  let ?s1 = "example_follower_pending
            \<lparr> withhold_votes_until := MonoTime_Max,
              pending := \<lparr> last_committed_op_id = \<lparr> op_term = 5, op_index = 11 \<rparr>,
                           pending_txns = [] \<rparr> \<rparr>"
  have ok: "pending_rounds_ok (pending example_follower_pending)"
    by (simp add: pending_rounds_ok_def GetCommittedIndex_def example_follower_pending_def
        example_follower_def example_leader_def)
  have c: "GetCommittedIndex (pending example_follower_pending) = 10"
    by (simp add: GetCommittedIndex_def example_follower_pending_def example_follower_def
        example_leader_def)
  have u: "caller_uuid ?r = ''b''" by (simp add: example_heartbeat_def)
  note m = early_commit_monotone [of example_follower_pending ?r empty_response
      empty_response ?d example_follower_pending MonoTime_Max ?s1]
  from m example_heartbeat_commit_update ok
  have d: "DeduplicateLeaderRequestUnlocked ?r
        \<lparr> request_leader_uuid = caller_uuid ?r, preceding_opid = MinimumOpId,
          messages = [], first_message_idx = - 1 \<rparr> example_follower_pending = Some ?d"
    by blast
  have g: "GetCommittedIndex (pending ?s1) = max 10 (Min {11, 11, 11})"
    by (simp add: GetCommittedIndex_def)
  from ok c example_heartbeat_commit_update d u g show ?thesis by simp
qed

text \<open>
  C4 as stated does not hold: the follower has committed index 10 and the request of its
  leader is accepted with the minimum 8 (the committed index of the leader); the
  committed index of the follower is 10 afterwards, not 8.
\<close>

theorem early_commit_exactly_min_counterexample:
  "UpdateReplica MonoTime_Max example_heartbeat empty_response example_follower_pending
     = Some (EarlyCommitted empty_response
         \<lparr> request_leader_uuid = ''b'', preceding_opid = \<lparr> op_term = 5, op_index = 11 \<rparr>,
           messages = [], first_message_idx = - 1 \<rparr>
         (example_follower_pending \<lparr> withhold_votes_until := MonoTime_Max \<rparr>))
   \<and> early_apply_up_to
        \<lparr> request_leader_uuid = ''b'', preceding_opid = \<lparr> op_term = 5, op_index = 11 \<rparr>,
          messages = [], first_message_idx = - 1 \<rparr>
        example_heartbeat example_follower_pending = 8
   \<and> GetCommittedIndex (pending example_follower_pending) = 10
   \<and> GetCommittedIndex
        (pending (example_follower_pending \<lparr> withhold_votes_until := MonoTime_Max \<rparr>)) = 10"
  using example_heartbeat_update
  by (simp add: early_apply_up_to_def GetLastPendingTransactionOpId_def GetCommittedIndex_def
      example_heartbeat_def example_follower_pending_def example_follower_def
      example_leader_def)

section \<open>Properties of pre-elections\<close>

lemma HandleTermAdvanceUnlocked_skip_flush:
  "current_term s < nt \<Longrightarrow>
     HandleTermAdvanceUnlocked nt SKIP_FLUSH_TO_DISK s
       = (OK, snd (HandleTermAdvanceUnlocked nt SKIP_FLUSH_TO_DISK s))
     \<and> current_term (snd (HandleTermAdvanceUnlocked nt SKIP_FLUSH_TO_DISK s)) = nt
     \<and> voted_for (snd (HandleTermAdvanceUnlocked nt SKIP_FLUSH_TO_DISK s)) = None
     \<and> flushed (snd (HandleTermAdvanceUnlocked nt SKIP_FLUSH_TO_DISK s)) = flushed s
     \<and> peer_uuid (snd (HandleTermAdvanceUnlocked nt SKIP_FLUSH_TO_DISK s)) = peer_uuid s"
  by (simp add: HandleTermAdvanceUnlocked_def BecomeReplicaUnlocked_def
      SetCurrentTermUnlocked_def ClearLeaderUnlocked_def Let_def)

lemma int64_id: "INT64_MIN \<le> x \<Longrightarrow> x \<le> INT64_MAX \<Longrightarrow> int64 x = x"
  by (simp add: int64_def INT64_MIN_def INT64_MAX_def)

lemma int64_succ: "INT64_MIN \<le> x \<Longrightarrow> x < INT64_MAX \<Longrightarrow> int64 (x + 1) = x + 1"
  by (simp add: int64_id INT64_MIN_def INT64_MAX_def)

lemma HandleTermAdvanceUnlocked_refused:
  "\<not> current_term s < nt \<Longrightarrow> HandleTermAdvanceUnlocked nt fl s = (IllegalState, s)"
  by (simp add: HandleTermAdvanceUnlocked_def)

lemma StartElection_pre:
  assumes "StartElection M env PRE_ELECTION s = Some (st, s', el)"
  shows "s' = s \<and> (\<forall>e. el = Some e \<longrightarrow>
           st = OK \<and> candidate_term (election_request e) = int64 (current_term s + 1)
           \<and> is_pre_election (election_request e))"
  using assms
  by (auto simp: StartElection_def Let_def split: if_splits option.splits prod.splits)

lemma HandleTermAdvanceUnlocked_advanced:
  "current_term s < nt \<Longrightarrow> HandleTermAdvanceUnlocked nt fl s = (OK, advanced nt fl s)"
  using HandleTermAdvanceUnlocked_ok [of s nt fl]
  by (simp add: advanced_def prod_eq_iff)

lemma StartElection_real:
  assumes "StartElection M env NORMAL_ELECTION s = Some (st, s', Some e)"
  shows "st = OK \<and> current_term s < int64 (current_term s + 1)
       \<and> current_term s' = int64 (current_term s + 1)
       \<and> voted_for s' = Some (peer_uuid s)
       \<and> flushed s' = (int64 (current_term s + 1), Some (peer_uuid s)) # flushed s
       \<and> candidate_term (election_request e) = int64 (current_term s + 1)
       \<and> \<not> is_pre_election (election_request e)"
proof (cases "current_term s < int64 (current_term s + 1)")
  case lt: True
  note a = HandleTermAdvanceUnlocked_skip_flush [OF lt, folded advanced_def]
  note h = HandleTermAdvanceUnlocked_advanced [OF lt, of SKIP_FLUSH_TO_DISK]
  show ?thesis
    using assms a lt
    by (auto simp: StartElection_def Let_def h SetVotedForCurrentTermUnlocked_def Flush_def
        split: if_splits option.splits prod.splits)
next
  case False
  note h = HandleTermAdvanceUnlocked_refused [OF False, of SKIP_FLUSH_TO_DISK]
  from assms have False
    by (auto simp: StartElection_def Let_def h split: if_splits)
  then show ?thesis ..
qed

lemma DoElectionCallback_starts_election:
  assumes "DoElectionCallback M V env r s = Some (s', Some e)"
  shows "is_pre_election (vote_request r) \<and> decision r = VOTE_GRANTED
       \<and> int64 (candidate_term (vote_request r) - 1) = current_term s
       \<and> StartElection M env NORMAL_ELECTION s = Some (OK, s', Some e)"
proof -
  from assms have g: "decision r = VOTE_GRANTED"
    by (cases "decision r") (auto simp: DoElectionCallback_def Let_def split: if_splits)
  from assms g obtain st where
    "is_pre_election (vote_request r)"
    "int64 (candidate_term (vote_request r) - 1) = current_term s"
    "StartElection M env NORMAL_ELECTION s = Some (st, s', Some e)"
    by (auto simp: DoElectionCallback_def Let_def
        split: if_splits option.splits prod.splits)
  with StartElection_real [of M env s st s' e] g show ?thesis by simp
qed

lemma DoElectionCallback_pre_election_won:
  assumes "is_pre_election (vote_request r)" "decision r = VOTE_GRANTED"
    "state s = kRunning" "int64 (candidate_term (vote_request r) - 1) = current_term s"
    "IsRaftConfigVoter (peer_uuid s) (ActiveConfig s)" "active_role s \<noteq> LEADER"
  shows "DoElectionCallback M V env r s
       = map_option (\<lambda>(st, s2, el). (s2, el)) (StartElection M env NORMAL_ELECTION s)"
  using assms
  by (auto simp: DoElectionCallback_def Let_def CheckRunningUnlocked_def split: option.splits)

lemma RequestVote_pre_election:
  assumes "is_pre_election request" "RequestVote venv request response s = (st, response', s')"
  shows "s' = s"
  using assms
  by (auto simp: RequestVote_def Let_def RequestVoteRespondIsBusy_def
        RequestVoteRespondVoteWitheld_def RequestVoteRespondLeaderIsAlive_def
        RequestVoteRespondInvalidTerm_def RequestVoteRespondVoteAlreadyGranted_def
        RequestVoteRespondAlreadyVotedForOther_def RequestVoteRespondLastOpIdTooOld_def
        RequestVoteRespondVoteGranted_def
        split: if_splits sum.splits)

text \<open>
  C6. A pre-election does not persist state. \<^verbatim>\<open>StartElection\<close> in PRE\_ELECTION mode
  leaves the state of the candidate as it is (term, vote and what is on disk included),
  and the election it creates asks for votes for the current term plus one, marked as a
  pre-election. \<^verbatim>\<open>DoElectionCallback\<close> starts an election only on the granted result
  of a pre-election, and that election is a real one, started by \<^verbatim>\<open>StartElection\<close>
  in NORMAL\_ELECTION mode, which advances the term by one and persists the vote of the
  candidate for itself; a granted pre-election for the next term on a running voter that
  is not the leader does start it. On the voter side, \<^verbatim>\<open>RequestVote\<close> on a pre-election
  request leaves the state of the voter as it is, whatever the answer: the vote is
  written for requests that are not pre-elections only. The term plus one is the
  \<^verbatim>\<open>int64_t\<close> sum of the source: it is the successor of the term for every term below
  the greatest \<^verbatim>\<open>int64_t\<close>, and at the greatest one it wraps, no real election is started
  (the term would not advance) and the state is left as it is.
\<close>

theorem pre_election_does_not_persist:
  "(StartElection M env PRE_ELECTION s = Some (st, s', el) \<longrightarrow>
      s' = s \<and> (\<forall>e. el = Some e \<longrightarrow>
                   candidate_term (election_request e) = int64 (current_term s + 1)
                   \<and> is_pre_election (election_request e)))
 \<and> (DoElectionCallback M V env r s = Some (s2, Some e) \<longrightarrow>
      is_pre_election (vote_request r) \<and> decision r = VOTE_GRANTED
      \<and> StartElection M env NORMAL_ELECTION s = Some (OK, s2, Some e)
      \<and> \<not> is_pre_election (election_request e)
      \<and> candidate_term (election_request e) = int64 (current_term s + 1)
      \<and> current_term s2 = int64 (current_term s + 1)
      \<and> current_term s < current_term s2
      \<and> voted_for s2 = Some (peer_uuid s)
      \<and> flushed s2 = (current_term s2, Some (peer_uuid s)) # flushed s)
 \<and> (is_pre_election (vote_request r) \<and> decision r = VOTE_GRANTED \<and> state s = kRunning
      \<and> int64 (candidate_term (vote_request r) - 1) = current_term s
      \<and> IsRaftConfigVoter (peer_uuid s) (ActiveConfig s) \<and> active_role s \<noteq> LEADER \<longrightarrow>
      DoElectionCallback M V env r s
        = map_option (\<lambda>(st, s2, el). (s2, el)) (StartElection M env NORMAL_ELECTION s))
 \<and> (is_pre_election request \<and> RequestVote venv request response s = (vst, response', vs') \<longrightarrow>
      vs' = s)
 \<and> (INT64_MIN \<le> current_term s \<and> current_term s < INT64_MAX \<longrightarrow>
      int64 (current_term s + 1) = current_term s + 1
      \<and> int64 (int64 (current_term s + 1) - 1) = current_term s)
 \<and> (current_term s = INT64_MAX \<longrightarrow>
      int64 (current_term s + 1) = INT64_MIN
      \<and> (\<forall>st2 s3 el2. StartElection M env NORMAL_ELECTION s = Some (st2, s3, el2) \<longrightarrow>
             s3 = s \<and> el2 = None))"
proof -
  have c1: "StartElection M env PRE_ELECTION s = Some (st, s', el) \<longrightarrow>
      s' = s \<and> (\<forall>e. el = Some e \<longrightarrow>
                   candidate_term (election_request e) = int64 (current_term s + 1)
                   \<and> is_pre_election (election_request e))"
    using StartElection_pre [of M env s st s' el] by blast
  have c2: "DoElectionCallback M V env r s = Some (s2, Some e) \<longrightarrow>
      is_pre_election (vote_request r) \<and> decision r = VOTE_GRANTED
      \<and> StartElection M env NORMAL_ELECTION s = Some (OK, s2, Some e)
      \<and> \<not> is_pre_election (election_request e)
      \<and> candidate_term (election_request e) = int64 (current_term s + 1)
      \<and> current_term s2 = int64 (current_term s + 1)
      \<and> current_term s < current_term s2
      \<and> voted_for s2 = Some (peer_uuid s)
      \<and> flushed s2 = (current_term s2, Some (peer_uuid s)) # flushed s"
  proof
    assume a: "DoElectionCallback M V env r s = Some (s2, Some e)"
    note d = DoElectionCallback_starts_election [OF a]
    from d have se: "StartElection M env NORMAL_ELECTION s = Some (OK, s2, Some e)" by simp
    from d StartElection_real [OF se]
    show "is_pre_election (vote_request r) \<and> decision r = VOTE_GRANTED
      \<and> StartElection M env NORMAL_ELECTION s = Some (OK, s2, Some e)
      \<and> \<not> is_pre_election (election_request e)
      \<and> candidate_term (election_request e) = int64 (current_term s + 1)
      \<and> current_term s2 = int64 (current_term s + 1)
      \<and> current_term s < current_term s2
      \<and> voted_for s2 = Some (peer_uuid s)
      \<and> flushed s2 = (current_term s2, Some (peer_uuid s)) # flushed s"
      by simp
  qed
  have c3: "is_pre_election (vote_request r) \<and> decision r = VOTE_GRANTED \<and> state s = kRunning
      \<and> int64 (candidate_term (vote_request r) - 1) = current_term s
      \<and> IsRaftConfigVoter (peer_uuid s) (ActiveConfig s) \<and> active_role s \<noteq> LEADER \<longrightarrow>
      DoElectionCallback M V env r s
        = map_option (\<lambda>(st, s2, el). (s2, el)) (StartElection M env NORMAL_ELECTION s)"
    using DoElectionCallback_pre_election_won [of r s M V env] by blast
  have c4: "is_pre_election request \<and> RequestVote venv request response s = (vst, response', vs') \<longrightarrow>
      vs' = s"
    using RequestVote_pre_election [of request venv response s vst response' vs'] by blast
  have c5: "INT64_MIN \<le> current_term s \<and> current_term s < INT64_MAX \<longrightarrow>
      int64 (current_term s + 1) = current_term s + 1
      \<and> int64 (int64 (current_term s + 1) - 1) = current_term s"
    by (simp add: int64_succ int64_id)
  have c6: "current_term s = INT64_MAX \<longrightarrow>
      int64 (current_term s + 1) = INT64_MIN
      \<and> (\<forall>st2 s3 el2. StartElection M env NORMAL_ELECTION s = Some (st2, s3, el2) \<longrightarrow>
             s3 = s \<and> el2 = None)"
  proof
    assume m: "current_term s = INT64_MAX"
    then have w: "int64 (current_term s + 1) = INT64_MIN"
      by (simp add: int64_def INT64_MAX_def INT64_MIN_def)
    with m have "\<not> current_term s < int64 (current_term s + 1)"
      by (simp add: INT64_MAX_def INT64_MIN_def)
    note h = HandleTermAdvanceUnlocked_refused [OF this, of SKIP_FLUSH_TO_DISK]
    have "\<forall>st2 s3 el2. StartElection M env NORMAL_ELECTION s = Some (st2, s3, el2) \<longrightarrow>
             s3 = s \<and> el2 = None"
      by (auto simp: StartElection_def Let_def h split: if_splits)
    with w show "int64 (current_term s + 1) = INT64_MIN
      \<and> (\<forall>st2 s3 el2. StartElection M env NORMAL_ELECTION s = Some (st2, s3, el2) \<longrightarrow>
             s3 = s \<and> el2 = None)"
      by simp
  qed
  from c1 c2 c3 c4 c5 c6 show ?thesis by (intro conjI)
qed

lemma example_follower_role: "active_role example_follower = FOLLOWER"
  by (simp add: active_role_def example_follower_def example_leader_def GetConsensusRole_def
      ActiveConfig_def example_config_def)

lemma example_follower_voter:
  "IsRaftConfigVoter (peer_uuid example_follower) (ActiveConfig example_follower)"
  by (simp add: IsRaftConfigVoter_def example_follower_def example_leader_def
      ActiveConfig_def example_config_def)

lemma example_counter_new:
  "VoteCounter_new (CountVoters example_config) (majority_of (CountVoters example_config))
     = Some \<lparr> num_voters = 3, counter_candidate_removed = False, majority_size = 2,
              votes = Map.empty, yes_votes = 0, no_votes = 0 \<rparr>"
  by (simp add: CountVoters_def example_config_def majority_of_def VoteCounter_new_def)

lemma example_self_vote:
  "RegisterVote ''a''
       \<lparr> vote = VOTE_GRANTED, is_candidate_removed = False, last_pruned_term = 0 \<rparr> False
       \<lparr> num_voters = 3, counter_candidate_removed = False, majority_size = 2,
         votes = Map.empty, yes_votes = 0, no_votes = 0 \<rparr>
   = (OK, False, vote_counter example_election)"
  by (simp add: RegisterVote_def example_election_def)

lemma example_start_pre_election:
  "StartElection majority_of example_election_env PRE_ELECTION example_follower
     = Some (OK, example_follower, Some example_pre_election)"
proof -
  have f: "peer_uuid example_follower = ''a''" "state example_follower = kRunning"
    "start_election_allowed example_follower" "current_term example_follower = 5"
    "ActiveConfig example_follower = example_config"
    "queue_last_appended example_follower = \<lparr> op_term = 4, op_index = 10 \<rparr>"
    by (simp_all add: example_follower_def example_leader_def ActiveConfig_def)
  have w: "int64 6 = 6" by (simp add: int64_def)
  show ?thesis
    unfolding StartElection_def
    by (simp add: f w example_follower_role IsVoterRole_def CheckRunningUnlocked_def
        example_election_env_def example_counter_new example_self_vote example_pre_election_def
        example_election_def)
qed

lemma example_start_real_election:
  "\<exists>s2 e2. StartElection majority_of example_election_env NORMAL_ELECTION example_follower
     = Some (OK, s2, Some e2)"
proof -
  have f: "peer_uuid example_follower = ''a''" "state example_follower = kRunning"
    "start_election_allowed example_follower" "current_term example_follower = 5"
    by (simp_all add: example_follower_def example_leader_def)
  have w: "int64 6 = 6" by (simp add: int64_def)
  have lt: "current_term example_follower < 6" by (simp add: f)
  note h = HandleTermAdvanceUnlocked_advanced [OF lt, of SKIP_FLUSH_TO_DISK]
  have p: "peer_uuid (advanced 6 SKIP_FLUSH_TO_DISK example_follower) = ''a''"
    using HandleTermAdvanceUnlocked_skip_flush [OF lt] f by (simp add: advanced_def)
  have c: "pending_config (advanced 6 SKIP_FLUSH_TO_DISK example_follower) = None"
    "committed_config (advanced 6 SKIP_FLUSH_TO_DISK example_follower) = example_config"
    by (simp_all add: advanced_def HandleTermAdvanceUnlocked_def BecomeReplicaUnlocked_def
        SetCurrentTermUnlocked_def ClearLeaderUnlocked_def Flush_def Let_def
        example_follower_def example_leader_def)
  show ?thesis
    unfolding StartElection_def
    using h
    by (simp add: f w p c example_follower_role IsVoterRole_def CheckRunningUnlocked_def
        example_election_env_def SetVotedForCurrentTermUnlocked_def Flush_def
        ActiveConfig_def example_counter_new example_self_vote)
qed

lemma example_pre_vote:
  "\<exists>response'. RequestVote example_vote_env example_pre_vote_request empty_vote_response
      example_follower = (OK, response', example_follower) \<and> vote_granted response'"
  by (simp add: RequestVote_def example_vote_env_def example_pre_vote_request_def
      RequestVote_local_last_logged_opid_def example_follower_def example_leader_def
      HasVotedCurrentTermUnlocked_def OpIdLessThan_def RequestVoteRespondVoteGranted_def
      FillVoteResponseVoteGranted_def FillVoteResponsePreviousVoteHistory_def
      FillVoteResponseLastKnownLeader_def IsRaftConfigMember_def ActiveConfig_def
      example_config_def)

theorem pre_election_does_not_persist_witness:
  "StartElection majority_of example_election_env PRE_ELECTION example_follower
     = Some (OK, example_follower, Some example_pre_election)
   \<and> candidate_term (election_request example_pre_election) = 6
   \<and> current_term example_follower = 5
   \<and> int64 (current_term example_follower + 1) = 6
   \<and> (\<exists>s2 e2. DoElectionCallback majority_of refuse_peerless_config example_election_env
          \<lparr> vote_request = election_request example_pre_election, decision = VOTE_GRANTED,
            highest_voter_term = 5, result_is_candidate_removed = False \<rparr>
          example_follower = Some (s2, Some e2)
        \<and> current_term s2 = 6 \<and> voted_for s2 = Some ''a''
        \<and> \<not> is_pre_election (election_request e2))
   \<and> (\<exists>response'. RequestVote example_vote_env example_pre_vote_request empty_vote_response
          example_follower = (OK, response', example_follower) \<and> vote_granted response')"
proof -
  let ?r = "\<lparr> vote_request = election_request example_pre_election, decision = VOTE_GRANTED,
            highest_voter_term = 5, result_is_candidate_removed = False \<rparr>"
  have f: "peer_uuid example_follower = ''a''" "state example_follower = kRunning"
    "current_term example_follower = 5"
    by (simp_all add: example_follower_def example_leader_def)
  have w: "int64 6 = 6" "int64 5 = 5" "INT64_MIN \<le> 5" "(5::int) < INT64_MAX"
    by (simp_all add: int64_def INT64_MIN_def INT64_MAX_def)
  have q: "is_pre_election (vote_request ?r)" "decision ?r = VOTE_GRANTED"
    "int64 (candidate_term (vote_request ?r) - 1) = current_term example_follower"
    by (simp_all add: example_pre_election_def example_election_def f w)
  have nl: "active_role example_follower \<noteq> LEADER" by (simp add: example_follower_role)
  from example_start_real_election obtain s2 e2 where
    se: "StartElection majority_of example_election_env NORMAL_ELECTION example_follower
           = Some (OK, s2, Some e2)" by blast
  from example_pre_vote obtain response' where
    rv: "RequestVote example_vote_env example_pre_vote_request empty_vote_response
          example_follower = (OK, response', example_follower)" "vote_granted response'"
    by blast
  note t = pre_election_does_not_persist [of majority_of example_election_env example_follower
      OK example_follower "Some example_pre_election" refuse_peerless_config ?r s2 e2
      example_pre_vote_request example_vote_env empty_vote_response OK response' example_follower]
  from t q f(2) example_follower_voter nl se
  have d: "DoElectionCallback majority_of refuse_peerless_config example_election_env ?r example_follower
             = Some (s2, Some e2)"
    by simp
  with t f w have "current_term s2 = 6" "voted_for s2 = Some ''a''"
    "\<not> is_pre_election (election_request e2)"
    by simp_all
  with d have second: "\<exists>s2 e2. DoElectionCallback majority_of refuse_peerless_config example_election_env
          ?r example_follower = Some (s2, Some e2)
        \<and> current_term s2 = 6 \<and> voted_for s2 = Some ''a''
        \<and> \<not> is_pre_election (election_request e2)"
    by blast
  from t example_start_pre_election f w
  have first: "candidate_term (election_request example_pre_election) = 6"
    by simp
  from t f w have third: "int64 (current_term example_follower + 1) = 6" by simp
  from example_start_pre_election first f(3) third second rv show ?thesis by blast
qed

section \<open>At most one vote per term\<close>

lemma cmeta_step_mono: "cmeta_step a b \<Longrightarrow> fst a \<le> fst b"
  by (induction rule: cmeta_step.induct) auto

lemma cmeta_step_ok: "cmeta_step a b \<Longrightarrow> cmeta_ok a \<Longrightarrow> cmeta_ok b"
proof (induction rule: cmeta_step.induct)
  case (advance ct nt vf fl)
  then show ?case by (fastforce simp: cmeta_ok_def)
next
  case (bootstrap ct nt vf fl)
  then show ?case by (fastforce simp: cmeta_ok_def)
next
  case (flush ct vf fl)
  then show ?case by (fastforce simp: cmeta_ok_def)
next
  case (cast ct fl u)
  then show ?case by (fastforce simp: cmeta_ok_def)
qed auto

lemma cmeta_step_keeps_vote:
  "cmeta_step a b \<Longrightarrow> fst b = fst a \<Longrightarrow> fst (snd a) = Some u \<Longrightarrow> fst (snd b) = Some u"
proof (induction rule: cmeta_step.induct)
  case (seq a b c)
  from seq.hyps cmeta_step_mono have "fst a \<le> fst b" "fst b \<le> fst c" by blast+
  with seq.prems have "fst b = fst a" "fst c = fst b" by simp_all
  with seq show ?case by simp
qed auto

lemma BecomeReplicaUnlocked_cmeta: "cmeta_of (snd (BecomeReplicaUnlocked s)) = cmeta_of s"
  by (simp add: BecomeReplicaUnlocked_def ClearLeaderUnlocked_def cmeta_of_def)

lemma SetCurrentTermUnlocked_cmeta:
  "cmeta_step (cmeta_of s) (cmeta_of (snd (SetCurrentTermUnlocked nt fl s)))"
proof (cases "nt \<le> current_term s")
  case True
  then show ?thesis by (simp add: SetCurrentTermUnlocked_def cmeta_step.same)
next
  case False
  then have lt: "current_term s < nt" by simp
  have a: "cmeta_step (cmeta_of s) (nt, None, flushed s)"
    unfolding cmeta_of_def by (rule cmeta_step.advance [OF lt])
  show ?thesis
  proof (cases fl)
    case SKIP_FLUSH_TO_DISK
    with a lt show ?thesis
      by (simp add: SetCurrentTermUnlocked_def ClearLeaderUnlocked_def cmeta_of_def Let_def)
  next
    case FLUSH_TO_DISK
    have "cmeta_step (nt, None, flushed s) (nt, None, (nt, None) # flushed s)"
      by (rule cmeta_step.flush)
    with a have "cmeta_step (cmeta_of s) (nt, None, (nt, None) # flushed s)"
      by (rule cmeta_step.seq)
    with lt FLUSH_TO_DISK show ?thesis
      by (simp add: SetCurrentTermUnlocked_def ClearLeaderUnlocked_def cmeta_of_def Let_def
          Flush_def)
  qed
qed

lemma HandleTermAdvanceUnlocked_cmeta:
  "cmeta_step (cmeta_of s) (cmeta_of (snd (HandleTermAdvanceUnlocked nt fl s)))"
proof (cases "nt \<le> current_term s")
  case True
  then show ?thesis by (simp add: HandleTermAdvanceUnlocked_def cmeta_step.same)
next
  case False
  let ?s1 = "if active_role s = LEADER then snd (BecomeReplicaUnlocked s) else s"
  have c1: "cmeta_of ?s1 = cmeta_of s" by (simp add: BecomeReplicaUnlocked_cmeta)
  have "cmeta_of (snd (HandleTermAdvanceUnlocked nt fl s))
          = cmeta_of (snd (SetCurrentTermUnlocked nt fl ?s1))"
    using False
    by (auto simp: HandleTermAdvanceUnlocked_def BecomeReplicaUnlocked_def cmeta_of_def
        Let_def split: prod.splits)
  with SetCurrentTermUnlocked_cmeta [of ?s1 nt fl] c1 show ?thesis by simp
qed

lemma SetVotedForCurrentTermUnlocked_cmeta:
  "voted_for s = None \<Longrightarrow>
     cmeta_step (cmeta_of s) (cmeta_of (snd (SetVotedForCurrentTermUnlocked u s)))"
proof -
  assume n: "voted_for s = None"
  have "cmeta_step (current_term s, None, flushed s) (current_term s, Some u, flushed s)"
    by (rule cmeta_step.cast)
  moreover have "cmeta_step (current_term s, Some u, flushed s)
                   (current_term s, Some u, (current_term s, Some u) # flushed s)"
    by (rule cmeta_step.flush)
  ultimately have "cmeta_step (current_term s, None, flushed s)
                   (current_term s, Some u, (current_term s, Some u) # flushed s)"
    by (rule cmeta_step.seq)
  with n show ?thesis
    by (simp add: SetVotedForCurrentTermUnlocked_def Flush_def cmeta_of_def)
qed

lemma HandleTermAdvanceUnlocked_greater:
  "current_term s < nt \<Longrightarrow>
     fst (HandleTermAdvanceUnlocked nt fl s) = OK
     \<and> current_term (snd (HandleTermAdvanceUnlocked nt fl s)) = nt
     \<and> voted_for (snd (HandleTermAdvanceUnlocked nt fl s)) = None"
  by (simp add: HandleTermAdvanceUnlocked_def BecomeReplicaUnlocked_def
      SetCurrentTermUnlocked_def ClearLeaderUnlocked_def Flush_def Let_def)

lemma RequestVote_cases:
  assumes "RequestVote env req resp s = (st, resp', s')"
  shows "s' = s
       \<or> (\<not> is_pre_election req \<and> current_term s < candidate_term req
            \<and> s' = snd (HandleTermAdvanceUnlocked (candidate_term req) FLUSH_TO_DISK s)
            \<and> \<not> vote_granted resp')
       \<or> (\<not> is_pre_election req \<and> current_term s < candidate_term req
            \<and> s' = snd (SetVotedForCurrentTermUnlocked (candidate_uuid req)
                     (snd (HandleTermAdvanceUnlocked (candidate_term req) SKIP_FLUSH_TO_DISK s))))
       \<or> (\<not> is_pre_election req \<and> current_term s = candidate_term req \<and> voted_for s = None
            \<and> s' = snd (SetVotedForCurrentTermUnlocked (candidate_uuid req) s))"
  using assms
  unfolding advanced_def [symmetric]
  by (auto simp: RequestVote_def Let_def RequestVoteRespondIsBusy_def
        RequestVoteRespondVoteWitheld_def RequestVoteRespondLeaderIsAlive_def
        RequestVoteRespondInvalidTerm_def RequestVoteRespondVoteAlreadyGranted_def
        RequestVoteRespondAlreadyVotedForOther_def RequestVoteRespondLastOpIdTooOld_def
        RequestVoteRespondVoteGranted_def HasVotedCurrentTermUnlocked_def
        FillVoteResponseVoteDenied_def FillVoteResponsePreviousVoteHistory_def
        FillVoteResponseLastKnownLeader_def HandleTermAdvanceUnlocked_advanced
        SetVotedForCurrentTermUnlocked_def
        split: if_splits sum.splits)


lemma RequestVote_cmeta:
  assumes "RequestVote env req resp s = (st, resp', s')"
  shows "cmeta_step (cmeta_of s) (cmeta_of s')"
proof -
  let ?t = "candidate_term req"
  let ?a = "snd (HandleTermAdvanceUnlocked ?t SKIP_FLUSH_TO_DISK s)"
  from RequestVote_cases [OF assms]
  consider (same) "s' = s"
    | (adv) "s' = snd (HandleTermAdvanceUnlocked ?t FLUSH_TO_DISK s)"
    | (advvote) "current_term s < ?t"
        "s' = snd (SetVotedForCurrentTermUnlocked (candidate_uuid req) ?a)"
    | (vote) "voted_for s = None" "s' = snd (SetVotedForCurrentTermUnlocked (candidate_uuid req) s)"
    by auto
  then show ?thesis
  proof cases
    case same
    then show ?thesis by (simp add: cmeta_step.same)
  next
    case adv
    then show ?thesis by (simp add: HandleTermAdvanceUnlocked_cmeta)
  next
    case advvote
    from advvote(1) have "voted_for ?a = None"
      using HandleTermAdvanceUnlocked_greater by blast
    from SetVotedForCurrentTermUnlocked_cmeta [OF this, of "candidate_uuid req"]
      HandleTermAdvanceUnlocked_cmeta [of s ?t SKIP_FLUSH_TO_DISK] advvote(2)
    show ?thesis using cmeta_step.seq by simp
  next
    case vote
    with SetVotedForCurrentTermUnlocked_cmeta show ?thesis by simp
  qed
qed

lemma StartElection_cases:
  assumes "StartElection M env election_mode s = Some (st, s', el)"
  shows "s' = s
       \<or> (current_term s < int64 (current_term s + 1)
          \<and> s' = snd (SetVotedForCurrentTermUnlocked (peer_uuid s)
                    (snd (HandleTermAdvanceUnlocked (int64 (current_term s + 1))
                            SKIP_FLUSH_TO_DISK s))))"
proof (cases "current_term s < int64 (current_term s + 1)")
  case lt: True
  note a = HandleTermAdvanceUnlocked_skip_flush [OF lt, folded advanced_def]
  note h = HandleTermAdvanceUnlocked_advanced [OF lt, of SKIP_FLUSH_TO_DISK]
  show ?thesis
    using assms a lt
    unfolding advanced_def [symmetric]
    by (auto simp: StartElection_def Let_def h SetVotedForCurrentTermUnlocked_def
        split: if_splits option.splits prod.splits)
next
  case False
  note h = HandleTermAdvanceUnlocked_refused [OF False, of SKIP_FLUSH_TO_DISK]
  from assms have "s' = s"
    by (auto simp: StartElection_def Let_def h split: if_splits option.splits prod.splits)
  then show ?thesis by simp
qed

lemma StartElection_cmeta:
  assumes "StartElection M env election_mode s = Some (st, s', el)"
  shows "cmeta_step (cmeta_of s) (cmeta_of s')"
proof -
  let ?nt = "int64 (current_term s + 1)"
  let ?a = "snd (HandleTermAdvanceUnlocked ?nt SKIP_FLUSH_TO_DISK s)"
  from StartElection_cases [OF assms]
  consider "s' = s"
    | "current_term s < ?nt" "s' = snd (SetVotedForCurrentTermUnlocked (peer_uuid s) ?a)"
    by blast
  then show ?thesis
  proof cases
    case 1
    then show ?thesis by (simp add: cmeta_step.same)
  next
    case 2
    have "voted_for ?a = None"
      using HandleTermAdvanceUnlocked_greater [OF 2(1)] by simp
    from SetVotedForCurrentTermUnlocked_cmeta [OF this, of "peer_uuid s"]
      HandleTermAdvanceUnlocked_cmeta [of s ?nt SKIP_FLUSH_TO_DISK] 2(2)
    show ?thesis using cmeta_step.seq by simp
  qed
qed

lemma AddPendingOperationUnlocked_other:
  "msg_op_type msg \<noteq> CHANGE_CONFIG_OP \<Longrightarrow>
     AddPendingOperationUnlocked V msg s
       = Some (fst (AddPendingOperation (msg_id msg) (pending s)),
               s \<lparr> pending := snd (AddPendingOperation (msg_id msg) (pending s)) \<rparr>)"
  by (simp add: AddPendingOperationUnlocked_def Let_def split: prod.splits)

lemma AppendNewRoundToQueueUnlocked_cmeta:
  assumes "msg_op_type msg \<noteq> CHANGE_CONFIG_OP"
    and "AppendNewRoundToQueueUnlocked V msg s = Some (st, s')"
  shows "cmeta_of s' = cmeta_of s"
proof -
  have a: "AddPendingOperationUnlocked V (msg \<lparr> msg_id := i \<rparr>) s
       = Some (fst (AddPendingOperation i (pending s)),
               s \<lparr> pending := snd (AddPendingOperation i (pending s)) \<rparr>)" for i
    using assms(1) AddPendingOperationUnlocked_other [of "msg \<lparr> msg_id := i \<rparr>" V s] by simp
  from assms(2) show ?thesis
    by (auto simp: AppendNewRoundToQueueUnlocked_def Let_def cmeta_of_def a
        AddPendingOperationUnlocked_other [OF assms(1)]
        split: if_splits)
qed

lemma BecomeLeaderUnlocked_cmeta:
  assumes "BecomeLeaderUnlocked V s = Some (st, s')"
  shows "cmeta_of s' = cmeta_of s"
proof -
  let ?s1 = "s \<lparr> withhold_votes_until := MonoTime_Max,
                 leader_transfer_in_progress := False,
                 queue_observer_registered := True \<rparr>"
  let ?msg = "\<lparr> msg_id = MinimumOpId, msg_op_type = NO_OP,
               msg_old_config = None, msg_new_config = None \<rparr>"
  define s2 where "s2 = snd (RefreshConsensusQueueAndPeersUnlocked ?s1)"
  have c: "cmeta_of s2 = cmeta_of s"
    by (simp add: s2_def RefreshConsensusQueueAndPeersUnlocked_def cmeta_of_def Let_def)
  obtain st2 where r: "RefreshConsensusQueueAndPeersUnlocked ?s1 = (st2, s2)"
    by (cases "RefreshConsensusQueueAndPeersUnlocked ?s1") (auto simp: s2_def)
  from assms have "s' = s2 \<or> AppendNewRoundToQueueUnlocked V ?msg s2 = Some (st, s')"
    by (auto simp: BecomeLeaderUnlocked_def Let_def r split: if_splits)
  then show ?thesis
  proof
    assume "s' = s2"
    with c show ?thesis by simp
  next
    assume a: "AppendNewRoundToQueueUnlocked V ?msg s2 = Some (st, s')"
    have "msg_op_type ?msg \<noteq> CHANGE_CONFIG_OP" by simp
    from AppendNewRoundToQueueUnlocked_cmeta [OF this a] c show ?thesis by simp
  qed
qed

lemma cmeta_of_failed_elections:
  "cmeta_of (s \<lparr> failed_elections_candidate_not_in_config := a \<rparr>) = cmeta_of s"
  "cmeta_of (s \<lparr> failed_elections_since_stable_leader := b \<rparr>) = cmeta_of s"
  by (simp_all add: cmeta_of_def)

lemma HandleTermAdvanceUnlocked_cmeta_from:
  "cmeta_of a = cmeta_of s \<Longrightarrow>
     cmeta_step (cmeta_of s) (cmeta_of (snd (HandleTermAdvanceUnlocked nt fl a)))"
  using HandleTermAdvanceUnlocked_cmeta [of a nt fl] by simp

lemma DoElectionCallback_denied_cmeta:
  assumes "decision r = VOTE_DENIED"
  shows "\<exists>s'. DoElectionCallback M V env r s = Some (s', None)
            \<and> cmeta_step (cmeta_of s) (cmeta_of s')"
  using assms
  by (simp add: DoElectionCallback_def Let_def cmeta_of_failed_elections
      HandleTermAdvanceUnlocked_cmeta_from cmeta_step.same)

lemma DoElectionCallback_granted:
  assumes "decision r = VOTE_GRANTED"
  shows "DoElectionCallback M V env r s =
     (if CheckRunningUnlocked s \<noteq> OK
         \<or> (if is_pre_election (vote_request r)
             then int64 (candidate_term (vote_request r) - 1)
             else candidate_term (vote_request r)) \<noteq> current_term s
         \<or> \<not> IsRaftConfigVoter (peer_uuid s) (ActiveConfig s)
         \<or> active_role s = LEADER
      then Some (s, None)
      else if is_pre_election (vote_request r)
      then (case StartElection M env NORMAL_ELECTION s of
              None \<Rightarrow> None
            | Some (st, s2, el) \<Rightarrow> Some (s2, el))
      else if fst (SetLeaderUuidUnlocked (peer_uuid s) s) \<noteq> OK then None
      else (case BecomeLeaderUnlocked V (snd (SetLeaderUuidUnlocked (peer_uuid s) s)) of
              None \<Rightarrow> None
            | Some (st2, s3) \<Rightarrow> if st2 \<noteq> OK then None else Some (s3, None)))"
  using assms
  by (simp add: DoElectionCallback_def Let_def split_beta)

lemma DoElectionCallback_cmeta:
  assumes "DoElectionCallback M V env r s = Some (s', el)"
  shows "cmeta_step (cmeta_of s) (cmeta_of s')"
proof (cases "decision r")
  case VOTE_DENIED
  from DoElectionCallback_denied_cmeta [OF VOTE_DENIED, of M V env s] assms
  show ?thesis by auto
next
  case VOTE_GRANTED
  note g = DoElectionCallback_granted [OF VOTE_GRANTED, of M V env s]
  show ?thesis
  proof (cases "CheckRunningUnlocked s \<noteq> OK
         \<or> (if is_pre_election (vote_request r)
             then int64 (candidate_term (vote_request r) - 1)
             else candidate_term (vote_request r)) \<noteq> current_term s
         \<or> \<not> IsRaftConfigVoter (peer_uuid s) (ActiveConfig s)
         \<or> active_role s = LEADER")
    case True
    with g have "DoElectionCallback M V env r s = Some (s, None)" by simp
    with assms show ?thesis by (simp add: cmeta_step.same)
  next
    case False
    show ?thesis
    proof (cases "is_pre_election (vote_request r)")
      case True
      with g False have d: "DoElectionCallback M V env r s =
          (case StartElection M env NORMAL_ELECTION s of
              None \<Rightarrow> None
            | Some (st, s2, el) \<Rightarrow> Some (s2, el))"
        by simp
      from d assms obtain st where "StartElection M env NORMAL_ELECTION s = Some (st, s', el)"
        by (cases "StartElection M env NORMAL_ELECTION s") auto
      then show ?thesis by (rule StartElection_cmeta)
    next
      case pre: False
      let ?s2 = "snd (SetLeaderUuidUnlocked (peer_uuid s) s)"
      from g False pre have d: "DoElectionCallback M V env r s =
          (if fst (SetLeaderUuidUnlocked (peer_uuid s) s) \<noteq> OK then None
           else (case BecomeLeaderUnlocked V ?s2 of
              None \<Rightarrow> None
            | Some (st2, s3) \<Rightarrow> if st2 \<noteq> OK then None else Some (s3, None)))"
        by simp
      from d assms obtain st where "BecomeLeaderUnlocked V ?s2 = Some (st, s')"
        by (cases "BecomeLeaderUnlocked V ?s2") (auto split: if_splits)
      from BecomeLeaderUnlocked_cmeta [OF this]
      have "cmeta_of s' = cmeta_of s" by (simp add: SetLeaderUuidUnlocked_def cmeta_of_def)
      then show ?thesis by (simp add: cmeta_step.same)
    qed
  qed
qed

lemma SetCurrentTermBootstrap_cmeta:
  "cmeta_step (cmeta_of s) (cmeta_of (snd (SetCurrentTermBootstrap nt s)))"
proof (cases "nt \<le> current_term s")
  case True
  then show ?thesis by (simp add: SetCurrentTermBootstrap_def cmeta_step.same)
next
  case False
  then have lt: "current_term s < nt" by simp
  have "cmeta_step (cmeta_of s) (nt, voted_for s, flushed s)"
    unfolding cmeta_of_def by (rule cmeta_step.bootstrap [OF lt])
  moreover have "cmeta_step (nt, voted_for s, flushed s)
                   (nt, voted_for s, (nt, voted_for s) # flushed s)"
    by (rule cmeta_step.flush)
  ultimately have "cmeta_step (cmeta_of s) (nt, voted_for s, (nt, voted_for s) # flushed s)"
    by (rule cmeta_step.seq)
  with lt show ?thesis by (simp add: SetCurrentTermBootstrap_def Flush_def cmeta_of_def)
qed

lemma step_cmeta: "step M V ev s = Some s' \<Longrightarrow> cmeta_step (cmeta_of s) (cmeta_of s')"
proof (cases ev)
  case (RequestVote_event env req resp)
  assume "step M V ev s = Some s'"
  with RequestVote_event have "RequestVote env req resp s
      = (fst (RequestVote env req resp s), fst (snd (RequestVote env req resp s)), s')"
    by auto
  then show ?thesis by (rule RequestVote_cmeta)
next
  case (StartElection_event env m)
  assume "step M V ev s = Some s'"
  with StartElection_event obtain st el where "StartElection M env m s = Some (st, s', el)"
    by auto
  then show ?thesis by (rule StartElection_cmeta)
next
  case (ElectionCallback_event env r)
  assume "step M V ev s = Some s'"
  with ElectionCallback_event obtain el where "DoElectionCallback M V env r s = Some (s', el)"
    by auto
  then show ?thesis by (rule DoElectionCallback_cmeta)
next
  case (TermAdvance_event nt fl)
  assume "step M V ev s = Some s'"
  with TermAdvance_event show ?thesis using HandleTermAdvanceUnlocked_cmeta by auto
next
  case (TermBootstrap_event nt)
  assume "step M V ev s = Some s'"
  with TermBootstrap_event show ?thesis using SetCurrentTermBootstrap_cmeta by auto
next
  case Flush_event
  assume "step M V ev s = Some s'"
  with Flush_event have "s' = Flush s" by simp
  then show ?thesis by (simp add: Flush_def cmeta_of_def cmeta_step.flush)
qed

lemma run_cmeta: "run M V evs s = Some s' \<Longrightarrow> cmeta_step (cmeta_of s) (cmeta_of s')"
proof (induction evs arbitrary: s)
  case Nil
  then show ?case by (simp add: cmeta_step.same)
next
  case (Cons ev evs)
  from Cons.prems obtain s1 where s1: "step M V ev s = Some s1" "run M V evs s1 = Some s'"
    by (auto split: option.splits)
  from step_cmeta [OF s1(1)] Cons.IH [OF s1(2)] show ?case by (rule cmeta_step.seq)
qed

lemma RequestVote_already_voted:
  assumes "reaches_vote_check env req s" and "voted_for s = Some u"
    and "candidate_term req = current_term s"
  shows "snd (snd (RequestVote env req resp s)) = s \<and> fst (RequestVote env req resp s) = OK
       \<and> (u = candidate_uuid req \<longrightarrow> vote_granted (fst (snd (RequestVote env req resp s))))
       \<and> (u \<noteq> candidate_uuid req \<longrightarrow>
             \<not> vote_granted (fst (snd (RequestVote env req resp s)))
             \<and> consensus_error_code (fst (snd (RequestVote env req resp s))) = Some ALREADY_VOTED)"
proof -
  from assms(1) obtain opid where o: "RequestVote_local_last_logged_opid env s = Inr opid"
    by (auto simp: reaches_vote_check_def split: sum.splits)
  from assms(1) have g: "\<not> (FLAGS_enable_leader_failure_detection env \<and> \<not> ignore_live_leader req
        \<and> update_lock_held env)" "\<not> withhold_votes s"
      "\<not> (\<not> ignore_live_leader req \<and> MonoTime_less (now env) (withhold_votes_until s))"
    by (auto simp: reaches_vote_check_def)
  have h: "HasVotedCurrentTermUnlocked s" using assms(2) by (simp add: HasVotedCurrentTermUnlocked_def)
  show ?thesis
    using g h assms(2,3)
    by (auto simp: RequestVote_def o Let_def
      RequestVoteRespondVoteAlreadyGranted_def RequestVoteRespondAlreadyVotedForOther_def
      FillVoteResponseVoteDenied_def FillVoteResponseVoteGranted_def
      FillVoteResponsePreviousVoteHistory_def FillVoteResponseLastKnownLeader_def)
qed

lemma SetVotedForCurrentTermUnlocked_term:
  "current_term (snd (SetVotedForCurrentTermUnlocked u s)) = current_term s"
  by (simp add: SetVotedForCurrentTermUnlocked_def Flush_def)

lemma RequestVote_term_cases:
  assumes "RequestVote env req resp s = (st, resp', s')"
  shows "s' = s \<or> current_term s < current_term s' \<or> voted_for s = None"
  using RequestVote_cases [OF assms]
  by (elim disjE conjE)
    (simp_all add: HandleTermAdvanceUnlocked_term SetVotedForCurrentTermUnlocked_term)

text \<open>
  C1. At most one vote per term. (1) Starting from a metadata that agrees with its flush
  history, after any run of the calls that write the term or the vote the flush history
  has one vote per term: of two persisted records of the same term, the older has no vote
  or the same vote as the newer; and the term has not gone back. (2) No such call lowers
  the term, and a call after which the vote is no longer the one it was has strictly
  raised the term. (3) \<^verbatim>\<open>RequestVote\<close> on a replica that has a vote recorded leaves the
  whole state as it is (no \<^verbatim>\<open>SetVotedForCurrentTermUnlocked\<close>, no flush) unless the term
  changes; and a request for the current term that gets as far as the comparison of the
  terms is answered OK with the vote granted when the recorded vote is for the same
  candidate and with an ALREADY\_VOTED denial when it is for another one.
\<close>

theorem at_most_one_vote_per_term:
  "(cmeta_ok (cmeta_of init) \<and> run M V evs init = Some final \<longrightarrow>
      one_vote_per_term (flushed final) \<and> current_term init \<le> current_term final)
 \<and> (step M V ev before = Some after \<longrightarrow>
      current_term before \<le> current_term after
      \<and> (\<forall>u. voted_for before = Some u \<and> voted_for after \<noteq> Some u \<longrightarrow>
               current_term before < current_term after))
 \<and> (RequestVote env req resp voter = (st, resp', voter') \<longrightarrow>
      (voted_for voter \<noteq> None \<and> current_term voter' = current_term voter \<longrightarrow> voter' = voter)
      \<and> (\<forall>u. reaches_vote_check env req voter \<and> voted_for voter = Some u
                \<and> candidate_term req = current_term voter \<longrightarrow>
             voter' = voter \<and> st = OK
             \<and> (u = candidate_uuid req \<longrightarrow> vote_granted resp')
             \<and> (u \<noteq> candidate_uuid req \<longrightarrow>
                   \<not> vote_granted resp' \<and> consensus_error_code resp' = Some ALREADY_VOTED)))"
proof -
  have c1: "cmeta_ok (cmeta_of init) \<and> run M V evs init = Some final \<longrightarrow>
      one_vote_per_term (flushed final) \<and> current_term init \<le> current_term final"
  proof
    assume a: "cmeta_ok (cmeta_of init) \<and> run M V evs init = Some final"
    then have st: "cmeta_step (cmeta_of init) (cmeta_of final)" using run_cmeta by blast
    from cmeta_step_ok [OF st] a have "cmeta_ok (cmeta_of final)" by simp
    moreover from cmeta_step_mono [OF st] have "current_term init \<le> current_term final"
      by (simp add: cmeta_of_def)
    ultimately show "one_vote_per_term (flushed final) \<and> current_term init \<le> current_term final"
      by (simp add: cmeta_ok_def cmeta_of_def)
  qed
  have c2: "step M V ev before = Some after \<longrightarrow>
      current_term before \<le> current_term after
      \<and> (\<forall>u. voted_for before = Some u \<and> voted_for after \<noteq> Some u \<longrightarrow>
               current_term before < current_term after)"
  proof
    assume "step M V ev before = Some after"
    then have st: "cmeta_step (cmeta_of before) (cmeta_of after)" by (rule step_cmeta)
    from cmeta_step_mono [OF st] have m: "current_term before \<le> current_term after"
      by (simp add: cmeta_of_def)
    have "\<And>u. voted_for before = Some u \<Longrightarrow> voted_for after \<noteq> Some u \<Longrightarrow>
            current_term before < current_term after"
    proof (rule ccontr)
      fix u assume v: "voted_for before = Some u" "voted_for after \<noteq> Some u"
        and "\<not> current_term before < current_term after"
      with m have "current_term after = current_term before" by simp
      with cmeta_step_keeps_vote [OF st, of u] v show False by (simp add: cmeta_of_def)
    qed
    with m show "current_term before \<le> current_term after
      \<and> (\<forall>u. voted_for before = Some u \<and> voted_for after \<noteq> Some u \<longrightarrow>
               current_term before < current_term after)"
      by blast
  qed
  have c3: "RequestVote env req resp voter = (st, resp', voter') \<longrightarrow>
      (voted_for voter \<noteq> None \<and> current_term voter' = current_term voter \<longrightarrow> voter' = voter)
      \<and> (\<forall>u. reaches_vote_check env req voter \<and> voted_for voter = Some u
                \<and> candidate_term req = current_term voter \<longrightarrow>
             voter' = voter \<and> st = OK
             \<and> (u = candidate_uuid req \<longrightarrow> vote_granted resp')
             \<and> (u \<noteq> candidate_uuid req \<longrightarrow>
                   \<not> vote_granted resp' \<and> consensus_error_code resp' = Some ALREADY_VOTED))"
  proof
    assume rv: "RequestVote env req resp voter = (st, resp', voter')"
    have p1: "voted_for voter \<noteq> None \<and> current_term voter' = current_term voter \<longrightarrow> voter' = voter"
    proof
      assume v: "voted_for voter \<noteq> None \<and> current_term voter' = current_term voter"
      from RequestVote_term_cases [OF rv] v show "voter' = voter" by auto
    qed
    have p2: "reaches_vote_check env req voter \<and> voted_for voter = Some u
                \<and> candidate_term req = current_term voter \<longrightarrow>
             voter' = voter \<and> st = OK
             \<and> (u = candidate_uuid req \<longrightarrow> vote_granted resp')
             \<and> (u \<noteq> candidate_uuid req \<longrightarrow>
                   \<not> vote_granted resp' \<and> consensus_error_code resp' = Some ALREADY_VOTED)" for u
      using RequestVote_already_voted [of env req voter u resp] rv by simp
    from p1 p2
    show "(voted_for voter \<noteq> None \<and> current_term voter' = current_term voter \<longrightarrow> voter' = voter)
      \<and> (\<forall>u. reaches_vote_check env req voter \<and> voted_for voter = Some u
                \<and> candidate_term req = current_term voter \<longrightarrow>
             voter' = voter \<and> st = OK
             \<and> (u = candidate_uuid req \<longrightarrow> vote_granted resp')
             \<and> (u \<noteq> candidate_uuid req \<longrightarrow>
                   \<not> vote_granted resp' \<and> consensus_error_code resp' = Some ALREADY_VOTED))"
      by blast
  qed
  from c1 c2 c3 show ?thesis by (intro conjI)
qed

lemma example_follower_cmeta_ok: "cmeta_ok (cmeta_of example_follower)"
  by (simp add: cmeta_ok_def cmeta_of_def example_follower_def example_leader_def)

lemma example_first_vote:
  "snd (snd (RequestVote example_vote_env example_vote_request empty_vote_response
       example_follower)) = example_voted"
proof -
  have lt: "current_term example_follower < 6"
    by (simp add: example_follower_def example_leader_def)
  have a: "advanced 6 SKIP_FLUSH_TO_DISK example_follower
      = example_follower \<lparr> current_term := 6, voted_for := None, leader_uuid := [],
                             last_received_cur_leader := MinimumOpId \<rparr>"
    using example_follower_role
    by (simp add: advanced_def HandleTermAdvanceUnlocked_def SetCurrentTermUnlocked_def
        ClearLeaderUnlocked_def Let_def example_follower_def example_leader_def)
  note h = HandleTermAdvanceUnlocked_advanced [OF lt, of SKIP_FLUSH_TO_DISK]
  have f: "peer_uuid example_follower = ''a''" "state example_follower = kRunning"
    "current_term example_follower = 5" "voted_for example_follower = None"
    "\<not> withhold_votes example_follower"
    "withhold_votes_until example_follower = MonoTime_Min"
    "removed_peers example_follower = []"
    "queue_last_appended example_follower = \<lparr> op_term = 4, op_index = 10 \<rparr>"
    by (simp_all add: example_follower_def example_leader_def)
  have "snd (snd (RequestVote example_vote_env example_vote_request empty_vote_response
       example_follower))
     = Flush ((advanced 6 SKIP_FLUSH_TO_DISK example_follower) \<lparr> voted_for := Some ''b'' \<rparr>)"
    by (simp add: RequestVote_def example_vote_env_def example_vote_request_def
        example_pre_vote_request_def RequestVote_local_last_logged_opid_def
        HasVotedCurrentTermUnlocked_def OpIdLessThan_def RequestVoteRespondVoteGranted_def
        FillVoteResponseVoteGranted_def h f SetVotedForCurrentTermUnlocked_def)
  also have "\<dots> = example_voted"
    unfolding a
    by (simp add: Flush_def example_voted_def example_follower_def example_leader_def)
  finally show ?thesis .
qed

lemma example_rival_vote:
  "RequestVote example_vote_env example_rival_request empty_vote_response example_voted
     = (OK, example_rival_denial, example_voted)"
  by (simp add: RequestVote_def example_vote_env_def example_rival_request_def
      example_vote_request_def example_pre_vote_request_def
      RequestVote_local_last_logged_opid_def HasVotedCurrentTermUnlocked_def
      RequestVoteRespondAlreadyVotedForOther_def FillVoteResponseVoteDenied_def
      FillVoteResponsePreviousVoteHistory_def FillVoteResponseLastKnownLeader_def
      no_previous_votes_def no_pruned_term_def no_known_leader_def
      IsRaftConfigMember_def ActiveConfig_def example_config_def
      example_voted_def example_follower_def example_leader_def
      example_rival_denial_def empty_vote_response_def)

lemma example_rival_reaches_vote_check:
  "reaches_vote_check example_vote_env example_rival_request example_voted"
  by (simp add: reaches_vote_check_def example_vote_env_def example_rival_request_def
      example_vote_request_def example_pre_vote_request_def
      RequestVote_local_last_logged_opid_def
      example_voted_def example_follower_def example_leader_def)

theorem at_most_one_vote_per_term_witness:
  "cmeta_ok (cmeta_of example_follower)
   \<and> run majority_of refuse_peerless_config example_votes example_follower = Some example_voted
   \<and> flushed example_voted = [(6, Some ''b''), (5, None)]
   \<and> one_vote_per_term (flushed example_voted)
   \<and> step majority_of refuse_peerless_config (TermAdvance_event 7 FLUSH_TO_DISK) example_voted
       = Some (advanced 7 FLUSH_TO_DISK example_voted)
   \<and> voted_for example_voted = Some ''b''
   \<and> voted_for (advanced 7 FLUSH_TO_DISK example_voted) \<noteq> Some ''b''
   \<and> current_term example_voted < current_term (advanced 7 FLUSH_TO_DISK example_voted)
   \<and> reaches_vote_check example_vote_env example_rival_request example_voted
   \<and> candidate_term example_rival_request = current_term example_voted
   \<and> RequestVote example_vote_env example_rival_request empty_vote_response example_voted
       = (OK, example_rival_denial, example_voted)
   \<and> \<not> vote_granted example_rival_denial
   \<and> consensus_error_code example_rival_denial = Some ALREADY_VOTED"
proof -
  let ?a = "advanced 7 FLUSH_TO_DISK example_voted"
  have r: "run majority_of refuse_peerless_config example_votes example_follower = Some example_voted"
    by (simp add: example_votes_def example_first_vote example_rival_vote)
  have f: "flushed example_voted = [(6, Some ''b''), (5, None)]"
    "voted_for example_voted = Some ''b''"
    "candidate_term example_rival_request = current_term example_voted"
    "''b'' \<noteq> candidate_uuid example_rival_request"
    by (simp_all add: example_voted_def example_rival_request_def example_vote_request_def
        example_pre_vote_request_def)
  have st: "step majority_of refuse_peerless_config (TermAdvance_event 7 FLUSH_TO_DISK) example_voted
       = Some ?a"
    by (simp add: advanced_def)
  have lt: "current_term example_voted < 7" by (simp add: example_voted_def)
  from HandleTermAdvanceUnlocked_greater [OF lt, of FLUSH_TO_DISK]
  have v: "voted_for ?a \<noteq> Some ''b''" by (simp add: advanced_def)
  note t = at_most_one_vote_per_term [where init = example_follower and final = example_voted
      and M = majority_of and V = refuse_peerless_config and evs = example_votes
      and ev = "TermAdvance_event 7 FLUSH_TO_DISK" and before = example_voted and after = ?a
      and env = example_vote_env and req = example_rival_request
      and resp = empty_vote_response and voter = example_voted and st = OK
      and resp' = example_rival_denial and voter' = example_voted]
  from t example_follower_cmeta_ok r have c1: "one_vote_per_term (flushed example_voted)"
    by blast
  from t st f(2) v have c2: "current_term example_voted < current_term ?a" by blast
  from t example_rival_vote example_rival_reaches_vote_check f(2,3,4)
  have c3: "\<not> vote_granted example_rival_denial
      \<and> consensus_error_code example_rival_denial = Some ALREADY_VOTED"
    by blast
  from example_follower_cmeta_ok r f c1 st v c2 example_rival_reaches_vote_check
    example_rival_vote c3
  show ?thesis by simp
qed

section \<open>The precondition of a configuration change\<close>

lemma CheckBulkConfigChangeAndGetNewConfigUnlocked_not_committed_in_term:
  assumes "CheckRunningUnlocked s = OK" "CheckActiveLeaderUnlocked s = OK"
    "CheckNoConfigChangePendingUnlocked s = OK" "\<not> IsCommittedIndexInCurrentTerm s"
  shows "CheckBulkConfigChangeAndGetNewConfigUnlocked apply_config_changes req error_code
           new_config s = (IllegalState, error_code, new_config)"
  using assms by (simp add: CheckBulkConfigChangeAndGetNewConfigUnlocked_def)

lemma CheckBulkConfigChangeAndGetNewConfigUnlocked_untouched:
  assumes "\<not> IsCommittedIndexInCurrentTerm s"
  shows "snd (CheckBulkConfigChangeAndGetNewConfigUnlocked apply_config_changes req error_code
           new_config s) = (error_code, new_config)
       \<and> fst (CheckBulkConfigChangeAndGetNewConfigUnlocked apply_config_changes req error_code
           new_config s) \<noteq> OK"
  using assms by (simp add: CheckBulkConfigChangeAndGetNewConfigUnlocked_def)

lemma ReplicateConfigChangeUnlocked_peerless:
  assumes "\<And>c. peers c = [] \<Longrightarrow> V c = IllegalState"
    and "committed_config_opid_index s < op_index (GetNextOpId s)"
  shows "ReplicateConfigChangeUnlocked V old_config default_RaftConfigPB s
           = Some (IllegalState, s)"
proof -
  let ?c = "default_RaftConfigPB \<lparr> opid_index := Some (op_index (GetNextOpId s)) \<rparr>"
  have v: "V ?c = IllegalState" using assms(1) [of ?c] by (simp add: default_RaftConfigPB_def)
  have n: "op_index (GetNextOpId s) \<noteq> 0 \<or> op_index (GetNextOpId s) = 0" by simp
  have p: "CheckNoConfigChangePendingUnlocked s \<noteq> OK \<Longrightarrow>
             CheckNoConfigChangePendingUnlocked s = IllegalState"
    by (simp add: CheckNoConfigChangePendingUnlocked_def split: if_splits)
  show ?thesis
    using assms(2) v p
    by (auto simp: ReplicateConfigChangeUnlocked_def CreateReplicateMsgFromConfigsUnlocked_def
        AppendNewRoundToQueueUnlocked_def AddPendingOperationUnlocked_def MinimumOpId_def
        SetPendingConfigUnlocked_def committed_config_opid_index_def Let_def
        default_RaftConfigPB_def)
qed

text \<open>
  C9. The precondition of a configuration change. Let a replica not have committed an
  operation of its current term (its committed index does not fall within the term).
  (1) When it is a running active leader with no configuration change pending,
  \<^verbatim>\<open>CheckBulkConfigChangeAndGetNewConfigUnlocked\<close> rejects every request with
  IllegalState and leaves the error code and the new configuration as they were given,
  and \<^verbatim>\<open>CheckAndPopulateChangeConfigMessage\<close> returns that rejection. (2)
  \<^verbatim>\<open>BulkChangeConfig\<close>, and \<^verbatim>\<open>ChangeConfig\<close> through it, return IllegalState for every
  request and leave the whole state of the replica, its pending configuration included,
  as it was. \<^verbatim>\<open>BulkChangeConfig\<close> does not look at the status of the check; the
  configuration it goes on with is the default-constructed one that the failed check left
  untouched, and the rejection comes from \<^verbatim>\<open>CheckNoConfigChangePendingUnlocked\<close> or from
  \<^verbatim>\<open>VerifyRaftConfig\<close> in \<^verbatim>\<open>SetPendingConfigUnlocked\<close>, before any change of the state.
  \<^verbatim>\<open>VerifyRaftConfig\<close> is defined outside the files at hand: the statement is for
  every \<open>V\<close> that refuses a configuration without peers with IllegalState. The index of
  the committed configuration is below the next index of the log, as it is on every
  replica whose committed configuration came through its log.
\<close>

theorem config_change_requires_commit_in_term:
  assumes "\<And>c. peers c = [] \<Longrightarrow> V c = IllegalState"
    and "\<not> IsCommittedIndexInCurrentTerm s"
    and "committed_config_opid_index s < op_index (GetNextOpId s)"
  shows "(CheckRunningUnlocked s = OK \<and> CheckActiveLeaderUnlocked s = OK
          \<and> CheckNoConfigChangePendingUnlocked s = OK \<longrightarrow>
            CheckBulkConfigChangeAndGetNewConfigUnlocked apply_config_changes req error_code
                new_config s = (IllegalState, error_code, new_config)
            \<and> CheckAndPopulateChangeConfigMessage apply_config_changes req error_code s
                = (IllegalState, error_code, None))
       \<and> BulkChangeConfig V apply_config_changes req error_code s
           = Some (IllegalState, error_code, s)
       \<and> ChangeConfig V apply_items creq error_code s = Some (IllegalState, error_code, s)"
proof -
  note u = CheckBulkConfigChangeAndGetNewConfigUnlocked_untouched [OF assms(2)]
  note r = ReplicateConfigChangeUnlocked_peerless [OF assms(1) assms(3)]
  have b: "BulkChangeConfig V a q error_code s = Some (IllegalState, error_code, s)" for a q
    using u [of a q error_code default_RaftConfigPB]
      r [where old_config = "committed_config s"]
    by (simp add: BulkChangeConfig_def split_beta)
  have c: "CheckRunningUnlocked s = OK \<and> CheckActiveLeaderUnlocked s = OK
          \<and> CheckNoConfigChangePendingUnlocked s = OK \<longrightarrow>
            CheckBulkConfigChangeAndGetNewConfigUnlocked apply_config_changes req error_code
                new_config s = (IllegalState, error_code, new_config)
            \<and> CheckAndPopulateChangeConfigMessage apply_config_changes req error_code s
                = (IllegalState, error_code, None)"
    using assms(2)
    by (simp add: CheckBulkConfigChangeAndGetNewConfigUnlocked_def
        CheckAndPopulateChangeConfigMessage_def)
  from c b [of apply_config_changes req] b [of apply_items "GetBulkConfigChangeRequest creq"]
  show ?thesis by (simp add: ChangeConfig_def)
qed

lemma example_leader_checks:
  "CheckRunningUnlocked example_leader = OK"
  "CheckActiveLeaderUnlocked example_leader = OK"
  "CheckNoConfigChangePendingUnlocked example_leader = OK"
  "\<not> IsCommittedIndexInCurrentTerm example_leader"
  "committed_config_opid_index example_leader < op_index (GetNextOpId example_leader)"
  using example_leader_role
  by (simp_all add: CheckRunningUnlocked_def CheckActiveLeaderUnlocked_def
      CheckNoConfigChangePendingUnlocked_def IsCommittedIndexInCurrentTerm_def
      committed_config_opid_index_def GetNextOpId_def example_config_def
      example_leader_def)

theorem config_change_requires_commit_in_term_witness:
  "peers default_RaftConfigPB = []
   \<and> refuse_peerless_config default_RaftConfigPB = IllegalState
   \<and> \<not> IsCommittedIndexInCurrentTerm example_leader
   \<and> committed_config_opid_index example_leader < op_index (GetNextOpId example_leader)
   \<and> CheckActiveLeaderUnlocked example_leader = OK
   \<and> pending_config example_leader = None
   \<and> BulkChangeConfig refuse_peerless_config keep_committed_config example_bulk_request None
        example_leader
     = Some (IllegalState, None, example_leader)
   \<and> ChangeConfig refuse_peerless_config keep_committed_config example_change_request None
        example_leader
     = Some (IllegalState, None, example_leader)
   \<and> CheckAndPopulateChangeConfigMessage keep_committed_config example_bulk_request None
        example_leader
     = (IllegalState, None, None)"
proof -
  have v: "\<And>c. peers c = [] \<Longrightarrow> refuse_peerless_config c = IllegalState"
    by (simp add: refuse_peerless_config_def)
  note t = config_change_requires_commit_in_term [of refuse_peerless_config example_leader
      keep_committed_config example_bulk_request None default_RaftConfigPB keep_committed_config
      example_change_request, OF v example_leader_checks(4) example_leader_checks(5)]
  have p: "peers default_RaftConfigPB = []" "pending_config example_leader = None"
    by (simp_all add: default_RaftConfigPB_def example_leader_def)
  from t example_leader_checks p v [OF p(1)] show ?thesis by simp
qed

end
